(* ===== verification/Qt_Prelude.thy ===== *)
theory Qt_Prelude
  imports Main "HOL-Library.Word" "HOL-Library.List_Lexorder" "HOL-Library.Char_ord"
begin

text \<open>
  Shared vocabulary of the development: Qt strings as lists of UTF-16 code units, decimal
  rendering and parsing of unsigned integers, the ordered maps that stand for \<open>QMap\<close>,
  \<open>QHash\<close> and \<open>QJsonObject\<close>, and the \<open>ValidationResult\<close> of
  src/src/component/validation_result.h.

  A \<open>QMap\<close> is modelled by its list of entries in strictly increasing key order. A
  \<open>QHash\<close> has no defined order; it is modelled by the same list, because two hashes are
  equal exactly when their sorted entry lists are, and the code iterates hashes only where
  the order does not matter or after sorting the keys.
\<close>

named_theorems component_simps \<open>unfolding rules that symbolic evaluation of the model uses\<close>

section \<open>Qt strings\<close>

type_synonym qchar = "16 word"
type_synonym qstring = "qchar list"
type_synonym byte = "8 word"
type_synonym bytes = "byte list"

text \<open>\<open>Q ''abc''\<close> stands for \<open>QStringLiteral("abc")\<close>.\<close>

definition Q :: "string \<Rightarrow> qstring" where
  "Q s = map of_char s"

lemma unat_of_char_16: "unat (of_char c :: 16 word) = of_char c"
proof -
  have "of_char c < (65536 :: nat)"
    using nat_of_char_less_256 [of c] by linarith
  then have "unat (word_of_nat (of_char c) :: 16 word) = of_char c"
    by (simp add: unsigned_of_nat take_bit_nat_eq_self)
  then show ?thesis by (simp only: of_nat_of_char)
qed

lemma of_char_16_inject [simp]: "(of_char c :: 16 word) = of_char d \<longleftrightarrow> c = d"
  by (metis of_char_eq_iff unat_of_char_16)

lemma of_char_16_less [simp]: "(of_char c :: 16 word) < of_char d \<longleftrightarrow> c < d"
  by (simp add: word_less_nat_alt unat_of_char_16 less_char_def)

lemma Q_inject [simp]: "Q s = Q t \<longleftrightarrow> s = t"
  by (simp add: Q_def inj_map_eq_map inj_def)

lemma Q_less [simp]: "Q s < Q t \<longleftrightarrow> s < t"
  unfolding Q_def
proof (induction s arbitrary: t)
  case Nil
  then show ?case by (cases t) simp_all
next
  case (Cons c s)
  then show ?case by (cases t) (auto simp: Cons_less_Cons)
qed

lemma Q_le [simp]: "Q s \<le> Q t \<longleftrightarrow> s \<le> t"
  by (auto simp: le_less)

lemma length_Q [simp]: "length (Q s) = length s"
  by (simp add: Q_def)

lemma Q_eq_Nil [simp]: "Q s = [] \<longleftrightarrow> s = []" "[] = Q s \<longleftrightarrow> s = []"
  by (simp_all add: Q_def)

lemma Q_Nil: "Q [] = []"
  by (simp add: Q_def)

lemma Q_append: "Q (s @ t) = Q s @ Q t"
  by (simp add: Q_def)

section \<open>Decimal text of unsigned integers\<close>

definition is_ascii_digit :: "qchar \<Rightarrow> bool" where
  "is_ascii_digit c \<longleftrightarrow> 0x30 \<le> c \<and> c \<le> 0x39"

definition digit_char :: "nat \<Rightarrow> qchar" where
  "digit_char d = word_of_nat (48 + d)"

definition digit_value :: "qchar \<Rightarrow> nat" where
  "digit_value c = unat c - 48"

text \<open>\<open>QString::number\<close> of an unsigned integer.\<close>

fun qnumber :: "nat \<Rightarrow> qstring" where
  "qnumber n = (if n < 10 then [digit_char n] else qnumber (n div 10) @ [digit_char (n mod 10)])"

declare qnumber.simps [simp del]

definition decimal_value :: "qstring \<Rightarrow> nat" where
  "decimal_value s = foldl (\<lambda>n c. 10 * n + digit_value c) 0 s"

lemma decimal_value_snoc: "decimal_value (s @ [c]) = 10 * decimal_value s + digit_value c"
  by (simp add: decimal_value_def)

lemma unat_digit_char: "d < 10 \<Longrightarrow> unat (digit_char d) = 48 + d"
  unfolding digit_char_def by (simp add: unsigned_of_nat take_bit_nat_eq_self del: of_nat_add)

lemma digit_value_char [simp]: "d < 10 \<Longrightarrow> digit_value (digit_char d) = d"
  by (simp add: digit_value_def unat_digit_char)

lemma is_ascii_digit_unat: "is_ascii_digit c \<longleftrightarrow> 48 \<le> unat c \<and> unat c \<le> 57"
  by (simp add: is_ascii_digit_def word_le_nat_alt)

lemma is_ascii_digit_char [simp]: "d < 10 \<Longrightarrow> is_ascii_digit (digit_char d)"
  by (simp add: is_ascii_digit_unat unat_digit_char)

lemma digit_char_value [simp]: "is_ascii_digit c \<Longrightarrow> digit_char (digit_value c) = c"
proof -
  assume "is_ascii_digit c"
  then have "48 + (unat c - 48) = unat c" by (simp add: is_ascii_digit_unat)
  then show ?thesis by (simp only: digit_char_def digit_value_def of_nat_unat ucast_id)
qed

lemma digit_value_less [simp]: "is_ascii_digit c \<Longrightarrow> digit_value c < 10"
  unfolding is_ascii_digit_unat digit_value_def by linarith

lemma digit_char_eq_0: "d < 10 \<Longrightarrow> digit_char d = 0x30 \<longleftrightarrow> d = 0"
proof (rule iffI)
  assume d: "d < 10" and "digit_char d = 0x30"
  then have "unat (digit_char d) = 48" by simp
  with d show "d = 0" by (simp only: unat_digit_char)
qed (simp add: digit_char_def)

lemma decimal_value_qnumber [simp]: "decimal_value (qnumber n) = n"
proof (induction n rule: qnumber.induct)
  case (1 n)
  show ?case
  proof (cases "n < 10")
    case True
    then show ?thesis by (simp add: qnumber.simps [of n] decimal_value_def)
  next
    case False
    with "1.IH" show ?thesis
      by (simp add: qnumber.simps [of n] decimal_value_snoc)
  qed
qed

lemma qnumber_digits: "list_all is_ascii_digit (qnumber n)"
proof (induction n rule: qnumber.induct)
  case (1 n)
  then show ?case
    by (cases "n < 10") (simp_all add: qnumber.simps [of n])
qed

lemma qnumber_nonempty [simp]: "qnumber n \<noteq> []"
  by (simp add: qnumber.simps [of n])

lemma qnumber_hd: "0 < n \<Longrightarrow> hd (qnumber n) \<noteq> 0x30"
proof (induction n rule: qnumber.induct)
  case (1 n)
  show ?case
  proof (cases "n < 10")
    case True
    with "1.prems" show ?thesis by (simp add: qnumber.simps [of n] digit_char_eq_0)
  next
    case False
    with 1 show ?thesis by (simp add: qnumber.simps [of n])
  qed
qed

text \<open>
  The text is the only one with its value: no leading zero, only digits. This is what makes
  the canonical revision grammar of the parsers a bijection.
\<close>

lemma decimal_text_unique:
  assumes "list_all is_ascii_digit s" "s \<noteq> []" "hd s \<noteq> 0x30"
  shows "qnumber (decimal_value s) = s \<and> 0 < decimal_value s"
  using assms
proof (induction s rule: rev_induct)
  case Nil
  then show ?case by simp
next
  case (snoc c s)
  have c: "is_ascii_digit c" using snoc.prems by simp
  show ?case
  proof (cases "s = []")
    case True
    have "digit_value c \<noteq> 0"
      using snoc.prems True c by (metis append_Nil digit_char_value digit_char_eq_0
          digit_value_less list.sel(1))
    with True c show ?thesis
      by (simp add: decimal_value_def qnumber.simps [of "digit_value c"])
  next
    case False
    with snoc have IH: "qnumber (decimal_value s) = s" and pos: "0 < decimal_value s" by simp_all
    have "\<not> 10 * decimal_value s + digit_value c < 10" using pos by simp
    moreover have "(10 * decimal_value s + digit_value c) div 10 = decimal_value s"
      and "(10 * decimal_value s + digit_value c) mod 10 = digit_value c"
      using digit_value_less [OF c] by simp_all
    ultimately show ?thesis
      using IH pos c
      by (simp add: decimal_value_snoc qnumber.simps [of "10 * decimal_value s + digit_value c"])
  qed
qed

section \<open>Ordered maps\<close>

type_synonym ('k, 'v) omap = "('k \<times> 'v) list"
type_synonym 'v qmap = "(qstring, 'v) omap"

definition om_inv :: "('k::linorder, 'v) omap \<Rightarrow> bool" where
  "om_inv m \<longleftrightarrow> sorted_wrt (<) (map fst m)"

fun om_insert :: "'k::linorder \<Rightarrow> 'v \<Rightarrow> ('k, 'v) omap \<Rightarrow> ('k, 'v) omap" where
  "om_insert k v [] = [(k, v)]"
| "om_insert k v ((k', v') # m) =
     (if k < k' then (k, v) # (k', v') # m
      else if k = k' then (k, v) # m
      else (k', v') # om_insert k v m)"

definition om_remove :: "'k \<Rightarrow> ('k, 'v) omap \<Rightarrow> ('k, 'v) omap" where
  "om_remove k m = filter (\<lambda>p. fst p \<noteq> k) m"

abbreviation om_keys :: "('k, 'v) omap \<Rightarrow> 'k list" where
  "om_keys m \<equiv> map fst m"

abbreviation om_values :: "('k, 'v) omap \<Rightarrow> 'v list" where
  "om_values m \<equiv> map snd m"

definition om_contains :: "('k, 'v) omap \<Rightarrow> 'k \<Rightarrow> bool" where
  "om_contains m k \<longleftrightarrow> map_of m k \<noteq> None"

lemma om_inv_Nil [simp]: "om_inv []"
  by (simp add: om_inv_def)

lemma om_inv_Cons [simp]:
  "om_inv ((k, v) # m) \<longleftrightarrow> (\<forall>k' \<in> fst ` set m. k < k') \<and> om_inv m"
  by (simp add: om_inv_def)

lemma om_inv_distinct: "om_inv m \<Longrightarrow> distinct (om_keys m)"
  by (simp add: om_inv_def strict_sorted_iff)

lemma om_inv_filter [simp]: "om_inv m \<Longrightarrow> om_inv (filter P m)"
  by (induction m) (auto)

lemma map_of_om_insert [simp]: "om_inv m \<Longrightarrow> map_of (om_insert k v m) = (map_of m)(k \<mapsto> v)"
proof (induction m)
  case Nil
  then show ?case by simp
next
  case (Cons p m)
  obtain k' v' where p: "p = (k', v')" by force
  have "map_of m k = None" if "k < k'" 
    using Cons.prems that p by (force simp: map_of_eq_None_iff)
  with Cons p show ?case by (auto simp: fun_upd_twist)
qed

lemma om_insert_keys: "fst ` set (om_insert k v m) = insert k (fst ` set m)"
  by (induction k v m rule: om_insert.induct) (simp_all add: insert_commute)

lemma om_inv_insert [simp]: "om_inv m \<Longrightarrow> om_inv (om_insert k v m)"
proof (induction m)
  case Nil
  then show ?case by simp
next
  case (Cons p m)
  obtain k' v' where p: "p = (k', v')" by force
  consider "k < k'" | "k = k'" | "k' < k" by fastforce
  then show ?case
  proof cases
    case 1
    with Cons.prems p show ?thesis by (auto intro: less_trans)
  next
    case 2
    with Cons.prems p show ?thesis by simp
  next
    case 3
    with Cons p show ?thesis by (auto simp: om_insert_keys simp del: image_iff)
  qed
qed

lemma list_all_om_insert: "list_all P m \<Longrightarrow> P (k, v) \<Longrightarrow> list_all P (om_insert k v m)"
  by (induction k v m rule: om_insert.induct) auto

lemma map_of_om_remove [simp]: "map_of (om_remove k m) = (map_of m)(k := None)"
  by (induction m) (auto simp: om_remove_def)

lemma om_inv_remove [simp]: "om_inv m \<Longrightarrow> om_inv (om_remove k m)"
  by (simp add: om_remove_def)

lemma om_from_keys:
  "distinct (om_keys m) \<Longrightarrow> map (\<lambda>k. (k, the (map_of m k))) (om_keys m) = m"
proof (induction m)
  case Nil
  then show ?case by simp
next
  case (Cons p m)
  then have "map (\<lambda>q. (fst q, the (map_of (p # m) (fst q)))) m
      = map (\<lambda>q. (fst q, the (map_of m (fst q)))) m"
    by (cases p) (auto simp: map_of_eq_None_iff intro!: map_cong)
  with Cons show ?case by (cases p) (simp add: comp_def)
qed

lemma om_ext:
  assumes "om_inv m" "om_inv m'" "map_of m = map_of m'"
  shows "m = m'"
proof -
  have "fst ` set m = fst ` set m'"
    using assms(3) by (metis dom_map_of_conv_image_fst)
  moreover have "sorted (om_keys m)" "sorted (om_keys m')"
    using assms(1,2) by (simp_all add: om_inv_def strict_sorted_iff)
  ultimately have "om_keys m = om_keys m'"
    using assms(1,2) by (metis om_inv_distinct set_map sorted_distinct_set_unique)
  with assms show ?thesis
    by (metis om_from_keys om_inv_distinct)
qed

lemma om_insert_last: "\<forall>j \<in> fst ` set m. j < k \<Longrightarrow> om_insert k v m = m @ [(k, v)]"
  by (induction m) (auto simp: not_less_iff_gr_or_eq)

lemma om_inv_snoc: "om_inv (m @ [(k, v)]) \<longleftrightarrow> om_inv m \<and> (\<forall>j \<in> fst ` set m. j < k)"
  by (induction m) auto

lemma length_om_insert:
  "om_inv m \<Longrightarrow> length (om_insert k v m) = (if map_of m k = None then Suc (length m) else length m)"
proof (induction m)
  case (Cons p m)
  obtain j w where p: "p = (j, w)" by force
  have "map_of m k = None" if "k < j"
    using Cons.prems that p by (force simp: map_of_eq_None_iff)
  with Cons p show ?case by auto
qed simp

lemma om_inv_lookup: "om_inv m \<Longrightarrow> (k, v) \<in> set m \<longleftrightarrow> map_of m k = Some v"
  using om_inv_distinct by fastforce

lemma fold_om_insert_map:
  "om_inv (acc @ map (\<lambda>(k, v). (k, f v)) m) \<Longrightarrow>
   fold (\<lambda>(k, v). om_insert k (f v)) m acc = acc @ map (\<lambda>(k, v). (k, f v)) m"
proof (induction m arbitrary: acc)
  case (Cons e m)
  obtain k v where e: "e = (k, v)" by force
  have inv: "om_inv ((acc @ [(k, f v)]) @ map (\<lambda>(k, v). (k, f v)) m)" using Cons.prems e by simp
  then have "om_inv (acc @ [(k, f v)])" by (metis om_inv_def map_append sorted_wrt_append)
  then have "om_insert k (f v) acc = acc @ [(k, f v)]"
    by (intro om_insert_last) (simp add: om_inv_snoc)
  with Cons.IH [OF inv] e show ?case by simp
qed simp

lemma om_inv_map: "om_inv m \<Longrightarrow> om_inv (map (\<lambda>(k, v). (k, f v)) m)"
  by (simp add: om_inv_def comp_def split_beta)

section \<open>The interface of a map\<close>

text \<open>
  What the components rely on when they use a \<open>QMap\<close>: the lookup laws of insertion and
  removal, and that two maps with the same entries are equal (the code compares whole maps
  with \<open>operator==\<close> to decide whether anything changed).
\<close>

locale key_map =
  fixes lookup :: "'m \<Rightarrow> 'k \<Rightarrow> 'v option"
    and put :: "'k \<Rightarrow> 'v \<Rightarrow> 'm \<Rightarrow> 'm"
    and del :: "'k \<Rightarrow> 'm \<Rightarrow> 'm"
    and invar :: "'m \<Rightarrow> bool"
  assumes lookup_put: "invar m \<Longrightarrow> lookup (put k v m) = (lookup m)(k \<mapsto> v)"
    and lookup_del: "invar m \<Longrightarrow> lookup (del k m) = (lookup m)(k := None)"
    and invar_put: "invar m \<Longrightarrow> invar (put k v m)"
    and invar_del: "invar m \<Longrightarrow> invar (del k m)"
    and extensional: "invar m \<Longrightarrow> invar m' \<Longrightarrow> lookup m = lookup m' \<Longrightarrow> m = m'"
begin

lemma put_same: "invar m \<Longrightarrow> lookup m k = Some v \<Longrightarrow> put k v m = m"
  by (rule extensional) (auto simp: invar_put lookup_put)

lemma put_twice: "invar m \<Longrightarrow> put k v (put k w m) = put k v m"
  by (rule extensional) (simp_all add: invar_put lookup_put)

lemma put_commute: "invar m \<Longrightarrow> k \<noteq> j \<Longrightarrow> put k v (put j w m) = put j w (put k v m)"
  by (rule extensional) (auto simp: invar_put lookup_put)

lemma del_absent: "invar m \<Longrightarrow> lookup m k = None \<Longrightarrow> del k m = m"
  by (rule extensional) (auto simp: invar_del lookup_del)

lemma del_put: "invar m \<Longrightarrow> lookup m k = None \<Longrightarrow> del k (put k v m) = m"
  by (rule extensional) (auto simp: invar_put invar_del lookup_put lookup_del)

lemma put_changes: "invar m \<Longrightarrow> lookup m k \<noteq> Some v \<Longrightarrow> put k v m \<noteq> m"
  by (metis fun_upd_same lookup_put)

lemma invar_puts: "invar m \<Longrightarrow> invar (fold (\<lambda>x. put (key x) (val x)) xs m)"
  by (induction xs arbitrary: m) (simp_all add: invar_put)

lemma lookup_puts:
  assumes "invar m"
  shows "lookup (fold (\<lambda>x. put (key x) (val x)) xs m) k =
    (case find (\<lambda>x. key x = k) (rev xs) of None \<Rightarrow> lookup m k | Some x \<Rightarrow> Some (val x))"
proof (induction xs rule: rev_induct)
  case Nil
  then show ?case by simp
next
  case (snoc x xs)
  have "invar (fold (\<lambda>x. put (key x) (val x)) xs m)" using assms by (rule invar_puts)
  with snoc show ?case by (simp add: lookup_put)
qed

end

interpretation om: key_map map_of om_insert om_remove om_inv
  by unfold_locales (auto intro: om_ext)

section \<open>Validation results\<close>

text \<open>src/src/component/validation_result.h: \<open>ValidationError\<close> and \<open>ValidationResult<T>\<close>.\<close>

record verror =
  ve_path :: qstring
  ve_code :: qstring
  ve_message :: qstring

record 'a validation_result =
  vr_value :: "'a option"
  vr_errors :: "verror list"

definition vr_ok :: "'a validation_result \<Rightarrow> bool" where
  "vr_ok r \<longleftrightarrow> vr_value r \<noteq> None \<and> vr_errors r = []"

abbreviation vr_accept :: "'a \<Rightarrow> 'a validation_result" where
  "vr_accept v \<equiv> \<lparr>vr_value = Some v, vr_errors = []\<rparr>"

abbreviation vr_reject :: "verror list \<Rightarrow> 'a validation_result" where
  "vr_reject es \<equiv> \<lparr>vr_value = None, vr_errors = es\<rparr>"

definition mk_error :: "qstring \<Rightarrow> string \<Rightarrow> string \<Rightarrow> verror" where
  "mk_error p c m = \<lparr>ve_path = p, ve_code = Q c, ve_message = Q m\<rparr>"

lemma vr_ok_simps [simp]:
  "vr_ok (vr_accept v)"
  "\<not> vr_ok (vr_reject es)"
  by (simp_all add: vr_ok_def)

end
