(* ===== verification/Json.thy ===== *)
theory Json
  imports Complex_Main Qt_Prelude
begin

text \<open>
  The JSON values the components exchange (Qt's \<open>QJsonValue\<close>), the accessors the code uses
  on them, and the record of the Qt and platform primitives that are not part of the
  repository. A number is the rational it denotes: every finite double is one. Negative zero
  is identified with zero.
\<close>

section \<open>Values\<close>

datatype json =
    JNull
  | JBool bool
  | JNum rat
  | JStr qstring
  | JArr "json list"
  | JObj "(qstring \<times> json) list"

text \<open>
  \<open>QJsonObject::value\<close> returns an undefined value for a missing key; undefined is \<open>None\<close>
  here, and every accessor below answers for it as Qt does.
\<close>

fun is_string :: "json option \<Rightarrow> bool" where
  "is_string (Some (JStr s)) = True"
| "is_string _ = False"

fun to_string :: "json option \<Rightarrow> qstring" where
  "to_string (Some (JStr s)) = s"
| "to_string _ = []"

fun is_bool :: "json option \<Rightarrow> bool" where
  "is_bool (Some (JBool b)) = True"
| "is_bool _ = False"

fun to_bool :: "json option \<Rightarrow> bool" where
  "to_bool (Some (JBool b)) = b"
| "to_bool _ = False"

fun is_double :: "json option \<Rightarrow> bool" where
  "is_double (Some (JNum x)) = True"
| "is_double _ = False"

fun to_double :: "json option \<Rightarrow> rat" where
  "to_double (Some (JNum x)) = x"
| "to_double _ = 0"

definition min_int64 :: int where
  "min_int64 = - 9223372036854775808"

definition max_int64 :: int where
  "max_int64 = 9223372036854775807"

text \<open>\<open>QJsonValue::toInteger(default)\<close>: the default unless the number is an integer of 64 bits.\<close>

fun to_integer :: "int \<Rightarrow> json option \<Rightarrow> int" where
  "to_integer d (Some (JNum x)) =
     (if of_int \<lfloor>x\<rfloor> = x \<and> min_int64 \<le> \<lfloor>x\<rfloor> \<and> \<lfloor>x\<rfloor> \<le> max_int64 then \<lfloor>x\<rfloor> else d)"
| "to_integer d _ = d"

fun is_array :: "json option \<Rightarrow> bool" where
  "is_array (Some (JArr vs)) = True"
| "is_array _ = False"

fun to_array :: "json option \<Rightarrow> json list" where
  "to_array (Some (JArr vs)) = vs"
| "to_array _ = []"

fun is_object :: "json option \<Rightarrow> bool" where
  "is_object (Some (JObj m)) = True"
| "is_object _ = False"

fun to_object :: "json option \<Rightarrow> json qmap" where
  "to_object (Some (JObj m)) = m"
| "to_object _ = []"

definition json_int :: "int \<Rightarrow> json" where
  "json_int i = JNum (of_int i)"

text \<open>A \<open>QJsonObject\<close> written as an initializer list: insertion in the order of the list.\<close>

definition json_object :: "(string \<times> json) list \<Rightarrow> json qmap" where
  "json_object fs = fold (\<lambda>(k, v). om_insert (Q k) v) fs []"

text \<open>The closed-object test of the parsers: the sorted keys are the sorted expected keys.\<close>

definition exact_keys :: "json qmap \<Rightarrow> string list \<Rightarrow> bool" where
  "exact_keys m expected \<longleftrightarrow> sort (om_keys m) = sort (map Q expected)"

lemma is_string_iff: "is_string v \<longleftrightarrow> (\<exists>s. v = Some (JStr s))"
  by (cases v rule: is_string.cases) auto

lemma is_bool_iff: "is_bool v \<longleftrightarrow> (\<exists>b. v = Some (JBool b))"
  by (cases v rule: is_bool.cases) auto

lemma is_array_iff: "is_array v \<longleftrightarrow> (\<exists>vs. v = Some (JArr vs))"
  by (cases v rule: is_array.cases) auto

lemma is_object_iff: "is_object v \<longleftrightarrow> (\<exists>m. v = Some (JObj m))"
  by (cases v rule: is_object.cases) auto

lemma is_double_iff: "is_double v \<longleftrightarrow> (\<exists>x. v = Some (JNum x))"
  by (cases v rule: is_double.cases) auto

lemmas is_kind_iffs = is_string_iff is_bool_iff is_array_iff is_object_iff is_double_iff

lemma to_integer_json_int [simp]:
  "to_integer d (Some (json_int i)) = (if min_int64 \<le> i \<and> i \<le> max_int64 then i else d)"
  by (simp add: json_int_def)

lemma to_double_json_int [simp]: "to_double (Some (json_int i)) = of_int i"
  by (simp add: json_int_def)

lemma is_double_json_int [simp]: "is_double (Some (json_int i))"
  by (simp add: json_int_def)

lemma om_inv_json_object [simp]: "om_inv (json_object fs)"
proof -
  have "om_inv m \<Longrightarrow> om_inv (fold (\<lambda>(k, v). om_insert (Q k) v) fs m)" for m :: "json qmap"
    by (induction fs arbitrary: m) auto
  then show ?thesis by (simp add: json_object_def)
qed

section \<open>Primitives outside the repository\<close>

text \<open>
  What the code calls in Qt and the platform. \<open>qt_compact\<close> is
  \<open>QJsonDocument::toJson(Compact)\<close>; \<open>qt_decode_utf8\<close> is \<open>QByteArrayView::isValidUtf8\<close>
  together with \<open>QStringDecoder\<close> (\<open>None\<close> for invalid input); \<open>qt_to_double\<close> is
  \<open>QString::toDouble\<close> followed by \<open>std::isfinite\<close> (\<open>None\<close> when either fails);
  \<open>qt_normal_c\<close> is \<open>QString::normalized\<close> with form C; \<open>qt_trimmed\<close> is
  \<open>QString::trimmed\<close>; \<open>qt_disallowed\<close> says whether some code point of the string has
  one of the categories that \<open>hasDisallowedCharacter\<close> lists; \<open>qt_format\<close> says whether a
  code point has the category \<open>Cf\<close> (\<open>QChar::Other_Format\<close>); \<open>qt_sha256\<close> is
  \<open>QCryptographicHash::hash\<close> with SHA-256.
\<close>

record qt_env =
  qt_compact :: "json \<Rightarrow> bytes"
  qt_decode_utf8 :: "bytes \<Rightarrow> qstring option"
  qt_to_double :: "qstring \<Rightarrow> rat option"
  qt_normal_c :: "qstring \<Rightarrow> qstring"
  qt_trimmed :: "qstring \<Rightarrow> qstring"
  qt_disallowed :: "qstring \<Rightarrow> bool"
  qt_format :: "32 word \<Rightarrow> bool"
  qt_sha256 :: "bytes \<Rightarrow> bytes"

definition from_latin1 :: "bytes \<Rightarrow> qstring" where
  "from_latin1 bs = map ucast bs"

end
