(* ===== verification/Strict_Json.thy ===== *)
theory Strict_Json
  imports Json
begin

text \<open>
  src/src/component/strict_json.cpp: the JSON reader that owns the grammar, so that duplicate
  keys, over-deep nesting, malformed UTF-16 and numbers that would change on the way through
  a double are refused. The reader's text and position are modelled by the rest of the text
  that is still to be read; its sticky error by the left side of a sum. Recursion is driven
  by fuel, and \<open>None\<close> stands for running out of it; \<open>read_total\<close> below shows that the
  fuel \<open>read\<close> starts with is always enough.
\<close>

section \<open>Number normalisation\<close>

record normalized_number =
  nn_negative :: bool
  nn_digits :: qstring
  nn_exponent :: int

text \<open>
  \<open>QString::toLongLong\<close> in base ten on a sign and digits: \<open>None\<close> when there is no digit,
  another character, or the value does not fit 64 signed bits.
\<close>

definition to_long_long :: "qstring \<Rightarrow> int option" where
  "to_long_long s =
     (let neg = (s \<noteq> [] \<and> hd s = 0x2D);
          ds = (if s \<noteq> [] \<and> (hd s = 0x2D \<or> hd s = 0x2B) then tl s else s);
          v = (if neg then - int (decimal_value ds) else int (decimal_value ds))
      in if ds = [] \<or> \<not> list_all is_ascii_digit ds \<or> v < min_int64 \<or> max_int64 < v then None
         else Some v)"

fun index_of :: "qchar \<Rightarrow> qstring \<Rightarrow> nat option" where
  "index_of c [] = None"
| "index_of c (x # xs) = (if x = c then Some 0 else map_option Suc (index_of c xs))"

text \<open>The loop over the significand: its digits without the point, and how many follow it.\<close>

fun scan_significand :: "bool \<Rightarrow> qstring \<Rightarrow> qstring \<times> nat" where
  "scan_significand after [] = ([], 0)"
| "scan_significand after (c # s) =
     (if c = 0x2E then scan_significand True s
      else let (ds, k) = scan_significand after s in (c # ds, if after then Suc k else k))"

definition strip_trailing_zeros :: "qstring \<Rightarrow> qstring" where
  "strip_trailing_zeros ds = take 1 ds @ rev (dropWhile (\<lambda>c. c = 0x30) (rev (drop 1 ds)))"

definition normalize_json_number :: "qstring \<Rightarrow> normalized_number option" where
  "normalize_json_number lexeme =
     (let negative = (lexeme \<noteq> [] \<and> hd lexeme = 0x2D);
          body = (if negative then tl lexeme else lexeme);
          ep = (case index_of 0x65 body of Some i \<Rightarrow> Some i | None \<Rightarrow> index_of 0x45 body);
          significand = (case ep of None \<Rightarrow> body | Some i \<Rightarrow> take i body);
          (all_digits, fractional) = scan_significand False significand;
          ds = dropWhile (\<lambda>c. c = 0x30) all_digits
      in if ds = [] then Some \<lparr>nn_negative = False, nn_digits = Q ''0'', nn_exponent = 0\<rparr>
         else case (case ep of None \<Rightarrow> Some 0 | Some i \<Rightarrow> to_long_long (drop (Suc i) body)) of
             None \<Rightarrow> None
           | Some explicit \<Rightarrow>
               if max_int64 < int fractional \<or> explicit < min_int64 + int fractional then None
               else
                 let stripped = strip_trailing_zeros ds;
                     zeros = length ds - length stripped;
                     exponent = explicit - int fractional
                 in if max_int64 < int zeros \<or> max_int64 - int zeros < exponent then None
                    else Some \<lparr>nn_negative = negative, nn_digits = stripped,
                               nn_exponent = exponent + int zeros\<rparr>)"

definition serialized_json_number :: "qt_env \<Rightarrow> rat \<Rightarrow> qstring" where
  "serialized_json_number E x =
     (let encoded = qt_compact E (JArr [JNum x])
      in if length encoded < 2 \<or> hd encoded \<noteq> 0x5B \<or> last encoded \<noteq> 0x5D then []
         else from_latin1 (butlast (tl encoded)))"

section \<open>The reader\<close>

abbreviation quoted :: "string \<Rightarrow> string" where
  "quoted s \<equiv> [CHR 0x27] @ s @ [CHR 0x27]"

record strict_json_limits =
  maximum_bytes :: int
  maximum_depth :: int

type_synonym 'a read_result = "verror + 'a \<times> qstring"

definition is_json_space :: "qchar \<Rightarrow> bool" where
  "is_json_space c \<longleftrightarrow> c = 0x20 \<or> c = 0x09 \<or> c = 0x0D \<or> c = 0x0A"

definition skip_whitespace :: "qstring \<Rightarrow> qstring" where
  "skip_whitespace r = dropWhile is_json_space r"

definition child_path :: "qstring \<Rightarrow> qstring \<Rightarrow> qstring" where
  "child_path parent key = parent @ Q ''.'' @ key"

definition index_path :: "qstring \<Rightarrow> nat \<Rightarrow> qstring" where
  "index_path parent i = parent @ Q ''['' @ qnumber i @ Q '']''"

definition is_high_surrogate :: "qchar \<Rightarrow> bool" where
  "is_high_surrogate c \<longleftrightarrow> 0xD800 \<le> c \<and> c \<le> 0xDBFF"

definition is_low_surrogate :: "qchar \<Rightarrow> bool" where
  "is_low_surrogate c \<longleftrightarrow> 0xDC00 \<le> c \<and> c \<le> 0xDFFF"

definition hex_digit :: "qchar \<Rightarrow> qchar option" where
  "hex_digit c =
     (if 0x30 \<le> c \<and> c \<le> 0x39 then Some (c - 0x30)
      else if 0x61 \<le> c \<and> c \<le> 0x66 then Some (c - 0x61 + 10)
      else if 0x41 \<le> c \<and> c \<le> 0x46 then Some (c - 0x41 + 10)
      else None)"

fun hex_value :: "qchar \<Rightarrow> qstring \<Rightarrow> qchar option" where
  "hex_value v [] = Some v"
| "hex_value v (c # s) =
     (case hex_digit c of None \<Rightarrow> None | Some d \<Rightarrow> hex_value (or (push_bit 4 v) d) s)"

definition read_hex_code_unit :: "qstring \<Rightarrow> qstring \<Rightarrow> qchar read_result" where
  "read_hex_code_unit p r =
     (if length r < 4 then
        Inl (mk_error p ''json.invalid-unicode-escape'' ''Unicode escape must contain four hex digits.'')
      else case hex_value 0 (take 4 r) of
          None \<Rightarrow> Inl (mk_error p ''json.invalid-unicode-escape'' ''Unicode escape contains a non-hex digit.'')
        | Some v \<Rightarrow> Inr (v, drop 4 r))"

lemma read_hex_code_unit_rest [termination_simp]:
  "read_hex_code_unit p r = Inr (v, r') \<Longrightarrow> r' = drop 4 r"
  by (auto simp: read_hex_code_unit_def split: if_splits option.splits)

definition simple_escape :: "qchar \<Rightarrow> qchar option" where
  "simple_escape c =
     (if c = 0x22 then Some 0x22 else if c = 0x5C then Some 0x5C else if c = 0x2F then Some 0x2F
      else if c = 0x62 then Some 0x08 else if c = 0x66 then Some 0x0C
      else if c = 0x6E then Some 0x0A else if c = 0x72 then Some 0x0D
      else if c = 0x74 then Some 0x09 else None)"

text \<open>
  The body of \<open>case 'u'\<close>: one code unit, or a surrogate pair written as two escapes.
\<close>

definition read_unicode_escape :: "qstring \<Rightarrow> qstring \<Rightarrow> qstring read_result" where
  "read_unicode_escape p r =
     (case read_hex_code_unit p r of
        Inl e \<Rightarrow> Inl e
      | Inr (high, r1) \<Rightarrow>
          if is_high_surrogate high then
            (if length r1 < 2 \<or> r1 ! 0 \<noteq> 0x5C \<or> r1 ! 1 \<noteq> 0x75 then
               Inl (mk_error p ''json.invalid-unicode'' ''High surrogate requires a low surrogate.'')
             else case read_hex_code_unit p (drop 2 r1) of
                 Inl e \<Rightarrow> Inl e
               | Inr (low, r2) \<Rightarrow>
                   if \<not> is_low_surrogate low then
                     Inl (mk_error p ''json.invalid-unicode'' ''High surrogate requires a low surrogate.'')
                   else Inr ([high, low], r2))
          else if is_low_surrogate high then
            Inl (mk_error p ''json.invalid-unicode'' ''Unpaired low surrogate in string.'')
          else Inr ([high], r1))"

lemma read_unicode_escape_rest [termination_simp]:
  "read_unicode_escape p r = Inr (u, r') \<Longrightarrow> length r' \<le> length r"
  by (auto simp: read_unicode_escape_def dest!: read_hex_code_unit_rest
      split: if_splits sum.splits prod.splits)

text \<open>\<open>readString\<close> after the opening quote; \<open>acc\<close> is the value read so far.\<close>

fun read_string :: "qstring \<Rightarrow> qstring \<Rightarrow> qstring \<Rightarrow> qstring read_result" where
  "read_string p acc [] =
     Inl (mk_error p ''json.unterminated-string'' ''Unterminated JSON string.'')"
| "read_string p acc (c # r) =
     (if c = 0x22 then Inr (acc, r)
      else if c < 0x20 then
        Inl (mk_error p ''json.string-control-character'' ''Unescaped control character in string.'')
      else if c \<noteq> 0x5C then
        (if is_high_surrogate c then
           (case r of
              [] \<Rightarrow> Inl (mk_error p ''json.invalid-unicode'' ''Unpaired Unicode surrogate in string.'')
            | l # r' \<Rightarrow>
                if \<not> is_low_surrogate l then
                  Inl (mk_error p ''json.invalid-unicode'' ''Unpaired Unicode surrogate in string.'')
                else read_string p (acc @ [c, l]) r')
         else if is_low_surrogate c then
           Inl (mk_error p ''json.invalid-unicode'' ''Unpaired Unicode surrogate in string.'')
         else read_string p (acc @ [c]) r)
      else (case r of
          [] \<Rightarrow> Inl (mk_error p ''json.unterminated-string'' ''Unterminated JSON string.'')
        | e # r' \<Rightarrow>
            (case simple_escape e of
               Some x \<Rightarrow> read_string p (acc @ [x]) r'
             | None \<Rightarrow>
                 if e = 0x75 then
                   (case read_unicode_escape p r' of
                      Inl err \<Rightarrow> Inl err
                    | Inr (u, r'') \<Rightarrow> read_string p (acc @ u) r'')
                 else Inl (mk_error p ''json.invalid-escape'' ''Invalid JSON string escape.''))))"

text \<open>
  The scanner of \<open>readNumber\<close>, one part of the grammar each; a part that is malformed is
  \<open>None\<close>, which the code reports with \<open>invalidNumber\<close>.
\<close>

definition skip_digits :: "qstring \<Rightarrow> qstring" where
  "skip_digits r = dropWhile is_ascii_digit r"

definition scan_integer_part :: "qstring \<Rightarrow> qstring option" where
  "scan_integer_part r =
     (case r of
        [] \<Rightarrow> None
      | c # r' \<Rightarrow>
          if c = 0x30 then (if r' \<noteq> [] \<and> is_ascii_digit (hd r') then None else Some r')
          else if 0x31 \<le> c \<and> c \<le> 0x39 then Some (skip_digits r)
          else None)"

definition scan_fraction :: "qstring \<Rightarrow> qstring option" where
  "scan_fraction r =
     (case r of
        [] \<Rightarrow> Some []
      | c # r' \<Rightarrow>
          if c = 0x2E then (if r' = [] \<or> \<not> is_ascii_digit (hd r') then None else Some (skip_digits r'))
          else Some r)"

definition scan_exponent :: "qstring \<Rightarrow> qstring option" where
  "scan_exponent r =
     (case r of
        [] \<Rightarrow> Some []
      | c # r' \<Rightarrow>
          if c = 0x65 \<or> c = 0x45 then
            (let r1 = (if r' \<noteq> [] \<and> (hd r' = 0x2B \<or> hd r' = 0x2D) then tl r' else r')
             in if r1 = [] \<or> \<not> is_ascii_digit (hd r1) then None else Some (skip_digits r1))
          else Some r)"

definition scan_number :: "qstring \<Rightarrow> qstring option" where
  "scan_number r =
     (case scan_integer_part (if r \<noteq> [] \<and> hd r = 0x2D then tl r else r) of
        None \<Rightarrow> None
      | Some r1 \<Rightarrow> (case scan_fraction r1 of None \<Rightarrow> None | Some r2 \<Rightarrow> scan_exponent r2))"

definition read_number :: "qt_env \<Rightarrow> qstring \<Rightarrow> qstring \<Rightarrow> json read_result" where
  "read_number E p r =
     (let invalid = Inl (mk_error p ''json.invalid-number'' ''Invalid or non-finite JSON number.'')
      in case scan_number r of
          None \<Rightarrow> invalid
        | Some r' \<Rightarrow>
            let lexeme = take (length r - length r') r
            in (case qt_to_double E lexeme of
                  None \<Rightarrow> invalid
                | Some x \<Rightarrow>
                    (let authored = normalize_json_number lexeme;
                         serialized = normalize_json_number (serialized_json_number E x)
                     in if authored = None \<or> serialized = None \<or> authored \<noteq> serialized then
                          Inl (mk_error p ''json.lossy-number''
                            ''The JSON number cannot be parsed and persisted without changing its value.'')
                        else Inr (JNum x, r'))))"

definition read_literal :: "qstring \<Rightarrow> string \<Rightarrow> json \<Rightarrow> qstring \<Rightarrow> json read_result" where
  "read_literal p literal v r =
     (if take (length literal) r \<noteq> Q literal then
        Inl (mk_error p ''json.invalid-token'' ''Invalid JSON literal.'')
      else Inr (v, drop (length literal) r))"

definition map_read :: "('a \<Rightarrow> 'b) \<Rightarrow> 'a read_result \<Rightarrow> 'b read_result" where
  "map_read f res = (case res of Inl e \<Rightarrow> Inl e | Inr (v, r) \<Rightarrow> Inr (f v, r))"

text \<open>
  The three mutually recursive readers. The loops of \<open>readObject\<close> and \<open>readArray\<close> take the
  reader of a nested value as the argument \<open>rv\<close>; \<open>read_value\<close> ties the knot, with one
  unit of fuel for each level and each turn of a loop.
\<close>

type_synonym value_reader = "qstring \<Rightarrow> int \<Rightarrow> qstring \<Rightarrow> json read_result option"

primrec read_members :: "value_reader \<Rightarrow> nat \<Rightarrow> qstring \<Rightarrow> int \<Rightarrow> qstring list \<Rightarrow> json qmap \<Rightarrow>
    qstring \<Rightarrow> json qmap read_result option" where
  "read_members rv 0 p d keys obj r = None"
| "read_members rv (Suc n) p d keys obj r =
     (let r0 = skip_whitespace r
      in if r0 = [] \<or> hd r0 \<noteq> 0x22 then
           Some (Inl (mk_error p ''json.object-key-required'' ''Expected a quoted object key.''))
         else case read_string p [] (tl r0) of
             Inl e \<Rightarrow> Some (Inl e)
           | Inr (key, r1) \<Rightarrow>
               let kp = child_path p key
               in if key \<in> set keys then
                    Some (Inl \<lparr>ve_path = kp, ve_code = Q ''json.duplicate-key'',
                               ve_message = Q ''Duplicate JSON object key: '' @ key\<rparr>)
                  else
                    let r2 = skip_whitespace r1
                    in if r2 = [] \<or> hd r2 \<noteq> 0x3A then
                         Some (Inl (mk_error kp ''json.colon-required''
                           (''Expected '' @ quoted '':'' @ '' after the object key.'')))
                       else case rv kp (d + 1) (tl r2) of
                           None \<Rightarrow> None
                         | Some (Inl e) \<Rightarrow> Some (Inl e)
                         | Some (Inr (v, r3)) \<Rightarrow>
                             let obj' = om_insert key v obj; r4 = skip_whitespace r3
                             in if r4 \<noteq> [] \<and> hd r4 = 0x7D then Some (Inr (obj', tl r4))
                                else if r4 = [] \<or> hd r4 \<noteq> 0x2C then
                                  Some (Inl (mk_error p ''json.object-separator-required''
                                    (''Expected '' @ quoted '','' @ '' or '' @ quoted ''}'' @ '' in the object.'')))
                                else read_members rv n p d (key # keys) obj' (tl r4))"

primrec read_elements :: "value_reader \<Rightarrow> nat \<Rightarrow> qstring \<Rightarrow> int \<Rightarrow> nat \<Rightarrow> json list \<Rightarrow>
    qstring \<Rightarrow> json list read_result option" where
  "read_elements rv 0 p d i vs r = None"
| "read_elements rv (Suc n) p d i vs r =
     (case rv (index_path p i) (d + 1) r of
        None \<Rightarrow> None
      | Some (Inl e) \<Rightarrow> Some (Inl e)
      | Some (Inr (v, r1)) \<Rightarrow>
          let vs' = vs @ [v]; r2 = skip_whitespace r1
          in if r2 \<noteq> [] \<and> hd r2 = 0x5D then Some (Inr (vs', tl r2))
             else if r2 = [] \<or> hd r2 \<noteq> 0x2C then
               Some (Inl (mk_error p ''json.array-separator-required''
                 (''Expected '' @ quoted '','' @ '' or '' @ quoted '']'' @ '' in the array.'')))
             else read_elements rv n p d (Suc i) vs' (tl r2))"

definition read_object :: "value_reader \<Rightarrow> int \<Rightarrow> nat \<Rightarrow> qstring \<Rightarrow> int \<Rightarrow> qstring \<Rightarrow>
    json qmap read_result option" where
  "read_object rv D n p d r =
     (if D < d then
        Some (Inl (mk_error p ''json.depth-limit'' ''The JSON nesting limit was exceeded.''))
      else
        let r1 = skip_whitespace (tl r)
        in if r1 \<noteq> [] \<and> hd r1 = 0x7D then Some (Inr ([], tl r1))
           else read_members rv n p d [] [] r1)"

definition read_array :: "value_reader \<Rightarrow> int \<Rightarrow> nat \<Rightarrow> qstring \<Rightarrow> int \<Rightarrow> qstring \<Rightarrow>
    json list read_result option" where
  "read_array rv D n p d r =
     (if D < d then
        Some (Inl (mk_error p ''json.depth-limit'' ''The JSON nesting limit was exceeded.''))
      else
        let r1 = skip_whitespace (tl r)
        in if r1 \<noteq> [] \<and> hd r1 = 0x5D then Some (Inr ([], tl r1))
           else read_elements rv n p d 0 [] r1)"

primrec read_value :: "qt_env \<Rightarrow> int \<Rightarrow> nat \<Rightarrow> value_reader" where
  "read_value E D 0 = (\<lambda>p d r. None)"
| "read_value E D (Suc n) = (\<lambda>p d r.
     (case skip_whitespace r of
        [] \<Rightarrow> Some (Inl (mk_error p ''json.unexpected-end'' ''The JSON value is incomplete.''))
      | c # r' \<Rightarrow>
          if c = 0x7B then map_option (map_read JObj) (read_object (read_value E D n) D n p d (c # r'))
          else if c = 0x5B then map_option (map_read JArr) (read_array (read_value E D n) D n p d (c # r'))
          else if c = 0x22 then Some (map_read JStr (read_string p [] r'))
          else if c = 0x74 then Some (read_literal p ''true'' (JBool True) (c # r'))
          else if c = 0x66 then Some (read_literal p ''false'' (JBool False) (c # r'))
          else if c = 0x6E then Some (read_literal p ''null'' JNull (c # r'))
          else if c = 0x2D \<or> is_ascii_digit c then Some (read_number E p (c # r'))
          else Some (Inl (mk_error p ''json.invalid-token'' ''Expected a JSON value.''))))"

text \<open>\<open>StrictJsonReader::read\<close>: the whole document, with fuel for every character of it.\<close>

definition read_fuel :: "qstring \<Rightarrow> nat" where
  "read_fuel text = Suc (length text)"

definition read_document :: "qt_env \<Rightarrow> int \<Rightarrow> qstring \<Rightarrow> json qmap read_result option" where
  "read_document E D text =
     (let r0 = skip_whitespace text
      in if r0 = [] \<or> hd r0 \<noteq> 0x7B then
           Some (Inl (mk_error (Q ''$'') ''json.root-object-required''
             ''The JSON document root must be an object.''))
         else case read_object (read_value E D (read_fuel text)) D (read_fuel text) (Q ''$'') 1 r0 of
             None \<Rightarrow> None
           | Some (Inl e) \<Rightarrow> Some (Inl e)
           | Some (Inr (m, r)) \<Rightarrow>
               if skip_whitespace r \<noteq> [] then
                 Some (Inl (mk_error (Q ''$'') ''json.trailing-data''
                   ''Unexpected data follows the JSON value.''))
               else Some (Inr (m, [])))"

definition parse_strict_json_object ::
  "qt_env \<Rightarrow> strict_json_limits \<Rightarrow> bytes \<Rightarrow> json qmap validation_result option" where
  "parse_strict_json_object E L bs =
     (if maximum_bytes L \<le> 0 \<or> maximum_depth L \<le> 0 then
        Some (vr_reject [mk_error (Q ''$'') ''json.invalid-limits'' ''JSON limits must be positive.''])
      else if maximum_bytes L < int (length bs) then
        Some (vr_reject [mk_error (Q ''$'') ''json.size-limit'' ''The JSON document exceeds its byte limit.''])
      else case qt_decode_utf8 E bs of
          None \<Rightarrow> Some (vr_reject [mk_error (Q ''$'') ''json.invalid-utf8''
            ''The JSON document is not valid UTF-8.''])
        | Some text \<Rightarrow>
            map_option (\<lambda>res. case res of Inl e \<Rightarrow> vr_reject [e] | Inr (m, r) \<Rightarrow> vr_accept m)
              (read_document E (maximum_depth L) text))"

section \<open>The reader makes progress\<close>

lemma skip_whitespace_le: "length (skip_whitespace r) \<le> length r"
  by (simp add: skip_whitespace_def length_dropWhile_le)

lemma skip_digits_le: "length (skip_digits r) \<le> length r"
  by (simp add: skip_digits_def length_dropWhile_le)

lemma read_string_less: "read_string p acc r = Inr (v, r') \<Longrightarrow> length r' < length r"
proof (induction "length r" arbitrary: acc r rule: less_induct)
  case less
  note IH = less.hyps [rotated]
  show ?case
  proof (cases r)
    case Nil
    with less.prems show ?thesis by simp
  next
    case (Cons c s)
    with less.prems show ?thesis
      by (auto split: if_splits list.splits option.splits sum.splits prod.splits
          dest!: IH read_unicode_escape_rest)
  qed
qed

lemma scan_integer_part_less: "scan_integer_part r = Some r' \<Longrightarrow> length r' < length r"
  using skip_digits_le [of "tl r"]
  by (auto simp: scan_integer_part_def is_ascii_digit_def skip_digits_def split: list.splits if_splits)
    (auto simp: word_le_nat_alt)

lemma scan_fraction_le: "scan_fraction r = Some r' \<Longrightarrow> length r' \<le> length r"
  using skip_digits_le [of "tl r"]
  by (auto simp: scan_fraction_def split: list.splits if_splits)

lemma scan_exponent_le: "scan_exponent r = Some r' \<Longrightarrow> length r' \<le> length r"
  using skip_digits_le [of "tl r"] skip_digits_le [of "tl (tl r)"]
  by (auto simp: scan_exponent_def Let_def split: list.splits if_splits)

lemma scan_number_less: "scan_number r = Some r' \<Longrightarrow> length r' < length r"
  by (auto simp: scan_number_def split: option.splits if_splits
      dest!: scan_integer_part_less scan_fraction_le scan_exponent_le)

lemma read_number_less: "read_number E p r = Inr (v, r') \<Longrightarrow> length r' < length r"
  by (auto simp: read_number_def Let_def split: option.splits if_splits dest: scan_number_less)

lemma read_literal_less:
  "read_literal p l v r = Inr (v', r') \<Longrightarrow> l \<noteq> [] \<Longrightarrow> length r' < length r"
  by (cases "length l \<le> length r"; cases r)
    (auto simp: read_literal_def split: if_splits dest: arg_cong [where f = length])

lemma map_read_Inr: "map_read f res = Inr (v, r') \<longleftrightarrow> (\<exists>w. res = Inr (w, r') \<and> v = f w)"
  by (auto simp: map_read_def split: sum.splits)

text \<open>A reader that, with \<open>n\<close> units of fuel, returns on every text shorter than \<open>n\<close> and consumes some of it.\<close>

definition progressive :: "nat \<Rightarrow> value_reader \<Rightarrow> bool" where
  "progressive n rv \<longleftrightarrow> (\<forall>p d r. length r < n \<longrightarrow>
     (\<exists>res. rv p d r = Some res \<and> (\<forall>v r'. res = Inr (v, r') \<longrightarrow> length r' < length r)))"

lemma progressiveD:
  assumes "progressive n rv" "length r < n"
  obtains e where "rv p d r = Some (Inl e)"
  | v r' where "rv p d r = Some (Inr (v, r'))" "length r' < length r"
proof -
  from assms obtain res where "rv p d r = Some res"
    and "\<forall>v r'. res = Inr (v, r') \<longrightarrow> length r' < length r"
    unfolding progressive_def by blast
  then show thesis using that by (cases res) auto
qed

text \<open>A loop whose fuel exceeds the text returns and never lengthens the text.\<close>

definition returns :: "('a read_result) option \<Rightarrow> nat \<Rightarrow> bool" where
  "returns out k \<longleftrightarrow> (\<exists>res. out = Some res \<and> (\<forall>v r'. res = Inr (v, r') \<longrightarrow> length r' < k))"

lemma returns_simps [simp]:
  "returns (Some (Inl e)) k"
  "returns (Some (Inr (v, r'))) k \<longleftrightarrow> length r' < k"
  "\<not> returns None k"
  by (auto simp: returns_def)

lemma returns_mono: "returns out k \<Longrightarrow> k \<le> k' \<Longrightarrow> returns out k'"
  by (force simp: returns_def)

lemma read_members_returns:
  assumes "progressive N rv" "length r < n" "length r < N" "length r < k"
  shows "returns (read_members rv n p d keys obj r) k"
  using assms(2-)
proof (induction n arbitrary: keys obj r k)
  case 0
  then show ?case by simp
next
  case (Suc n)
  define r0 where "r0 = skip_whitespace r"
  have r0: "length r0 \<le> length r" by (simp add: r0_def skip_whitespace_le)
  show ?case
  proof (cases "r0 = [] \<or> hd r0 \<noteq> 0x22")
    case True
    then show ?thesis by (simp add: r0_def Let_def)
  next
    case q: False
    show ?thesis
    proof (cases "read_string p [] (tl r0)")
      case (Inl e)
      with q show ?thesis by (simp add: r0_def Let_def)
    next
      case (Inr kr)
      obtain key r1 where kr: "kr = (key, r1)" by force
      define r2 where "r2 = skip_whitespace r1"
      have r1: "length r1 < length r0"
        using read_string_less [OF Inr [unfolded kr]] q by auto
      have r2: "length r2 \<le> length r1" by (simp add: r2_def skip_whitespace_le)
      then have "length (tl r2) < N" using r1 r0 Suc.prems by simp
      then consider e where "rv (child_path p key) (d + 1) (tl r2) = Some (Inl e)"
        | v r3 where "rv (child_path p key) (d + 1) (tl r2) = Some (Inr (v, r3))" "length r3 < length (tl r2)"
        by (rule progressiveD [OF assms(1)]) blast+
      then show ?thesis
      proof cases
        case 1
        with q Inr kr show ?thesis by (simp add: r0_def r2_def Let_def)
      next
        case (2 v r3)
        define r4 where "r4 = skip_whitespace r3"
        have r4: "length r4 \<le> length r3" by (simp add: r4_def skip_whitespace_le)
        have less: "length (tl r4) < length r" using r4 2(2) r2 r1 r0 by simp
        have "returns (read_members rv n p d (key # keys) (om_insert key v obj) (tl r4)) k"
          using less Suc.prems by (intro Suc.IH) simp_all
        then show ?thesis
          using q Inr kr 2 less Suc.prems by (simp add: r0_def r2_def r4_def Let_def)
      qed
    qed
  qed
qed

lemma read_elements_returns:
  assumes "progressive N rv" "length r < n" "length r < N" "length r < k"
  shows "returns (read_elements rv n p d i vs r) k"
  using assms(2-)
proof (induction n arbitrary: i vs r k)
  case 0
  then show ?case by simp
next
  case (Suc n)
  from Suc.prems(2) consider e where "rv (index_path p i) (d + 1) r = Some (Inl e)"
    | v r1 where "rv (index_path p i) (d + 1) r = Some (Inr (v, r1))" "length r1 < length r"
    by (rule progressiveD [OF assms(1)]) blast+
  then show ?case
  proof cases
    case 1
    then show ?thesis by simp
  next
    case (2 v r1)
    have less: "length (tl (skip_whitespace r1)) < length r"
      using skip_whitespace_le [of r1] 2(2) by simp
    have "returns (read_elements rv n p d (Suc i) (vs @ [v]) (tl (skip_whitespace r1))) k"
      using less Suc.prems by (intro Suc.IH) simp_all
    then show ?thesis using 2 less Suc.prems by (simp add: Let_def)
  qed
qed

lemma read_object_returns:
  assumes "progressive n rv" "length r \<le> n" "r \<noteq> []"
  shows "returns (read_object rv D n p d r) (length r)"
proof -
  define r1 where "r1 = skip_whitespace (tl r)"
  have r1: "length r1 < length r"
    using skip_whitespace_le [of "tl r"] assms(3) unfolding r1_def by (cases r) simp_all
  then have "returns (read_members rv n p d [] [] r1) (length r)"
    using assms by (intro read_members_returns [OF assms(1)]) simp_all
  with r1 show ?thesis by (auto simp: read_object_def r1_def Let_def intro: less_imp_diff_less)
qed

lemma read_array_returns:
  assumes "progressive n rv" "length r \<le> n" "r \<noteq> []"
  shows "returns (read_array rv D n p d r) (length r)"
proof -
  define r1 where "r1 = skip_whitespace (tl r)"
  have r1: "length r1 < length r"
    using skip_whitespace_le [of "tl r"] assms(3) unfolding r1_def by (cases r) simp_all
  then have "returns (read_elements rv n p d 0 [] r1) (length r)"
    using assms by (intro read_elements_returns [OF assms(1)]) simp_all
  with r1 show ?thesis by (auto simp: read_array_def r1_def Let_def intro: less_imp_diff_less)
qed

lemma returns_map_read: "returns (map_option (map_read f) out) k \<longleftrightarrow> returns out k"
  by (auto simp: returns_def map_read_Inr)

lemma progressive_returns: "progressive n rv \<longleftrightarrow> (\<forall>p d r. length r < n \<longrightarrow> returns (rv p d r) (length r))"
  by (simp add: progressive_def returns_def)

lemma read_value_progressive: "progressive n (read_value E D n)"
proof (induction n)
  case 0
  then show ?case by (simp add: progressive_def)
next
  case (Suc n)
  show ?case unfolding progressive_returns
  proof (intro allI impI)
    fix p d and r :: qstring
    assume "length r < Suc n"
    have le: "length (skip_whitespace r) \<le> length r" by (rule skip_whitespace_le)
    show "returns (read_value E D (Suc n) p d r) (length r)"
    proof (cases "skip_whitespace r")
      case Nil
      then show ?thesis by simp
    next
      case (Cons c s)
      with le have len: "length (c # s) \<le> length r" by simp
      with \<open>length r < Suc n\<close> have fuel: "length (c # s) \<le> n" by simp
      note sub = read_object_returns [OF Suc fuel] read_array_returns [OF Suc fuel]
      have obj: "returns (read_object (read_value E D n) D n p d (c # s)) (length r)"
        using len by (rule returns_mono [OF sub(1), rotated]) simp
      have arr: "returns (read_array (read_value E D n) D n p d (c # s)) (length r)"
        using len by (rule returns_mono [OF sub(2), rotated]) simp
      have str: "returns (Some (map_read JStr (read_string p [] s))) (length r)"
        using len by (force simp: returns_def map_read_Inr dest: read_string_less)
      have lit: "l \<noteq> [] \<Longrightarrow> returns (Some (read_literal p l v (c # s))) (length r)" for l v
        using len by (force simp: returns_def dest: read_literal_less)
      have num: "returns (Some (read_number E p (c # s))) (length r)"
        using len by (force simp: returns_def dest: read_number_less)
      show ?thesis
        using obj arr str lit num by (auto simp: Cons returns_map_read)
    qed
  qed
qed

lemma read_document_returns: "\<exists>res. read_document E D doc = Some res"
proof (cases "skip_whitespace doc = [] \<or> hd (skip_whitespace doc) \<noteq> 0x7B")
  case True
  then show ?thesis by (auto simp: read_document_def Let_def)
next
  case False
  have "returns (read_object (read_value E D (read_fuel doc)) D (read_fuel doc) (Q ''$'') 1
      (skip_whitespace doc)) (length (skip_whitespace doc))"
    using False skip_whitespace_le [of doc]
    by (intro read_object_returns read_value_progressive) (simp_all add: read_fuel_def)
  with False show ?thesis
    by (auto simp: read_document_def Let_def returns_def split: sum.splits)
qed

section \<open>What an accepted document looks like\<close>

text \<open>UTF-16 text in which every surrogate belongs to a pair.\<close>

fun utf16_ok :: "qstring \<Rightarrow> bool" where
  "utf16_ok [] = True"
| "utf16_ok (c # s) =
     (if is_high_surrogate c then (case s of [] \<Rightarrow> False | l # s' \<Rightarrow> is_low_surrogate l \<and> utf16_ok s')
      else \<not> is_low_surrogate c \<and> utf16_ok s)"

text \<open>
  A value that nests at most \<open>k\<close> containers, whose objects have strictly increasing
  (hence distinct) keys and whose keys and strings are well-formed.
\<close>

fun json_ok :: "int \<Rightarrow> json \<Rightarrow> bool" where
  "json_ok k (JStr s) = utf16_ok s"
| "json_ok k (JArr vs) = (1 \<le> k \<and> list_all (json_ok (k - 1)) vs)"
| "json_ok k (JObj m) = (1 \<le> k \<and> om_inv m \<and> list_all (\<lambda>p. utf16_ok (fst p) \<and> json_ok (k - 1) (snd p)) m)"
| "json_ok k v = True"

lemma utf16_ok_append: "utf16_ok s \<Longrightarrow> utf16_ok t \<Longrightarrow> utf16_ok (s @ t)"
  by (induction s rule: utf16_ok.induct) (auto split: list.splits)

lemma simple_escape_ok: "simple_escape c = Some x \<Longrightarrow> \<not> is_high_surrogate x \<and> \<not> is_low_surrogate x"
  by (auto simp: simple_escape_def is_high_surrogate_def is_low_surrogate_def split: if_splits)

lemma surrogate_disjoint: "is_high_surrogate c \<Longrightarrow> \<not> is_low_surrogate c"
  unfolding is_high_surrogate_def is_low_surrogate_def by (auto simp: word_le_nat_alt)

lemma read_unicode_escape_ok: "read_unicode_escape p r = Inr (u, r') \<Longrightarrow> utf16_ok u"
  by (auto simp: read_unicode_escape_def split: if_splits sum.splits prod.splits)

lemma read_string_ok: "read_string p acc r = Inr (v, r') \<Longrightarrow> utf16_ok acc \<Longrightarrow> utf16_ok v"
proof (induction "length r" arbitrary: acc r rule: less_induct)
  case less
  note IH = less.hyps [OF _ _ utf16_ok_append [OF less.prems(2)], rotated]
  show ?case
  proof (cases r)
    case Nil
    with less.prems show ?thesis by simp
  next
    case (Cons c s)
    with less.prems show ?thesis
      by (auto split: if_splits list.splits option.splits sum.splits prod.splits
          dest!: IH simple_escape_ok
          dest: read_unicode_escape_rest intro: read_unicode_escape_ok)
  qed
qed

definition ok_reader :: "int \<Rightarrow> value_reader \<Rightarrow> bool" where
  "ok_reader D rv \<longleftrightarrow> (\<forall>p d r v r'. rv p d r = Some (Inr (v, r')) \<longrightarrow> json_ok (D - d + 1) v)"

abbreviation member_ok :: "int \<Rightarrow> qstring \<times> json \<Rightarrow> bool" where
  "member_ok k q \<equiv> utf16_ok (fst q) \<and> json_ok k (snd q)"

lemma read_members_ok:
  assumes "ok_reader D rv" "om_inv obj" "list_all (member_ok (D - d)) obj"
    and "read_members rv n p d keys obj r = Some (Inr (m, r'))"
  shows "om_inv m \<and> list_all (member_ok (D - d)) m"
  using assms(2-)
proof (induction n arbitrary: keys obj r)
  case 0
  then show ?case by simp
next
  case (Suc n)
  from Suc.prems(3) obtain key r1 v r3 where
    key: "read_string p [] (tl (skip_whitespace r)) = Inr (key, r1)"
    and v: "rv (child_path p key) (d + 1) (tl (skip_whitespace r1)) = Some (Inr (v, r3))"
    and rest: "m = om_insert key v obj \<or>
      read_members rv n p d (key # keys) (om_insert key v obj) (tl (skip_whitespace r3)) = Some (Inr (m, r'))"
    by (auto simp: Let_def split: if_splits sum.splits option.splits prod.splits)
  have "json_ok (D - (d + 1) + 1) v" using assms(1) v unfolding ok_reader_def by blast
  moreover have "utf16_ok key" using read_string_ok [OF key] by simp
  ultimately have ok: "om_inv (om_insert key v obj)" "list_all (member_ok (D - d)) (om_insert key v obj)"
    using Suc.prems by (simp_all add: list_all_om_insert)
  show ?case using rest Suc.IH [OF ok] ok by blast
qed

lemma read_elements_ok:
  assumes "ok_reader D rv" "list_all (json_ok (D - d)) vs"
    and "read_elements rv n p d i vs r = Some (Inr (ws, r'))"
  shows "list_all (json_ok (D - d)) ws"
  using assms(2-)
proof (induction n arbitrary: i vs r)
  case 0
  then show ?case by simp
next
  case (Suc n)
  from Suc.prems(2) obtain v r1 where
    v: "rv (index_path p i) (d + 1) r = Some (Inr (v, r1))"
    and rest: "ws = vs @ [v] \<or>
      read_elements rv n p d (Suc i) (vs @ [v]) (tl (skip_whitespace r1)) = Some (Inr (ws, r'))"
    by (auto simp: Let_def split: if_splits sum.splits option.splits)
  have "json_ok (D - (d + 1) + 1) v" using assms(1) v unfolding ok_reader_def by blast
  then have "list_all (json_ok (D - d)) (vs @ [v])" using Suc.prems by simp
  with rest Suc.IH show ?case by blast
qed

lemma read_object_ok:
  assumes "ok_reader D rv" "read_object rv D n p d r = Some (Inr (m, r'))"
  shows "json_ok (D - d + 1) (JObj m)"
proof -
  from assms(2) have d: "d \<le> D" by (auto simp: read_object_def split: if_splits)
  from assms(2) consider "m = []" | "read_members rv n p d [] [] (skip_whitespace (tl r)) = Some (Inr (m, r'))"
    by (auto simp: read_object_def Let_def split: if_splits)
  then show ?thesis using d read_members_ok [OF assms(1), of "[]" d n p "[]"] by cases auto
qed

lemma read_array_ok:
  assumes "ok_reader D rv" "read_array rv D n p d r = Some (Inr (vs, r'))"
  shows "json_ok (D - d + 1) (JArr vs)"
proof -
  from assms(2) have d: "d \<le> D" by (auto simp: read_array_def split: if_splits)
  from assms(2) consider "vs = []" | "read_elements rv n p d 0 [] (skip_whitespace (tl r)) = Some (Inr (vs, r'))"
    by (auto simp: read_array_def Let_def split: if_splits)
  then show ?thesis using d read_elements_ok [OF assms(1), of d "[]" n p 0] by cases auto
qed

lemma read_literal_value: "read_literal p l v r = Inr (v', r') \<Longrightarrow> v' = v"
  by (auto simp: read_literal_def split: if_splits)

lemma read_number_value: "read_number E p r = Inr (v, r') \<Longrightarrow> \<exists>x. v = JNum x"
  by (auto simp: read_number_def Let_def split: option.splits if_splits)

lemma read_value_ok: "ok_reader D (read_value E D n)"
proof (induction n)
  case 0
  then show ?case by (simp add: ok_reader_def)
next
  case (Suc n)
  note read_object_ok [OF Suc, dest!] read_array_ok [OF Suc, dest!]
  show ?case unfolding ok_reader_def
    by (auto simp: map_read_Inr split: list.splits if_splits
        dest!: read_literal_value read_number_value dest: read_string_ok)
qed

lemma read_document_ok:
  assumes "read_document E D doc = Some (Inr (m, r))"
  shows "json_ok D (JObj m)"
proof -
  from assms obtain n r0 r1 where "read_object (read_value E D n) D n (Q ''$'') 1 r0 = Some (Inr (m, r1))"
    by (auto simp: read_document_def Let_def split: if_splits option.splits sum.splits)
  from read_object_ok [OF read_value_ok this] show ?thesis by simp
qed

section \<open>The parser as the components call it\<close>

text \<open>
  \<open>parseStrictJsonObject\<close> as a function: the fuel of \<open>read_document\<close> never runs out
  (\<open>read_document_returns\<close>), so the last case is never taken.
\<close>

definition parse_object :: "qt_env \<Rightarrow> int \<Rightarrow> int \<Rightarrow> bytes \<Rightarrow> json qmap validation_result" where
  "parse_object E max_bytes max_depth bs =
     (case parse_strict_json_object E \<lparr>maximum_bytes = max_bytes, maximum_depth = max_depth\<rparr> bs of
        Some r \<Rightarrow> r | None \<Rightarrow> vr_reject [])"

lemma parse_strict_returns: "\<exists>r. parse_strict_json_object E L bs = Some r"
  using read_document_returns by (fastforce simp: parse_strict_json_object_def split: option.splits)

lemma parse_object_ok:
  assumes "vr_ok (parse_object E B D bs)"
  obtains m where "parse_object E B D bs = vr_accept m" "int (length bs) \<le> B" "json_ok D (JObj m)"
proof -
  obtain r where r: "parse_strict_json_object E \<lparr>maximum_bytes = B, maximum_depth = D\<rparr> bs = Some r"
    using parse_strict_returns by blast
  with assms have "vr_ok r" by (simp add: parse_object_def)
  with r obtain doc where B: "int (length bs) \<le> B"
    and "map_option (\<lambda>res. case res of Inl e \<Rightarrow> vr_reject [e] | Inr (m, r) \<Rightarrow> vr_accept m)
      (read_document E D doc) = Some r"
    by (auto simp: parse_strict_json_object_def split: if_splits option.splits)
  then obtain res where res: "read_document E D doc = Some res"
    and r_res: "r = (case res of Inl e \<Rightarrow> vr_reject [e] | Inr (m, r) \<Rightarrow> vr_accept m)" by auto
  show thesis
  proof (cases res)
    case (Inl e)
    with r_res \<open>vr_ok r\<close> show thesis by simp
  next
    case (Inr mr)
    obtain m rest where "mr = (m, rest)" by force
    with Inr res have "read_document E D doc = Some (Inr (m, rest))" by simp
    then have "json_ok D (JObj m)" by (rule read_document_ok)
    moreover have "parse_object E B D bs = vr_accept m"
      using r r_res Inr \<open>mr = (m, rest)\<close> by (simp add: parse_object_def)
    ultimately show thesis using B that by blast
  qed
qed

lemma parse_object_cases:
  obtains m where "parse_object E B D bs = vr_accept m" "int (length bs) \<le> B" "json_ok D (JObj m)"
  | "\<not> vr_ok (parse_object E B D bs)"
  using parse_object_ok by metis

end
