(* ===== verification/Json_Number.thy ===== *)
theory Json_Number
  imports Strict_Json
begin

text \<open>
  What the lossless-number test of strict_json.cpp decides. A JSON number text is given by
  its parts; \<open>number_value\<close> is the rational it denotes. \<open>normalize_json_number\<close> is shown
  to compute a canonical form of that value: two texts that both have a normal form have the
  same one exactly when they denote the same number.
\<close>

section \<open>Number texts and their values\<close>

record number_parts =
  np_negative :: bool
  np_integer :: qstring
  np_fraction :: qstring
  np_exponent :: "(qchar \<times> qstring \<times> qstring) option"

definition number_text :: "number_parts \<Rightarrow> qstring" where
  "number_text n =
     (if np_negative n then [0x2D] else []) @ np_integer n
     @ (if np_fraction n = [] then [] else 0x2E # np_fraction n)
     @ (case np_exponent n of None \<Rightarrow> [] | Some (e, sg, ds) \<Rightarrow> e # sg @ ds)"

definition exponent_ok :: "(qchar \<times> qstring \<times> qstring) option \<Rightarrow> bool" where
  "exponent_ok ex \<longleftrightarrow> (case ex of None \<Rightarrow> True
     | Some (e, sg, ds) \<Rightarrow> (e = 0x65 \<or> e = 0x45) \<and> sg \<in> {[], [0x2B], [0x2D]}
         \<and> ds \<noteq> [] \<and> list_all is_ascii_digit ds)"

definition parts_ok :: "number_parts \<Rightarrow> bool" where
  "parts_ok n \<longleftrightarrow> np_integer n \<noteq> [] \<and> list_all is_ascii_digit (np_integer n)
     \<and> list_all is_ascii_digit (np_fraction n) \<and> exponent_ok (np_exponent n)"

definition exponent_value :: "(qchar \<times> qstring \<times> qstring) option \<Rightarrow> int" where
  "exponent_value ex = (case ex of None \<Rightarrow> 0
     | Some (e, sg, ds) \<Rightarrow> (if sg = [0x2D] then - int (decimal_value ds) else int (decimal_value ds)))"

definition number_value :: "number_parts \<Rightarrow> rat" where
  "number_value n =
     (if np_negative n then - 1 else 1)
     * of_nat (decimal_value (np_integer n @ np_fraction n))
     * 10 powi (exponent_value (np_exponent n) - int (length (np_fraction n)))"

definition nn_value :: "normalized_number \<Rightarrow> rat" where
  "nn_value n = (if nn_negative n then - 1 else 1) * of_nat (decimal_value (nn_digits n))
     * 10 powi nn_exponent n"

section \<open>The steps of the normalisation\<close>

lemma digit_not_special:
  "is_ascii_digit c \<Longrightarrow> c \<noteq> 0x2E \<and> c \<noteq> 0x65 \<and> c \<noteq> 0x45 \<and> c \<noteq> 0x2D \<and> c \<noteq> 0x2B"
  by (auto simp: is_ascii_digit_def word_le_nat_alt)

lemma index_of_append:
  "c \<notin> set xs \<Longrightarrow> index_of c (xs @ ys) = map_option ((+) (length xs)) (index_of c ys)"
  by (cases "index_of c ys"; induction xs) auto

lemma index_of_None: "index_of c xs = None \<longleftrightarrow> c \<notin> set xs"
  by (induction xs) auto

lemma scan_significand_after: "0x2E \<notin> set s \<Longrightarrow> scan_significand after s = (s, if after then length s else 0)"
  by (induction s) auto

lemma scan_significand_point:
  "0x2E \<notin> set a \<Longrightarrow> 0x2E \<notin> set b \<Longrightarrow> scan_significand False (a @ 0x2E # b) = (a @ b, length b)"
  by (induction a) (auto simp: scan_significand_after)

lemma decimal_value_append: "decimal_value (s @ t) = decimal_value s * 10 ^ length t + decimal_value t"
  by (induction t rule: rev_induct)
    (simp_all add: decimal_value_def algebra_simps flip: append_assoc)

lemma decimal_value_zeros: "decimal_value (replicate k 0x30) = 0"
  by (induction k) (simp_all add: decimal_value_def digit_value_def)

lemma decimal_value_drop_zeros: "decimal_value (dropWhile (\<lambda>c. c = 0x30) s) = decimal_value s"
  by (induction s) (auto simp: decimal_value_def digit_value_def)

lemma dropWhile_zeros_Nil: "dropWhile (\<lambda>c. c = 0x30) s = [] \<Longrightarrow> decimal_value s = 0"
  by (metis decimal_value_drop_zeros decimal_value_def foldl_Nil)

lemma hd_dropWhile_zero: "dropWhile (\<lambda>c. c = 0x30) s \<noteq> [] \<Longrightarrow> hd (dropWhile (\<lambda>c. c = 0x30) s) \<noteq> (0x30 :: qchar)"
  by (rule hd_dropWhile)

lemma strip_trailing_zeros_split:
  assumes "ds \<noteq> []"
  shows "ds = strip_trailing_zeros ds @ replicate (length ds - length (strip_trailing_zeros ds)) 0x30"
proof -
  let ?P = "\<lambda>c. c = (0x30 :: qchar)"
  let ?z = "takeWhile ?P (rev (drop 1 ds))"
  have "takeWhile ?P xs = replicate (length (takeWhile ?P xs)) 0x30" for xs
    by (induction xs) auto
  then have z: "rev ?z = replicate (length ?z) 0x30" by (metis rev_replicate)
  have "drop 1 ds = rev (dropWhile ?P (rev (drop 1 ds))) @ rev ?z"
    by (metis rev_append rev_rev_ident takeWhile_dropWhile_id)
  then have eq: "ds = strip_trailing_zeros ds @ rev ?z"
    unfolding strip_trailing_zeros_def by (metis append.assoc append_take_drop_id)
  then have "length ds - length (strip_trailing_zeros ds) = length ?z"
    by (metis add_diff_cancel_left' length_append length_rev)
  with eq z show ?thesis by simp
qed

lemma strip_trailing_zeros_hd: "ds \<noteq> [] \<Longrightarrow> strip_trailing_zeros ds \<noteq> [] \<and> hd (strip_trailing_zeros ds) = hd ds"
  by (cases ds) (simp_all add: strip_trailing_zeros_def)

lemma strip_trailing_zeros_last:
  assumes "ds \<noteq> []" "hd ds \<noteq> 0x30"
  shows "last (strip_trailing_zeros ds) \<noteq> 0x30"
proof (cases "dropWhile (\<lambda>c. c = 0x30) (rev (drop 1 ds)) = []")
  case True
  with assms show ?thesis by (cases ds) (simp_all add: strip_trailing_zeros_def)
next
  case False
  then show ?thesis
    using hd_dropWhile [OF False] by (simp add: strip_trailing_zeros_def last_rev)
qed

lemma decimal_value_strip:
  assumes "ds \<noteq> []"
  shows "decimal_value ds =
    decimal_value (strip_trailing_zeros ds) * 10 ^ (length ds - length (strip_trailing_zeros ds))"
proof -
  let ?k = "length ds - length (strip_trailing_zeros ds)"
  have "decimal_value (strip_trailing_zeros ds @ replicate ?k 0x30)
      = decimal_value (strip_trailing_zeros ds) * 10 ^ ?k"
    by (simp add: decimal_value_append decimal_value_zeros)
  with strip_trailing_zeros_split [OF assms] show ?thesis by metis
qed

lemma to_long_long_value:
  assumes "exponent_ok (Some (e, sg, ds))" "to_long_long (sg @ ds) = Some v"
  shows "v = exponent_value (Some (e, sg, ds))"
proof -
  have ds: "ds \<noteq> []" "is_ascii_digit (hd ds)"
    using assms(1) by (auto simp: exponent_ok_def list_all_iff)
  note hd_ds = digit_not_special [OF ds(2)]
  show ?thesis
    using assms ds hd_ds
    by (auto simp: exponent_ok_def exponent_value_def to_long_long_def Let_def split: if_splits)
qed

definition significand_text :: "number_parts \<Rightarrow> qstring" where
  "significand_text n = np_integer n @ (if np_fraction n = [] then [] else 0x2E # np_fraction n)"

lemma significand_text_plain:
  assumes "parts_ok n" "c \<in> set (significand_text n)"
  shows "c \<noteq> 0x65 \<and> c \<noteq> 0x45"
proof -
  have "is_ascii_digit c \<or> c = 0x2E"
    using assms by (auto simp: parts_ok_def significand_text_def list_all_iff split: if_splits)
  then show ?thesis by (auto dest: digit_not_special)
qed

lemma scan_significand_text:
  assumes "parts_ok n"
  shows "scan_significand False (significand_text n)
    = (np_integer n @ np_fraction n, length (np_fraction n))"
proof -
  have "0x2E \<notin> set (np_integer n)" "0x2E \<notin> set (np_fraction n)"
    using assms digit_not_special by (auto simp: parts_ok_def list_all_iff)
  then show ?thesis
    by (simp add: significand_text_def scan_significand_point scan_significand_after)
qed

lemma exponent_position:
  assumes "parts_ok n"
  defines "body \<equiv> significand_text n @
    (case np_exponent n of None \<Rightarrow> [] | Some (e, sg, ds) \<Rightarrow> e # sg @ ds)"
  shows "(case index_of 0x65 body of Some i \<Rightarrow> Some i | None \<Rightarrow> index_of 0x45 body)
    = (case np_exponent n of None \<Rightarrow> None | Some _ \<Rightarrow> Some (length (significand_text n)))"
proof -
  have plain: "0x65 \<notin> set (significand_text n)" "0x45 \<notin> set (significand_text n)"
    using significand_text_plain [OF assms(1)] by blast+
  show ?thesis
  proof (cases "np_exponent n")
    case None
    with plain show ?thesis by (simp add: body_def index_of_None [THEN iffD2])
  next
    case (Some ex)
    obtain e sg ds where ex: "ex = (e, sg, ds)" by (cases ex)
    have ds: "0x65 \<notin> set ds" and "e = 0x65 \<or> e = 0x45" and "0x65 \<notin> set sg"
      using assms(1) Some ex digit_not_special
      by (auto simp: parts_ok_def exponent_ok_def list_all_iff)
    then show ?thesis using plain Some ex
      by (auto simp: body_def index_of_append index_of_append [of _ "_ @ _", simplified] index_of_None [THEN iffD2])
  qed
qed

text \<open>The normalisation of a number text, in terms of its parts.\<close>

lemma normalize_text:
  assumes "parts_ok n"
  shows "normalize_json_number (number_text n) =
    (let ds = dropWhile (\<lambda>c. c = 0x30) (np_integer n @ np_fraction n);
         fractional = length (np_fraction n)
     in if ds = [] then Some \<lparr>nn_negative = False, nn_digits = Q ''0'', nn_exponent = 0\<rparr>
        else case (case np_exponent n of None \<Rightarrow> Some 0 | Some (e, sg, es) \<Rightarrow> to_long_long (sg @ es)) of
            None \<Rightarrow> None
          | Some explicit \<Rightarrow>
              if max_int64 < int fractional \<or> explicit < min_int64 + int fractional then None
              else
                let stripped = strip_trailing_zeros ds;
                    zeros = length ds - length stripped;
                    exponent = explicit - int fractional
                in if max_int64 < int zeros \<or> max_int64 - int zeros < exponent then None
                   else Some \<lparr>nn_negative = np_negative n, nn_digits = stripped,
                              nn_exponent = exponent + int zeros\<rparr>)"
proof -
  let ?ex = "case np_exponent n of None \<Rightarrow> [] | Some (e, sg, ds) \<Rightarrow> e # sg @ ds"
  let ?body = "significand_text n @ ?ex"
  have hd: "significand_text n \<noteq> []" "hd (significand_text n) \<noteq> 0x2D"
    using assms digit_not_special
    by (auto simp: parts_ok_def significand_text_def list_all_iff)
  have shape: "number_text n = (if np_negative n then [0x2D] else []) @ ?body"
    by (simp add: number_text_def significand_text_def)
  have neg: "(number_text n \<noteq> [] \<and> hd (number_text n) = 0x2D) = np_negative n"
    using hd by (simp add: shape)
  have body: "(if np_negative n then tl (number_text n) else number_text n) = ?body"
    by (simp add: shape)
  show ?thesis
    unfolding normalize_json_number_def neg Let_def body exponent_position [OF assms]
    by (cases "np_exponent n") (auto simp: scan_significand_text [OF assms])
qed

theorem normalize_value:
  assumes "parts_ok n" "normalize_json_number (number_text n) = Some nn"
  shows "nn_value nn = number_value n"
proof -
  let ?all = "np_integer n @ np_fraction n"
  let ?ds = "dropWhile (\<lambda>c. c = 0x30) ?all"
  show ?thesis
  proof (cases "?ds = []")
    case True
    then have "nn = \<lparr>nn_negative = False, nn_digits = Q ''0'', nn_exponent = 0\<rparr>"
      using assms by (simp add: normalize_text)
    moreover have "decimal_value (Q ''0'') = 0" by (simp add: Q_def decimal_value_def digit_value_def)
    moreover have "decimal_value ?all = 0" using True by (rule dropWhile_zeros_Nil)
    ultimately show ?thesis by (simp add: nn_value_def number_value_def)
  next
    case False
    let ?st = "strip_trailing_zeros ?ds"
    let ?z = "length ?ds - length ?st"
    obtain v where v: "(case np_exponent n of None \<Rightarrow> Some 0 | Some (e, sg, es) \<Rightarrow> to_long_long (sg @ es)) = Some v"
      and nn: "nn = \<lparr>nn_negative = np_negative n, nn_digits = ?st,
          nn_exponent = v - int (length (np_fraction n)) + int ?z\<rparr>"
      using assms False by (auto simp: normalize_text Let_def split: option.splits if_splits)
    have "v = exponent_value (np_exponent n)"
      using v assms(1) by (auto simp: parts_ok_def exponent_value_def [of None]
          split: option.splits prod.splits dest!: to_long_long_value [rotated])
    moreover have "decimal_value ?all = decimal_value ?st * 10 ^ ?z"
      using decimal_value_strip [OF False] by (simp add: decimal_value_drop_zeros)
    moreover have "(10 :: rat) powi (k + int z) = 10 powi k * 10 ^ z" for k z
      by (simp add: power_int_add)
    ultimately show ?thesis
      by (simp add: nn nn_value_def number_value_def)
  qed
qed

section \<open>The normal form is canonical\<close>

definition nn_canonical :: "normalized_number \<Rightarrow> bool" where
  "nn_canonical a \<longleftrightarrow> a = \<lparr>nn_negative = False, nn_digits = Q ''0'', nn_exponent = 0\<rparr>
     \<or> (list_all is_ascii_digit (nn_digits a) \<and> nn_digits a \<noteq> []
        \<and> hd (nn_digits a) \<noteq> 0x30 \<and> last (nn_digits a) \<noteq> 0x30)"

lemma set_strip_trailing_zeros: "set (strip_trailing_zeros ds) \<subseteq> set ds"
  by (cases "ds = []") (simp add: strip_trailing_zeros_def,
    metis Un_upper1 set_append strip_trailing_zeros_split)

lemma normalize_canonical:
  assumes "parts_ok n" "normalize_json_number (number_text n) = Some nn"
  shows "nn_canonical nn"
proof -
  let ?ds = "dropWhile (\<lambda>c. c = 0x30) (np_integer n @ np_fraction n)"
  show ?thesis
  proof (cases "?ds = []")
    case True
    with assms show ?thesis by (simp add: normalize_text nn_canonical_def)
  next
    case False
    have "set ?ds \<subseteq> set (np_integer n) \<union> set (np_fraction n)" by (auto dest!: set_dropWhileD)
    moreover have "\<forall>c \<in> set (np_integer n) \<union> set (np_fraction n). is_ascii_digit c"
      using assms(1) by (auto simp: parts_ok_def list_all_iff)
    ultimately have "list_all is_ascii_digit ?ds" unfolding list_all_iff by blast
    then have "list_all is_ascii_digit (strip_trailing_zeros ?ds)"
      using set_strip_trailing_zeros [of ?ds] by (auto simp: list_all_iff)
    moreover have "nn_digits nn = strip_trailing_zeros ?ds"
      using assms False by (auto simp: normalize_text Let_def split: option.splits if_splits)
    ultimately show ?thesis
      using strip_trailing_zeros_hd [OF False] strip_trailing_zeros_last [OF False hd_dropWhile_zero [OF False]]
        hd_dropWhile_zero [OF False]
      by (simp add: nn_canonical_def)
  qed
qed

lemma decimal_value_mod_10:
  "list_all is_ascii_digit s \<Longrightarrow> s \<noteq> [] \<Longrightarrow> decimal_value s mod 10 = digit_value (last s)"
  by (cases s rule: rev_cases) (simp_all add: decimal_value_snoc)

lemma digit_value_nonzero: "is_ascii_digit c \<Longrightarrow> c \<noteq> 0x30 \<Longrightarrow> digit_value c \<noteq> 0"
  by (metis digit_char_eq_0 digit_char_value digit_value_less)

lemma canonical_digits:
  assumes "nn_canonical a" "nn_value a \<noteq> 0"
  shows "0 < decimal_value (nn_digits a)" "decimal_value (nn_digits a) mod 10 \<noteq> 0"
    "qnumber (decimal_value (nn_digits a)) = nn_digits a"
proof -
  have "decimal_value (Q ''0'') = 0" by (simp add: Q_def decimal_value_def digit_value_def)
  with assms have d: "list_all is_ascii_digit (nn_digits a)" "nn_digits a \<noteq> []"
      "hd (nn_digits a) \<noteq> 0x30" "last (nn_digits a) \<noteq> 0x30"
    by (auto simp: nn_canonical_def nn_value_def)
  from decimal_text_unique [OF d(1-3)]
  show "0 < decimal_value (nn_digits a)" "qnumber (decimal_value (nn_digits a)) = nn_digits a" by simp_all
  show "decimal_value (nn_digits a) mod 10 \<noteq> 0"
    using d by (simp add: decimal_value_mod_10 digit_value_nonzero list_all_iff)
qed

lemma canonical_zero:
  assumes "nn_canonical a" "nn_value a = 0"
  shows "a = \<lparr>nn_negative = False, nn_digits = Q ''0'', nn_exponent = 0\<rparr>"
proof (rule ccontr)
  assume ne: "a \<noteq> \<lparr>nn_negative = False, nn_digits = Q ''0'', nn_exponent = 0\<rparr>"
  with assms(1) have "0 < decimal_value (nn_digits a)"
    by (auto simp: nn_canonical_def dest: decimal_text_unique)
  with assms(2) show False by (simp add: nn_value_def split: if_splits)
qed

lemma decimal_scale_unique:
  fixes m n :: nat and e f :: int
  assumes "m mod 10 \<noteq> 0" "n mod 10 \<noteq> 0" "(of_nat m :: rat) * 10 powi e = of_nat n * 10 powi f"
  shows "m = n \<and> e = f"
proof -
  have le: "m = n * 10 ^ nat (f - e)" if "e \<le> f" "(of_nat m :: rat) * 10 powi e = of_nat n * 10 powi f"
    for m n :: nat and e f :: int
  proof -
    have "(10 :: rat) powi f = 10 powi e * 10 ^ nat (f - e)"
      using that(1) by (simp flip: power_int_of_nat power_int_add)
    with that(2) have "(of_nat m :: rat) = of_nat (n * 10 ^ nat (f - e))" by simp
    then show ?thesis by (simp only: of_nat_eq_iff)
  qed
  have eq: "e = f" if "e \<le> f" "m mod 10 \<noteq> 0" "(of_nat m :: rat) * 10 powi e = of_nat n * 10 powi f"
    for m n :: nat and e f :: int
  proof (rule ccontr)
    assume "e \<noteq> f"
    with that(1) obtain k where "nat (f - e) = Suc k" by (cases "nat (f - e)") auto
    with le [OF that(1,3)] have "m = 10 * (n * 10 ^ k)" by simp
    with that(2) show False by simp
  qed
  have "e = f"
    using eq [of e f m n] eq [of f e n m] assms by (metis linorder_linear)
  with assms(3) show ?thesis by simp
qed

lemma canonical_unique:
  assumes "nn_canonical a" "nn_canonical b" "nn_value a = nn_value b"
  shows "a = b"
proof (cases "nn_value a = 0")
  case True
  with assms show ?thesis by (metis canonical_zero)
next
  case False
  note da = canonical_digits [OF assms(1) False] and db = canonical_digits [OF assms(2) False [unfolded assms(3)]]
  have pos: "0 < (of_nat (decimal_value (nn_digits c)) :: rat) * 10 powi nn_exponent c"
    if "0 < decimal_value (nn_digits c)" for c
    using that by simp
  have sign: "nn_negative a = nn_negative b"
    using assms(3) pos [OF da(1)] pos [OF db(1)] by (auto simp: nn_value_def split: if_splits)
  then have "(of_nat (decimal_value (nn_digits a)) :: rat) * 10 powi nn_exponent a
      = of_nat (decimal_value (nn_digits b)) * 10 powi nn_exponent b"
    using assms(3) by (auto simp: nn_value_def split: if_splits)
  from decimal_scale_unique [OF da(2) db(2) this] da(3) db(3) sign
  show ?thesis by (metis normalized_number.equality unit.exhaust)
qed

section \<open>What the reader accepts as a number\<close>

lemma skip_digits_split: "\<exists>ds. list_all is_ascii_digit ds \<and> r = ds @ skip_digits r"
  unfolding skip_digits_def
  by (metis Ball_set set_takeWhileD takeWhile_dropWhile_id)

lemma skip_digits_split_nonempty:
  assumes "r \<noteq> []" "is_ascii_digit (hd r)"
  shows "\<exists>ds. ds \<noteq> [] \<and> list_all is_ascii_digit ds \<and> r = ds @ skip_digits r"
proof -
  from assms obtain c s where r: "r = c # s" "is_ascii_digit c" by (cases r) auto
  obtain ds where "list_all is_ascii_digit ds" "s = ds @ skip_digits s" using skip_digits_split by blast
  then show ?thesis using r by (intro exI [of _ "c # ds"]) (simp add: skip_digits_def)
qed

lemma scan_integer_part_split:
  assumes "scan_integer_part r = Some r'"
  shows "\<exists>ds. ds \<noteq> [] \<and> list_all is_ascii_digit ds \<and> r = ds @ r'"
proof (cases r)
  case Nil
  with assms show ?thesis by (simp add: scan_integer_part_def)
next
  case (Cons c s)
  show ?thesis
  proof (cases "c = 0x30")
    case True
    with assms Cons have "r = [0x30] @ r'" by (auto simp: scan_integer_part_def split: if_splits)
    then show ?thesis by (intro exI [of _ "[0x30]"]) (simp add: is_ascii_digit_def)
  next
    case False
    with assms Cons have "r' = skip_digits r" and c: "0x31 \<le> c" "c \<le> 0x39"
      by (auto simp: scan_integer_part_def split: if_splits)
    moreover have "is_ascii_digit c"
      using c unfolding is_ascii_digit_def by (auto simp: word_le_nat_alt)
    ultimately show ?thesis using skip_digits_split_nonempty [of r] Cons by simp
  qed
qed

lemma scan_fraction_split:
  assumes "scan_fraction r = Some r'"
  shows "\<exists>fp. list_all is_ascii_digit fp \<and> r = (if fp = [] then [] else 0x2E # fp) @ r'"
proof (cases "r \<noteq> [] \<and> hd r = 0x2E")
  case False
  with assms have "r' = r" by (cases r) (auto simp: scan_fraction_def)
  then show ?thesis by (intro exI [of _ "[]"]) simp
next
  case True
  then obtain s where r: "r = 0x2E # s" by (cases r) auto
  with assms have "r' = skip_digits s" "s \<noteq> []" "is_ascii_digit (hd s)"
    by (auto simp: scan_fraction_def split: if_splits)
  with skip_digits_split_nonempty [of s] obtain ds
    where "ds \<noteq> []" "list_all is_ascii_digit ds" "s = ds @ r'" by blast
  with r show ?thesis by (intro exI [of _ ds]) simp
qed

lemma scan_exponent_split:
  assumes "scan_exponent r = Some r'"
  shows "\<exists>ex. exponent_ok ex \<and> r = (case ex of None \<Rightarrow> [] | Some (e, sg, ds) \<Rightarrow> e # sg @ ds) @ r'"
proof (cases "r \<noteq> [] \<and> (hd r = 0x65 \<or> hd r = 0x45)")
  case False
  with assms have "r' = r" by (cases r) (auto simp: scan_exponent_def)
  then show ?thesis by (intro exI [of _ None]) (simp add: exponent_ok_def)
next
  case True
  then obtain e s where r: "r = e # s" "e = 0x65 \<or> e = 0x45" by (cases r) auto
  define t where "t = (if s \<noteq> [] \<and> (hd s = 0x2B \<or> hd s = 0x2D) then tl s else s)"
  have "\<exists>sg. sg \<in> {[], [0x2B], [0x2D]} \<and> s = sg @ t"
    by (cases s) (auto simp: t_def)
  then obtain sg where sg: "sg \<in> {[], [0x2B], [0x2D]}" "s = sg @ t" by blast
  from assms r have "r' = skip_digits t" "t \<noteq> []" "is_ascii_digit (hd t)"
    by (auto simp: scan_exponent_def Let_def t_def split: if_splits)
  with skip_digits_split_nonempty [of t] obtain ds
    where "ds \<noteq> []" "list_all is_ascii_digit ds" "t = ds @ r'" by blast
  with r sg show ?thesis
    by (intro exI [of _ "Some (e, sg, ds)"]) (auto simp: exponent_ok_def)
qed

lemma scan_number_split:
  assumes "scan_number r = Some r'"
  shows "\<exists>n. parts_ok n \<and> r = number_text n @ r'"
proof -
  define neg where "neg \<longleftrightarrow> r \<noteq> [] \<and> hd r = 0x2D"
  have r: "r = (if neg then [0x2D] else []) @ (if neg then tl r else r)"
    by (cases r) (auto simp: neg_def)
  from assms obtain r1 r2 where i: "scan_integer_part (if neg then tl r else r) = Some r1"
    and f: "scan_fraction r1 = Some r2" and e: "scan_exponent r2 = Some r'"
    by (auto simp: scan_number_def neg_def split: option.splits)
  from scan_integer_part_split [OF i] obtain ip
    where ip: "ip \<noteq> []" "list_all is_ascii_digit ip" "(if neg then tl r else r) = ip @ r1" by blast
  from scan_fraction_split [OF f] obtain fp
    where fp: "list_all is_ascii_digit fp" "r1 = (if fp = [] then [] else 0x2E # fp) @ r2" by blast
  from scan_exponent_split [OF e] obtain ex
    where ex: "exponent_ok ex" "r2 = (case ex of None \<Rightarrow> [] | Some (e, sg, ds) \<Rightarrow> e # sg @ ds) @ r'" by blast
  let ?n = "\<lparr>np_negative = neg, np_integer = ip, np_fraction = fp, np_exponent = ex\<rparr>"
  have "r = (if neg then [0x2D] else []) @ ip @ r1" using r ip(3) by simp
  then have "r = number_text ?n @ r'" using fp(2) ex(2) by (simp add: number_text_def)
  moreover have "parts_ok ?n" using ip fp ex by (simp add: parts_ok_def)
  ultimately show ?thesis by blast
qed

text \<open>
  Two number texts are normalised to the same form exactly when they denote the same
  rational: the comparison in \<open>readNumber\<close> is an exact test of the value, whatever the
  notation.
\<close>

theorem normalize_eq_iff_value_eq:
  assumes "parts_ok m" "parts_ok n"
    and "normalize_json_number (number_text m) = Some a"
    and "normalize_json_number (number_text n) = Some b"
  shows "a = b \<longleftrightarrow> number_value m = number_value n"
  using assms normalize_value normalize_canonical canonical_unique by metis

lemma read_number_lossless:
  assumes "read_number E p r = Inr (JNum x, r')"
  shows "\<exists>n. parts_ok n \<and> r = number_text n @ r' \<and> qt_to_double E (number_text n) = Some x
    \<and> (\<forall>m. parts_ok m \<longrightarrow> number_text m = serialized_json_number E x \<longrightarrow> number_value m = number_value n)"
proof -
  from assms obtain a where s: "scan_number r = Some r'"
    and d: "qt_to_double E (take (length r - length r') r) = Some x"
    and a: "normalize_json_number (take (length r - length r') r) = Some a"
    and b: "normalize_json_number (serialized_json_number E x) = Some a"
    by (auto simp: read_number_def Let_def split: option.splits if_splits)
  from scan_number_split [OF s] obtain n where n: "parts_ok n" "r = number_text n @ r'" by blast
  then have "take (length r - length r') r = number_text n" by simp
  with a b d n show ?thesis
    by (metis normalize_eq_iff_value_eq)
qed

end
