(* ===== verification/Json_Grammar.thy ===== *)
theory Json_Grammar
  imports Json_Number
begin

text \<open>
  The JSON grammar of RFC 8259 as inductive relations between values and texts, with the
  restrictions of the strict reader as side conditions of its productions: a nesting limit, no
  duplicate keys, well-formed UTF-16 and numbers that keep their value. The reader returns a value exactly
  for the texts that the grammar gives to it.
\<close>

section \<open>Strings\<close>

text \<open>\<open>string_text s t\<close>: \<open>t\<close> stands between the quotes of a string with the value \<open>s\<close>.\<close>

definition hex_text :: "qchar \<Rightarrow> qstring \<Rightarrow> bool" where
  "hex_text c t \<longleftrightarrow> length t = 4 \<and> hex_value 0 t = Some c"

definition is_surrogate :: "qchar \<Rightarrow> bool" where
  "is_surrogate c \<longleftrightarrow> is_high_surrogate c \<or> is_low_surrogate c"

inductive string_text :: "qstring \<Rightarrow> qstring \<Rightarrow> bool" where
  text_end: "string_text [] []"
| text_plain: "0x20 \<le> c \<Longrightarrow> c \<noteq> 0x22 \<Longrightarrow> c \<noteq> 0x5C \<Longrightarrow> \<not> is_surrogate c \<Longrightarrow> string_text s t \<Longrightarrow> string_text (c # s) (c # t)"
| text_pair: "is_high_surrogate h \<Longrightarrow> is_low_surrogate l \<Longrightarrow> string_text s t \<Longrightarrow> string_text (h # l # s) (h # l # t)"
| text_escape: "simple_escape e = Some c \<Longrightarrow> string_text s t \<Longrightarrow> string_text (c # s) (0x5C # e # t)"
| text_unicode: "hex_text c x \<Longrightarrow> \<not> is_surrogate c \<Longrightarrow> string_text s t \<Longrightarrow> string_text (c # s) (0x5C # 0x75 # x @ t)"
| text_unicode_pair: "hex_text h x \<Longrightarrow> hex_text l y \<Longrightarrow> is_high_surrogate h \<Longrightarrow> is_low_surrogate l \<Longrightarrow> string_text s t \<Longrightarrow>
    string_text (h # l # s) (0x5C # 0x75 # x @ 0x5C # 0x75 # y @ t)"

lemma read_hex_iff: "read_hex_code_unit p r = Inr (c, r') \<longleftrightarrow> (\<exists>x. hex_text c x \<and> r = x @ r')"
proof
  assume "read_hex_code_unit p r = Inr (c, r')"
  then have "hex_text c (take 4 r)" "r' = drop 4 r"
    by (auto simp: read_hex_code_unit_def hex_text_def split: if_splits option.splits)
  then show "\<exists>x. hex_text c x \<and> r = x @ r'" by (metis append_take_drop_id)
next
  assume "\<exists>x. hex_text c x \<and> r = x @ r'"
  then show "read_hex_code_unit p r = Inr (c, r')" by (auto simp: read_hex_code_unit_def hex_text_def)
qed

lemma surrogate_kinds: "is_high_surrogate c \<Longrightarrow> \<not> is_low_surrogate c"
  by (auto simp: is_high_surrogate_def is_low_surrogate_def word_le_nat_alt)

lemma high_surrogate_plain: "is_high_surrogate h \<Longrightarrow> \<not> h < 0x20 \<and> h \<noteq> 0x22 \<and> h \<noteq> 0x5C"
  by (auto simp: is_high_surrogate_def word_le_nat_alt word_less_nat_alt)

lemma read_unicode_iff:
  "read_unicode_escape p r = Inr (u, r') \<longleftrightarrow>
     (\<exists>c x. hex_text c x \<and> \<not> is_surrogate c \<and> u = [c] \<and> r = x @ r')
     \<or> (\<exists>h x l y. hex_text h x \<and> hex_text l y \<and> is_high_surrogate h \<and> is_low_surrogate l
          \<and> u = [h, l] \<and> r = x @ 0x5C # 0x75 # y @ r')" (is "?read \<longleftrightarrow> ?one \<or> ?two")
proof
  assume ?read
  then obtain c r1 where c: "read_hex_code_unit p r = Inr (c, r1)"
    by (auto simp: read_unicode_escape_def split: sum.splits)
  then obtain x where x: "hex_text c x" "r = x @ r1" using read_hex_iff by blast
  show "?one \<or> ?two"
  proof (cases "is_high_surrogate c")
    case False
    with \<open>?read\<close> c have "\<not> is_low_surrogate c" "u = [c]" "r1 = r'"
      by (auto simp: read_unicode_escape_def split: if_splits)
    with False x show ?thesis by (auto simp: is_surrogate_def)
  next
    case True
    with \<open>?read\<close> c have r1: "\<not> (length r1 < 2 \<or> r1 ! 0 \<noteq> 0x5C \<or> r1 ! 1 \<noteq> 0x75)"
      by (auto simp: read_unicode_escape_def split: if_splits)
    then obtain r2 where r2: "r1 = 0x5C # 0x75 # r2" by (cases r1; cases "tl r1") auto
    with \<open>?read\<close> c True obtain l where l: "read_hex_code_unit p r2 = Inr (l, r')" "is_low_surrogate l" "u = [c, l]"
      by (auto simp: read_unicode_escape_def split: if_splits sum.splits)
    then obtain y where "hex_text l y" "r2 = y @ r'" using read_hex_iff by blast
    with x r2 l True show ?thesis by blast
  qed
next
  have hex: "hex_text c x \<Longrightarrow> read_hex_code_unit p (x @ t) = Inr (c, t)" for c x t using read_hex_iff by blast
  assume "?one \<or> ?two"
  then show ?read by (auto simp: read_unicode_escape_def hex is_surrogate_def)
qed

lemma read_string_sound:
  "read_string p acc r = Inr (v, r') \<Longrightarrow> \<exists>s t. v = acc @ s \<and> string_text s t \<and> r = t @ 0x22 # r'"
proof (induction "length r" arbitrary: acc r rule: less_induct)
  case less
  note IH = less.hyps
  obtain c r1 where r: "r = c # r1" using less.prems by (cases r) auto
  show ?case
  proof (cases "c = 0x22")
    case True
    with less.prems r have "v = acc @ []" "r = [] @ 0x22 # r'" by auto
    with text_end show ?thesis by blast
  next
    case False
    note quote = this
    show ?thesis
    proof (cases "c = 0x5C")
      case False
      with quote less.prems r have c: "0x20 \<le> c" by (auto split: if_splits)
      show ?thesis
      proof (cases "is_high_surrogate c")
        case True
        with less.prems r False quote c obtain l r2 where l: "r1 = l # r2" "is_low_surrogate l"
          "read_string p (acc @ [c, l]) r2 = Inr (v, r')" by (auto split: if_splits list.splits)
        from IH [OF _ l(3)] r l(1) obtain s t where "v = (acc @ [c, l]) @ s" "string_text s t" "r2 = t @ 0x22 # r'" by auto
        with r l True show ?thesis
          by (intro exI [of _ "c # l # s"] exI [of _ "c # l # t"]) (simp add: text_pair)
      next
        case high: False
        with less.prems r False quote c have l: "\<not> is_low_surrogate c" "read_string p (acc @ [c]) r1 = Inr (v, r')"
          by (auto split: if_splits)
        from IH [OF _ l(2)] r obtain s t where "v = (acc @ [c]) @ s" "string_text s t" "r1 = t @ 0x22 # r'" by auto
        with r l high False quote c show ?thesis
          by (intro exI [of _ "c # s"] exI [of _ "c # t"]) (simp add: text_plain is_surrogate_def)
      qed
    next
      case True
      with less.prems r obtain e r2 where e: "r1 = e # r2" by (auto split: list.splits)
      show ?thesis
      proof (cases "simple_escape e")
        case (Some x)
        with less.prems r True e have l: "read_string p (acc @ [x]) r2 = Inr (v, r')" by auto
        from IH [OF _ l] r e obtain s t where "v = (acc @ [x]) @ s" "string_text s t" "r2 = t @ 0x22 # r'" by auto
        with r e Some True show ?thesis
          by (intro exI [of _ "x # s"] exI [of _ "0x5C # e # t"]) (simp add: text_escape)
      next
        case None
        with less.prems r True e obtain u r3 where u: "e = 0x75" "read_unicode_escape p r2 = Inr (u, r3)"
          "read_string p (acc @ u) r3 = Inr (v, r')" by (auto split: if_splits sum.splits)
        have "length r3 < length r" using read_unicode_escape_rest [OF u(2)] r e by simp
        from IH [OF this u(3)] obtain s t where st: "v = (acc @ u) @ s" "string_text s t" "r3 = t @ 0x22 # r'" by auto
        from u(2) consider (one) a x where "hex_text a x" "\<not> is_surrogate a" "u = [a]" "r2 = x @ r3"
          | (two) h x l y where "hex_text h x" "hex_text l y" "is_high_surrogate h" "is_low_surrogate l" "u = [h, l]"
            "r2 = x @ 0x5C # 0x75 # y @ r3" unfolding read_unicode_iff by blast
        then show ?thesis
        proof cases
          case one
          with st r e True u(1) show ?thesis
            by (intro exI [of _ "a # s"] exI [of _ "0x5C # 0x75 # x @ t"]) (simp add: text_unicode)
        next
          case two
          with st r e True u(1) show ?thesis
            by (intro exI [of _ "h # l # s"] exI [of _ "0x5C # 0x75 # x @ 0x5C # 0x75 # y @ t"]) (simp add: text_unicode_pair)
        qed
      qed
    qed
  qed
qed

lemma read_string_complete: "string_text s t \<Longrightarrow> read_string p acc (t @ 0x22 # r) = Inr (acc @ s, r)"
proof (induction arbitrary: acc rule: string_text.induct)
  case (text_plain c s t)
  then have "\<not> c < 0x20" by (simp add: not_less)
  with text_plain show ?case by (simp add: is_surrogate_def)
next
  case (text_pair h l s t)
  with high_surrogate_plain [of h] show ?case by simp
next
  case (text_unicode c x s t)
  then have "read_unicode_escape p (x @ t @ 0x22 # r) = Inr ([c], t @ 0x22 # r)" for p unfolding read_unicode_iff by blast
  with text_unicode show ?case by (simp add: simple_escape_def)
next
  case (text_unicode_pair h x l y s t)
  then have "read_unicode_escape p (x @ 0x5C # 0x75 # y @ t @ 0x22 # r) = Inr ([h, l], t @ 0x22 # r)" for p
    unfolding read_unicode_iff by blast
  with text_unicode_pair show ?case by (simp add: simple_escape_def)
qed simp_all

section \<open>Numbers\<close>

text \<open>The number literals of the grammar: no leading zeros.\<close>

definition literal_ok :: "number_parts \<Rightarrow> bool" where
  "literal_ok n \<longleftrightarrow> parts_ok n \<and> (hd (np_integer n) = 0x30 \<longrightarrow> np_integer n = [0x30])"

text \<open>What follows a value in a document.\<close>

definition ends_value :: "qstring \<Rightarrow> bool" where
  "ends_value r \<longleftrightarrow> (case r of [] \<Rightarrow> True | c # _ \<Rightarrow> is_json_space c \<or> c \<in> {0x2C, 0x5D, 0x7D})"

text \<open>The literal denotes the number Qt converts it to, and keeps its value when it is written.\<close>

definition number_reads :: "qt_env \<Rightarrow> qstring \<Rightarrow> rat \<Rightarrow> bool" where
  "number_reads E t x \<longleftrightarrow> qt_to_double E t = Some x \<and> normalize_json_number t \<noteq> None
     \<and> normalize_json_number (serialized_json_number E x) = normalize_json_number t"

lemma stop_digits: "list_all is_ascii_digit ds \<Longrightarrow> r = [] \<or> \<not> is_ascii_digit (hd r) \<Longrightarrow> skip_digits (ds @ r) = r"
  by (cases r) (auto simp: skip_digits_def list_all_iff dropWhile_append2)

lemma ends_value_head:
  assumes "ends_value r"
  shows "r = [] \<or> \<not> is_ascii_digit (hd r)" "r = [] \<or> hd r \<notin> {0x2E, 0x65, 0x45}"
  using assms by (cases r; force simp: ends_value_def is_json_space_def is_ascii_digit_def)+

lemma scan_exponent_complete:
  assumes "exponent_ok ex" "ends_value r"
  shows "scan_exponent ((case ex of None \<Rightarrow> [] | Some (e, sg, ds) \<Rightarrow> e # sg @ ds) @ r) = Some r"
proof (cases ex)
  case None
  with ends_value_head(2) [OF assms(2)] show ?thesis by (cases r) (auto simp: scan_exponent_def)
next
  case (Some a)
  obtain e sg ds where a: "a = (e, sg, ds)" by (cases a)
  have ds: "e = 0x65 \<or> e = 0x45" "sg \<in> {[], [0x2B], [0x2D]}" "ds \<noteq> []" "list_all is_ascii_digit ds"
    using assms(1) by (auto simp: Some a exponent_ok_def)
  then have "is_ascii_digit (hd ds)" "hd ds \<noteq> 0x2B" "hd ds \<noteq> 0x2D" by (cases ds; auto simp: is_ascii_digit_def)+
  with ds stop_digits [OF ds(4) ends_value_head(1) [OF assms(2)]] show ?thesis
    by (auto simp: scan_exponent_def Some a Let_def hd_append)
qed

lemma exponent_head:
  assumes "exponent_ok ex" "ends_value r"
  defines "x \<equiv> (case ex of None \<Rightarrow> [] | Some (e, sg, ds) \<Rightarrow> e # sg @ ds) @ r"
  shows "x = [] \<or> \<not> is_ascii_digit (hd x)" "x = [] \<or> hd x \<noteq> 0x2E"
  using ends_value_head [OF assms(2)] assms(1)
  by (auto simp: x_def exponent_ok_def is_ascii_digit_def split: option.splits)

lemma scan_fraction_complete:
  assumes "list_all is_ascii_digit fp" "x = [] \<or> \<not> is_ascii_digit (hd x)" "x = [] \<or> hd x \<noteq> 0x2E"
  shows "scan_fraction ((if fp = [] then [] else 0x2E # fp) @ x) = Some x"
proof (cases fp)
  case Nil
  with assms show ?thesis by (cases x) (auto simp: scan_fraction_def)
next
  case (Cons c s)
  with assms(1) stop_digits [OF assms(1,2)] show ?thesis by (simp add: scan_fraction_def)
qed

lemma scan_integer_complete:
  assumes "ip \<noteq> []" "list_all is_ascii_digit ip" "hd ip = 0x30 \<longrightarrow> ip = [0x30]" "x = [] \<or> \<not> is_ascii_digit (hd x)"
  shows "scan_integer_part (ip @ x) = Some x"
proof -
  obtain c s where c: "ip = c # s" using assms(1) by (cases ip) auto
  have "c \<noteq> 0x30 \<Longrightarrow> 0x31 \<le> c \<and> c \<le> 0x39"
    using assms(2) c by (auto simp: is_ascii_digit_def word_le_nat_alt word_unat_eq_iff)
  with assms(3,4) c stop_digits [OF assms(2,4)] show ?thesis by (auto simp: scan_integer_part_def)
qed

lemma scan_number_complete:
  assumes "literal_ok n" "ends_value r"
  shows "scan_number (number_text n @ r) = Some r"
proof -
  have ok: "np_integer n \<noteq> []" "list_all is_ascii_digit (np_integer n)" "hd (np_integer n) = 0x30 \<longrightarrow> np_integer n = [0x30]"
    "list_all is_ascii_digit (np_fraction n)" "exponent_ok (np_exponent n)"
    using assms(1) by (simp_all add: literal_ok_def parts_ok_def)
  define x where "x = (case np_exponent n of None \<Rightarrow> [] | Some (e, sg, ds) \<Rightarrow> e # sg @ ds) @ r"
  define y where "y = (if np_fraction n = [] then [] else 0x2E # np_fraction n) @ x"
  note head = exponent_head [OF ok(5) assms(2), folded x_def]
  have y: "y = [] \<or> \<not> is_ascii_digit (hd y)" using head(1) by (auto simp: y_def is_ascii_digit_def)
  have "hd (np_integer n) \<noteq> 0x2D" using ok(1,2) by (cases "np_integer n") (auto simp: is_ascii_digit_def)
  then have "number_text n @ r = (if np_negative n then [0x2D] else []) @ np_integer n @ y"
    and "hd (np_integer n @ y) \<noteq> 0x2D" using ok(1) by (simp_all add: number_text_def x_def y_def)
  then show ?thesis
    using scan_integer_complete [OF ok(1-3) y] scan_fraction_complete [OF ok(4) head, folded y_def]
      scan_exponent_complete [OF ok(5) assms(2), folded x_def]
    by (auto simp: scan_number_def)
qed

lemma scan_integer_sound:
  assumes "scan_integer_part r = Some r'"
  shows "\<exists>ds. ds \<noteq> [] \<and> list_all is_ascii_digit ds \<and> (hd ds = 0x30 \<longrightarrow> ds = [0x30]) \<and> r = ds @ r'"
proof (cases "r \<noteq> [] \<and> hd r = 0x30")
  case True
  with assms have "r = [0x30] @ r'" by (cases r) (auto simp: scan_integer_part_def split: if_splits)
  then show ?thesis by (intro exI [of _ "[0x30]"]) (simp add: is_ascii_digit_def)
next
  case False
  from scan_integer_part_split [OF assms] obtain ds where "ds \<noteq> []" "list_all is_ascii_digit ds" "r = ds @ r'" by blast
  with False show ?thesis by (intro exI [of _ ds]) auto
qed

lemma scan_number_sound:
  assumes "scan_number r = Some r'"
  shows "\<exists>n. literal_ok n \<and> r = number_text n @ r'"
proof -
  define neg where "neg \<longleftrightarrow> r \<noteq> [] \<and> hd r = 0x2D"
  from assms obtain r1 r2 where i: "scan_integer_part (if neg then tl r else r) = Some r1"
    and f: "scan_fraction r1 = Some r2" and e: "scan_exponent r2 = Some r'"
    by (auto simp: scan_number_def neg_def split: option.splits)
  obtain ip where ip: "ip \<noteq> []" "list_all is_ascii_digit ip" "hd ip = 0x30 \<longrightarrow> ip = [0x30]" "(if neg then tl r else r) = ip @ r1"
    using scan_integer_sound [OF i] by blast
  obtain fp where fp: "list_all is_ascii_digit fp" "r1 = (if fp = [] then [] else 0x2E # fp) @ r2"
    using scan_fraction_split [OF f] by blast
  obtain ex where ex: "exponent_ok ex" "r2 = (case ex of None \<Rightarrow> [] | Some (e, sg, ds) \<Rightarrow> e # sg @ ds) @ r'"
    using scan_exponent_split [OF e] by blast
  let ?n = "\<lparr>np_negative = neg, np_integer = ip, np_fraction = fp, np_exponent = ex\<rparr>"
  have "r = (if neg then [0x2D] else []) @ ip @ r1" using ip(4) by (cases r) (auto simp: neg_def)
  then have "r = number_text ?n @ r'" using fp(2) ex(2) by (simp add: number_text_def)
  moreover have "literal_ok ?n" using ip fp ex by (simp add: literal_ok_def parts_ok_def)
  ultimately show ?thesis by blast
qed

lemma read_number_sound:
  assumes "read_number E p r = Inr (v, r')"
  shows "\<exists>n x. literal_ok n \<and> number_reads E (number_text n) x \<and> v = JNum x \<and> r = number_text n @ r'"
proof -
  obtain r1 where s: "scan_number r = Some r1" using assms by (auto simp: read_number_def Let_def split: option.splits)
  obtain n where n: "literal_ok n" "r = number_text n @ r1" using scan_number_sound [OF s] by blast
  then have "take (length r - length r1) r = number_text n" by simp
  with assms s have "r1 = r' \<and> (\<exists>x. v = JNum x \<and> number_reads E (number_text n) x)"
    by (auto simp: read_number_def number_reads_def Let_def split: option.splits if_splits)
  with n show ?thesis by blast
qed

lemma read_number_complete:
  assumes "literal_ok n" "number_reads E (number_text n) x" "ends_value r"
  shows "read_number E p (number_text n @ r) = Inr (JNum x, r)"
  using scan_number_complete [OF assms(1,3)] assms(2) by (auto simp: read_number_def number_reads_def Let_def)

lemma number_text_head:
  assumes "literal_ok n"
  shows "\<exists>c t. number_text n = c # t \<and> (c = 0x2D \<or> is_ascii_digit c)"
  using assms by (cases "np_integer n") (auto simp: literal_ok_def parts_ok_def number_text_def)

section \<open>Values\<close>

definition space_text :: "qstring \<Rightarrow> bool" where
  "space_text w \<longleftrightarrow> list_all is_json_space w"

text \<open>
  \<open>value_text E D d v t\<close>: the text \<open>t\<close> denotes \<open>v\<close> at depth \<open>d\<close>, when containers may nest to depth \<open>D\<close>;
  the elements and members are those of a container at depth \<open>d\<close>, with the space around them.
\<close>

inductive value_text :: "qt_env \<Rightarrow> int \<Rightarrow> int \<Rightarrow> json \<Rightarrow> qstring \<Rightarrow> bool"
  and elements_text :: "qt_env \<Rightarrow> int \<Rightarrow> int \<Rightarrow> json list \<Rightarrow> qstring \<Rightarrow> bool"
  and members_text :: "qt_env \<Rightarrow> int \<Rightarrow> int \<Rightarrow> (qstring \<times> json) list \<Rightarrow> qstring \<Rightarrow> bool"
  for E D where
  value_null: "value_text E D d JNull (Q ''null'')"
| value_true: "value_text E D d (JBool True) (Q ''true'')"
| value_false: "value_text E D d (JBool False) (Q ''false'')"
| value_number: "literal_ok n \<Longrightarrow> number_reads E (number_text n) x \<Longrightarrow> value_text E D d (JNum x) (number_text n)"
| value_string: "string_text s t \<Longrightarrow> value_text E D d (JStr s) (0x22 # t @ [0x22])"
| value_no_elements: "d \<le> D \<Longrightarrow> space_text w \<Longrightarrow> value_text E D d (JArr []) (0x5B # w @ [0x5D])"
| value_elements: "d \<le> D \<Longrightarrow> elements_text E D d vs t \<Longrightarrow> value_text E D d (JArr vs) (0x5B # t @ [0x5D])"
| value_no_members: "d \<le> D \<Longrightarrow> space_text w \<Longrightarrow> value_text E D d (JObj []) (0x7B # w @ [0x7D])"
| value_members: "d \<le> D \<Longrightarrow> members_text E D d m t \<Longrightarrow> distinct (map fst m) \<Longrightarrow>
    value_text E D d (JObj (fold (\<lambda>(k, v). om_insert k v) m [])) (0x7B # t @ [0x7D])"
| elements_last: "space_text w \<Longrightarrow> value_text E D (d + 1) v t \<Longrightarrow> space_text z \<Longrightarrow> elements_text E D d [v] (w @ t @ z)"
| elements_more: "space_text w \<Longrightarrow> value_text E D (d + 1) v t \<Longrightarrow> space_text z \<Longrightarrow> elements_text E D d vs u \<Longrightarrow>
    elements_text E D d (v # vs) (w @ t @ z @ 0x2C # u)"
| members_last: "space_text w \<Longrightarrow> string_text k s \<Longrightarrow> space_text x \<Longrightarrow> space_text y \<Longrightarrow> value_text E D (d + 1) v t \<Longrightarrow>
    space_text z \<Longrightarrow> members_text E D d [(k, v)] (w @ 0x22 # s @ 0x22 # x @ 0x3A # y @ t @ z)"
| members_more: "space_text w \<Longrightarrow> string_text k s \<Longrightarrow> space_text x \<Longrightarrow> space_text y \<Longrightarrow> value_text E D (d + 1) v t \<Longrightarrow>
    space_text z \<Longrightarrow> members_text E D d m u \<Longrightarrow>
    members_text E D d ((k, v) # m) (w @ 0x22 # s @ 0x22 # x @ 0x3A # y @ t @ z @ 0x2C # u)"

section \<open>Every text of the grammar is read\<close>

lemma skip_space: "space_text w \<Longrightarrow> skip_whitespace (w @ r) = skip_whitespace r"
  by (induction w) (simp_all add: space_text_def skip_whitespace_def)

lemma skip_split: "\<exists>w. space_text w \<and> r = w @ skip_whitespace r"
proof (intro exI conjI)
  show "space_text (takeWhile is_json_space r)"
    unfolding space_text_def list_all_iff using set_takeWhileD [of _ is_json_space r] by blast
  show "r = takeWhile is_json_space r @ skip_whitespace r" by (simp add: skip_whitespace_def)
qed

lemma skip_head: "\<not> is_json_space c \<Longrightarrow> skip_whitespace (c # r) = c # r"
  by (simp add: skip_whitespace_def)

lemma separators: "\<not> is_json_space 0x2C" "\<not> is_json_space 0x5D" "\<not> is_json_space 0x7D" "\<not> is_json_space 0x3A"
  "\<not> is_json_space 0x22" "\<not> is_json_space 0x7B" "\<not> is_json_space 0x5B"
  by (simp_all add: is_json_space_def)

lemma ends_value_space: "space_text z \<Longrightarrow> c \<in> {0x2C, 0x5D, 0x7D} \<Longrightarrow> ends_value (z @ c # r)"
  by (cases z) (auto simp: ends_value_def space_text_def)

lemma value_head:
  assumes "value_text E D d v t"
  shows "\<exists>c s. t = c # s \<and> \<not> is_json_space c \<and> c \<noteq> 0x5D \<and> c \<noteq> 0x7D"
  using assms
proof (cases rule: value_text.cases)
  case (value_number n x)
  with number_text_head [of n] show ?thesis by (auto simp: is_json_space_def is_ascii_digit_def)
qed (auto simp: Q_def is_json_space_def)

lemma value_skip: "value_text E D d v t \<Longrightarrow> skip_whitespace (t @ r) = t @ r"
  using value_head [of E D d v t] by (auto simp: skip_head)

lemma elements_head:
  assumes "elements_text E D d vs t"
  shows "skip_whitespace (t @ r) \<noteq> [] \<and> hd (skip_whitespace (t @ r)) \<noteq> 0x5D"
  using assms
proof (cases rule: elements_text.cases)
  case (elements_last w v s z)
  then show ?thesis using value_head [of E D "d + 1" v s] by (auto simp: skip_space skip_head)
next
  case (elements_more w v s z ws u)
  then show ?thesis using value_head [of E D "d + 1" v s] by (auto simp: skip_space skip_head)
qed

lemma members_head: "members_text E D d m t \<Longrightarrow> skip_whitespace (t @ r) \<noteq> [] \<and> hd (skip_whitespace (t @ r)) \<noteq> 0x7D"
  by (cases rule: members_text.cases) (auto simp: skip_space skip_head separators)

abbreviation insert_member :: "qstring \<times> json \<Rightarrow> json qmap \<Rightarrow> json qmap" where
  "insert_member \<equiv> \<lambda>(k, v). om_insert k v"

text \<open>One member of an object, when its key and colon are in place.\<close>

lemma read_member:
  assumes "skip_whitespace u = 0x22 # q" "read_string p [] q = Inr (l, r1)" "l \<notin> set keys" "skip_whitespace r1 = 0x3A # r2"
  shows "read_members rv (Suc n) p d keys obj u = Some res \<Longrightarrow>
      \<exists>v. rv (child_path p l) (d + 1) r2 = Some v"
    "rv (child_path p l) (d + 1) r2 = Some (Inr (v, r3)) \<Longrightarrow> skip_whitespace r3 = 0x7D # r \<Longrightarrow>
      read_members rv (Suc n) p d keys obj u = Some (Inr (om_insert l v obj, r))"
    "rv (child_path p l) (d + 1) r2 = Some (Inr (v, r3)) \<Longrightarrow> skip_whitespace r3 = 0x2C # r \<Longrightarrow>
      read_members rv (Suc n) p d keys obj u = read_members rv n p d (l # keys) (om_insert l v obj) r"
  using assms by (auto simp: Let_def split: option.splits)

lemma text_complete:
  "value_text E D d v t \<Longrightarrow> skip_whitespace u = t @ r \<Longrightarrow> ends_value r \<Longrightarrow> read_value E D n p d u = Some res \<Longrightarrow> res = Inr (v, r)"
  "elements_text E D d vs t \<Longrightarrow> skip_whitespace u = skip_whitespace (t @ 0x5D # r) \<Longrightarrow>
    read_elements (read_value E D k) n p d i acc u = Some res' \<Longrightarrow> res' = Inr (acc @ vs, r)"
  "members_text E D d m t \<Longrightarrow> skip_whitespace u = skip_whitespace (t @ 0x7D # r) \<Longrightarrow> distinct (map fst m) \<Longrightarrow>
    set (map fst m) \<inter> set keys = {} \<Longrightarrow>
    read_members (read_value E D k) n p d keys obj u = Some res'' \<Longrightarrow> res'' = Inr (fold insert_member m obj, r)"
proof (induction arbitrary: u r n p res and u r k n p i acc res' and u r k n p keys obj res''
    rule: value_text_elements_text_members_text.inducts)
  case (value_null d)
  then show ?case by (cases n) (auto simp: Q_def read_literal_def)
next
  case (value_true d)
  then show ?case by (cases n) (auto simp: Q_def read_literal_def)
next
  case (value_false d)
  then show ?case by (cases n) (auto simp: Q_def read_literal_def)
next
  case (value_number l x d)
  obtain c s where c: "number_text l = c # s" "c = 0x2D \<or> is_ascii_digit c" using number_text_head [OF value_number(1)] by blast
  then have "c \<notin> {0x7B, 0x5B, 0x22, 0x74, 0x66, 0x6E}" by (auto simp: is_ascii_digit_def)
  with c value_number read_number_complete [OF value_number(1,2,4)] show ?case by (cases n) auto
next
  case (value_string s t d)
  with read_string_complete [of s t _ "[]" r] show ?case by (cases n) (auto simp: map_read_def)
next
  case (value_no_elements d w)
  then show ?case by (cases n) (auto simp: read_array_def skip_space skip_head separators map_read_def Let_def)
next
  case (value_elements d vs t)
  obtain n' where n: "n = Suc n'" using value_elements.prems(3) by (cases n) auto
  have u: "skip_whitespace u = 0x5B # t @ 0x5D # r" using value_elements.prems(1) by simp
  note head = elements_head [OF value_elements(2), of "0x5D # r"]
  have "skip_whitespace (skip_whitespace s) = skip_whitespace s" for s by (simp add: skip_whitespace_def)
  then have "res' = Inr ([] @ vs, r)"
    if "read_elements (read_value E D n') n' p d 0 [] (skip_whitespace (t @ 0x5D # r)) = Some res'" for res'
    using value_elements(3) that by blast
  with value_elements.prems(3) value_elements(1) head show ?case
    by (auto simp: n u read_array_def map_read_def Let_def)
next
  case (value_no_members d w)
  then show ?case by (cases n) (auto simp: read_object_def skip_space skip_head separators map_read_def Let_def)
next
  case (value_members d m t)
  obtain n' where n: "n = Suc n'" using value_members.prems(3) by (cases n) auto
  have u: "skip_whitespace u = 0x7B # t @ 0x7D # r" using value_members.prems(1) by simp
  note head = members_head [OF value_members(2), of "0x7D # r"]
  have "skip_whitespace (skip_whitespace s) = skip_whitespace s" for s by (simp add: skip_whitespace_def)
  then have "res' = Inr (fold insert_member m [], r)"
    if "read_members (read_value E D n') n' p d [] [] (skip_whitespace (t @ 0x7D # r)) = Some res'" for res'
    using that value_members(3) [OF _ value_members(4), of "skip_whitespace (t @ 0x7D # r)" r "[]"] by fastforce
  with value_members.prems(3) value_members(1) head show ?case
    by (auto simp: n u read_object_def map_read_def Let_def)
next
  case (elements_last w d v t z)
  obtain n' where n: "n = Suc n'" using elements_last.prems(2) by (cases n) auto
  have "skip_whitespace u = t @ z @ 0x5D # r"
    using elements_last by (simp add: skip_space value_skip)
  then have "res = Inr (v, z @ 0x5D # r)" if "read_value E D k q (d + 1) u = Some res" for q res
    using elements_last(4) that ends_value_space [OF elements_last(2)] by blast
  then have "read_value E D k (index_path p i) (d + 1) u = Some (Inr (v, z @ 0x5D # r))"
    using elements_last.prems(2) by (cases "read_value E D k (index_path p i) (d + 1) u") (auto simp: n)
  with elements_last.prems(2) elements_last(2) show ?case by (simp add: n skip_space skip_head separators)
next
  case (elements_more w d v t z vs s)
  obtain n' where n: "n = Suc n'" using elements_more.prems(2) by (cases n) auto
  have "skip_whitespace u = t @ z @ 0x2C # s @ 0x5D # r"
    using elements_more by (simp add: skip_space value_skip)
  then have "res = Inr (v, z @ 0x2C # s @ 0x5D # r)" if "read_value E D k q (d + 1) u = Some res" for q res
    using elements_more(4) that ends_value_space [OF elements_more(2)] by blast
  then have "read_value E D k (index_path p i) (d + 1) u = Some (Inr (v, z @ 0x2C # s @ 0x5D # r))"
    using elements_more.prems(2) by (cases "read_value E D k (index_path p i) (d + 1) u") (auto simp: n)
  with elements_more.prems(2) elements_more(2)
  have "read_elements (read_value E D k) n' p d (Suc i) (acc @ [v]) (s @ 0x5D # r) = Some res'"
    by (simp add: n skip_space skip_head separators)
  with elements_more(6) [OF refl, of k n' p "Suc i" "acc @ [v]" r res'] show ?case by simp
next
  case (members_last w l s x y d v t z)
  obtain n' where n: "n = Suc n'" using members_last.prems(4) by (cases n) auto
  have u: "skip_whitespace u = 0x22 # s @ 0x22 # x @ 0x3A # y @ t @ z @ 0x7D # r"
    using members_last by (simp add: skip_space skip_head separators)
  have l: "read_string p [] (s @ 0x22 # x @ 0x3A # y @ t @ z @ 0x7D # r) = Inr (l, x @ 0x3A # y @ t @ z @ 0x7D # r)"
    using read_string_complete [OF members_last(2), of p "[]"] by simp
  have fresh: "l \<notin> set keys" using members_last.prems(3) by simp
  have colon: "skip_whitespace (x @ 0x3A # y @ t @ z @ 0x7D # r) = 0x3A # y @ t @ z @ 0x7D # r"
    using members_last(3) by (simp add: skip_space skip_head separators)
  have "skip_whitespace (y @ t @ z @ 0x7D # r) = t @ z @ 0x7D # r"
    using members_last(4,6) by (simp add: skip_space value_skip)
  then have "res = Inr (v, z @ 0x7D # r)" if "read_value E D k q (d + 1) (y @ t @ z @ 0x7D # r) = Some res" for q res
    using members_last(7) that ends_value_space [OF members_last(5)] by blast
  then have "read_value E D k (child_path p l) (d + 1) (y @ t @ z @ 0x7D # r) = Some (Inr (v, z @ 0x7D # r))"
    using members_last.prems(4) read_member(1) [OF u l fresh colon] unfolding n by blast
  moreover have "skip_whitespace (z @ 0x7D # r) = 0x7D # r"
    using members_last(5) by (simp add: skip_space skip_head separators)
  ultimately show ?case
    using members_last.prems(4) read_member(2) [OF u l fresh colon] unfolding n by fastforce
next
  case (members_more w l s x y d v t z m w')
  obtain n' where n: "n = Suc n'" using members_more.prems(4) by (cases n) auto
  let ?rest = "w' @ 0x7D # r"
  have u: "skip_whitespace u = 0x22 # s @ 0x22 # x @ 0x3A # y @ t @ z @ 0x2C # ?rest"
    using members_more by (simp add: skip_space skip_head separators)
  have l: "read_string p [] (s @ 0x22 # x @ 0x3A # y @ t @ z @ 0x2C # ?rest) = Inr (l, x @ 0x3A # y @ t @ z @ 0x2C # ?rest)"
    using read_string_complete [OF members_more(2), of p "[]"] by simp
  have fresh: "l \<notin> set keys" using members_more.prems(3) by simp
  have colon: "skip_whitespace (x @ 0x3A # y @ t @ z @ 0x2C # ?rest) = 0x3A # y @ t @ z @ 0x2C # ?rest"
    using members_more(3) by (simp add: skip_space skip_head separators)
  have "skip_whitespace (y @ t @ z @ 0x2C # ?rest) = t @ z @ 0x2C # ?rest"
    using members_more(4,6) by (simp add: skip_space value_skip)
  then have "res = Inr (v, z @ 0x2C # ?rest)" if "read_value E D k q (d + 1) (y @ t @ z @ 0x2C # ?rest) = Some res" for q res
    using members_more(7) that ends_value_space [OF members_more(5)] by blast
  then have "read_value E D k (child_path p l) (d + 1) (y @ t @ z @ 0x2C # ?rest) = Some (Inr (v, z @ 0x2C # ?rest))"
    using members_more.prems(4) read_member(1) [OF u l fresh colon] unfolding n by blast
  moreover have "skip_whitespace (z @ 0x2C # ?rest) = 0x2C # ?rest"
    using members_more(5) by (simp add: skip_space skip_head separators)
  ultimately have "read_members (read_value E D k) n' p d (l # keys) (om_insert l v obj) ?rest = Some res''"
    using members_more.prems(4) read_member(3) [OF u l fresh colon] unfolding n by metis
  moreover have "distinct (map fst m)" "set (map fst m) \<inter> set (l # keys) = {}"
    using members_more.prems(2,3) by auto
  ultimately have "res'' = Inr (fold insert_member m (om_insert l v obj), r)"
    using members_more(9) [OF refl, of "l # keys" k n' p "om_insert l v obj" r res''] by blast
  then show ?case by simp
qed

section \<open>Everything that is read is a text of the grammar\<close>

definition reads_text :: "qt_env \<Rightarrow> int \<Rightarrow> value_reader \<Rightarrow> bool" where
  "reads_text E D rv \<longleftrightarrow> (\<forall>p d r v r'. rv p d r = Some (Inr (v, r')) \<longrightarrow>
     (\<exists>w t. space_text w \<and> value_text E D d v t \<and> r = w @ t @ r'))"

lemma space_before: "\<exists>w. space_text w \<and> r = w @ skip_whitespace r"
  by (rule skip_split)

lemma read_elements_sound:
  assumes rv: "reads_text E D rv"
  shows "read_elements rv n p d i acc r = Some (Inr (vs, r')) \<Longrightarrow>
    \<exists>ws t. vs = acc @ ws \<and> elements_text E D d ws t \<and> r = t @ 0x5D # r'"
proof (induction n arbitrary: i acc r)
  case (Suc n)
  obtain v r1 where v: "rv (index_path p i) (d + 1) r = Some (Inr (v, r1))"
    using Suc.prems by (auto split: option.splits sum.splits)
  then obtain w t where t: "space_text w" "value_text E D (d + 1) v t" "r = w @ t @ r1" using rv unfolding reads_text_def by blast
  obtain z where z: "space_text z" "r1 = z @ skip_whitespace r1" using space_before by blast
  consider (stop) "skip_whitespace r1 = 0x5D # r'" "vs = acc @ [v]"
    | (more) s where "skip_whitespace r1 = 0x2C # s" "read_elements rv n p d (Suc i) (acc @ [v]) s = Some (Inr (vs, r'))"
    using Suc.prems v by (cases "skip_whitespace r1") (auto simp: Let_def split: if_splits)
  then show ?case
  proof cases
    case stop
    have "elements_text E D d [v] (w @ t @ z)" by (rule elements_last [OF t(1,2) z(1)])
    moreover have "r = (w @ t @ z) @ 0x5D # r'" using t(3) z(2) stop(1) by (metis append.assoc)
    ultimately show ?thesis using stop(2) by blast
  next
    case more
    from Suc.IH [OF more(2)] obtain ws u where u: "vs = (acc @ [v]) @ ws" "elements_text E D d ws u" "s = u @ 0x5D # r'" by blast
    have "elements_text E D d (v # ws) (w @ t @ z @ 0x2C # u)" by (rule elements_more [OF t(1,2) z(1) u(2)])
    moreover have "r = (w @ t @ z @ 0x2C # u) @ 0x5D # r'" using t(3) z(2) more(1) u(3) by (metis append.assoc append_Cons)
    ultimately show ?thesis using u(1) by (metis append.assoc append_Cons append_Nil)
  qed
qed simp

lemma read_members_sound:
  assumes rv: "reads_text E D rv"
  shows "read_members rv n p d keys obj r = Some (Inr (ob, r')) \<Longrightarrow>
    \<exists>m t. ob = fold insert_member m obj \<and> members_text E D d m t \<and> r = t @ 0x7D # r'
      \<and> distinct (map fst m) \<and> set (map fst m) \<inter> set keys = {}"
proof (induction n arbitrary: keys obj r)
  case (Suc n)
  obtain w where w: "space_text w" "r = w @ skip_whitespace r" using space_before by blast
  obtain r0 where r0: "skip_whitespace r = 0x22 # r0"
    using Suc.prems by (cases "skip_whitespace r") (auto simp: Let_def split: if_splits)
  obtain k r1 where k: "read_string p [] r0 = Inr (k, r1)"
    using Suc.prems r0 by (auto simp: Let_def split: sum.splits)
  then obtain s where s: "string_text k s" "r0 = s @ 0x22 # r1" using read_string_sound by fastforce
  have fresh: "k \<notin> set keys" using Suc.prems r0 k by (auto simp: Let_def split: if_splits)
  obtain x where x: "space_text x" "r1 = x @ skip_whitespace r1" using space_before by blast
  obtain r2 where r2: "skip_whitespace r1 = 0x3A # r2"
    using Suc.prems r0 k fresh by (cases "skip_whitespace r1") (auto simp: Let_def split: if_splits)
  obtain v r3 where v: "rv (child_path p k) (d + 1) r2 = Some (Inr (v, r3))"
    using Suc.prems r0 k fresh r2 by (auto simp: Let_def split: option.splits sum.splits)
  then obtain y t where t: "space_text y" "value_text E D (d + 1) v t" "r2 = y @ t @ r3" using rv unfolding reads_text_def by blast
  obtain z where z: "space_text z" "r3 = z @ skip_whitespace r3" using space_before by blast
  have r: "r = w @ 0x22 # s @ 0x22 # x @ 0x3A # y @ t @ z @ skip_whitespace r3"
    using w(2) r0 s(2) x(2) r2 t(3) z(2) by (metis append.assoc append_Cons)
  consider (stop) "skip_whitespace r3 = 0x7D # r'" "ob = om_insert k v obj"
    | (more) u where "skip_whitespace r3 = 0x2C # u"
      "read_members rv n p d (k # keys) (om_insert k v obj) u = Some (Inr (ob, r'))"
    using Suc.prems r0 k fresh r2 v by (cases "skip_whitespace r3") (auto simp: Let_def split: if_splits)
  then show ?case
  proof cases
    case stop
    have "members_text E D d [(k, v)] (w @ 0x22 # s @ 0x22 # x @ 0x3A # y @ t @ z)"
      by (rule members_last [OF w(1) s(1) x(1) t(1,2) z(1)])
    with r stop fresh show ?thesis
      by (intro exI [of _ "[(k, v)]"] exI [of _ "w @ 0x22 # s @ 0x22 # x @ 0x3A # y @ t @ z"]) simp
  next
    case more
    from Suc.IH [OF more(2)] obtain m q where m: "ob = fold insert_member m (om_insert k v obj)" "members_text E D d m q"
      "u = q @ 0x7D # r'" "distinct (map fst m)" "set (map fst m) \<inter> set (k # keys) = {}" by blast
    have "members_text E D d ((k, v) # m) (w @ 0x22 # s @ 0x22 # x @ 0x3A # y @ t @ z @ 0x2C # q)"
      by (rule members_more [OF w(1) s(1) x(1) t(1,2) z(1) m(2)])
    with r more m fresh show ?thesis
      by (intro exI [of _ "(k, v) # m"] exI [of _ "w @ 0x22 # s @ 0x22 # x @ 0x3A # y @ t @ z @ 0x2C # q"]) simp
  qed
qed simp

lemmas elements_intros = elements_last elements_more
lemmas members_intros = members_last members_more

lemma space_append: "space_text w \<Longrightarrow> space_text z \<Longrightarrow> space_text (w @ z)"
  by (simp add: space_text_def)

lemma space_elements:
  assumes w: "space_text w" and t: "elements_text E D d vs t"
  shows "elements_text E D d vs (w @ t)"
  using t
proof (cases rule: elements_text.cases)
  case (elements_last z v s x)
  with elements_intros(1) [OF space_append [OF w], of z] show ?thesis by simp
next
  case (elements_more z v s x ws u)
  with elements_intros(2) [OF space_append [OF w], of z] show ?thesis by simp
qed

lemma space_members:
  assumes w: "space_text w" and t: "members_text E D d m t"
  shows "members_text E D d m (w @ t)"
  using t
proof (cases rule: members_text.cases)
  case (members_last z k s x y v u q)
  with members_intros(1) [OF space_append [OF w], of z] show ?thesis by simp
next
  case (members_more z k s x y v u q m' r)
  with members_intros(2) [OF space_append [OF w], of z] show ?thesis by simp
qed

lemma read_array_sound:
  assumes rv: "reads_text E D rv" and r: "read_array rv D n p d (c # s) = Some (Inr (vs, r'))"
  shows "\<exists>t. value_text E D d (JArr vs) (0x5B # t @ [0x5D]) \<and> s = t @ 0x5D # r'"
proof -
  have d: "d \<le> D" using r by (auto simp: read_array_def split: if_splits)
  obtain w where w: "space_text w" "s = w @ skip_whitespace s" using space_before by blast
  consider (none) "skip_whitespace s = 0x5D # r'" "vs = []"
    | (some) "read_elements rv n p d 0 [] (skip_whitespace s) = Some (Inr (vs, r'))"
    using r d by (cases "skip_whitespace s") (auto simp: read_array_def Let_def split: if_splits)
  then show ?thesis
  proof cases
    case none
    with w value_no_elements [OF d w(1)] show ?thesis by metis
  next
    case some
    from read_elements_sound [OF rv this] obtain t where t: "elements_text E D d vs t" "skip_whitespace s = t @ 0x5D # r'" by auto
    have "value_text E D d (JArr vs) (0x5B # (w @ t) @ [0x5D])" by (rule value_elements [OF d space_elements [OF w(1) t(1)]])
    moreover have "s = (w @ t) @ 0x5D # r'" using w(2) t(2) by (metis append.assoc)
    ultimately show ?thesis by blast
  qed
qed

lemma read_object_sound:
  assumes rv: "reads_text E D rv" and r: "read_object rv D n p d (c # s) = Some (Inr (ob, r'))"
  shows "\<exists>t. value_text E D d (JObj ob) (0x7B # t @ [0x7D]) \<and> s = t @ 0x7D # r'"
proof -
  have d: "d \<le> D" using r by (auto simp: read_object_def split: if_splits)
  obtain w where w: "space_text w" "s = w @ skip_whitespace s" using space_before by blast
  consider (none) "skip_whitespace s = 0x7D # r'" "ob = []"
    | (some) "read_members rv n p d [] [] (skip_whitespace s) = Some (Inr (ob, r'))"
    using r d by (cases "skip_whitespace s") (auto simp: read_object_def Let_def split: if_splits)
  then show ?thesis
  proof cases
    case none
    with w value_no_members [OF d w(1)] show ?thesis by metis
  next
    case some
    from read_members_sound [OF rv this] obtain m t where m: "ob = fold insert_member m []" "members_text E D d m t"
      "skip_whitespace s = t @ 0x7D # r'" "distinct (map fst m)" by blast
    have "value_text E D d (JObj (fold insert_member m [])) (0x7B # (w @ t) @ [0x7D])"
      by (rule value_members [OF d space_members [OF w(1) m(2)] m(4)])
    moreover have "s = (w @ t) @ 0x7D # r'" using w(2) m(3) by (metis append.assoc)
    ultimately show ?thesis using m(1) by blast
  qed
qed

lemma read_literal_sound: "read_literal p l v r = Inr (v', r') \<Longrightarrow> v' = v \<and> r = Q l @ r'"
  by (auto simp: read_literal_def split: if_splits) (metis append_take_drop_id)

lemma map_read_result:
  assumes "map_read f o' = Inr (v, r)"
  obtains x where "v = f x" "o' = Inr (x, r)"
  using assms by (cases o') (auto simp: map_read_def)

lemma text_sound: "reads_text E D (read_value E D n)"
proof (induction n)
  case 0
  show ?case by (simp add: reads_text_def)
next
  case (Suc n)
  show ?case unfolding reads_text_def
  proof (intro allI impI)
    fix p d r v r'
    assume read: "read_value E D (Suc n) p d r = Some (Inr (v, r'))"
    obtain w where w: "space_text w" "r = w @ skip_whitespace r" using space_before by blast
    obtain c s where c: "skip_whitespace r = c # s" using read by (cases "skip_whitespace r") auto
    have "\<exists>t. value_text E D d v t \<and> c # s = t @ r'"
    proof (cases "c \<in> {0x7B, 0x5B, 0x22, 0x74, 0x66, 0x6E}")
      case False
      with read c have "read_number E p (c # s) = Inr (v, r')" by (auto split: if_splits)
      from read_number_sound [OF this] value_number show ?thesis by blast
    next
      case True
      then consider "c = 0x7B" | "c = 0x5B" | "c = 0x22" | "c = 0x74" | "c = 0x66" | "c = 0x6E" by blast
      then show ?thesis
      proof cases
        case 1
        with read c obtain ob where "v = JObj ob" "read_object (read_value E D n) D n p d (c # s) = Some (Inr (ob, r'))"
          by (auto elim: map_read_result)
        from read_object_sound [OF Suc.IH this(2)] this(1) 1 show ?thesis by fastforce
      next
        case 2
        with read c obtain vs where "v = JArr vs" "read_array (read_value E D n) D n p d (c # s) = Some (Inr (vs, r'))"
          by (auto elim: map_read_result)
        from read_array_sound [OF Suc.IH this(2)] this(1) 2 show ?thesis by fastforce
      next
        case 3
        with read c obtain k where "v = JStr k" "read_string p [] s = Inr (k, r')"
          by (auto elim: map_read_result)
        with read_string_sound [OF this(2)] value_string 3 show ?thesis by fastforce
      next
        case 4
        with read c have "read_literal p ''true'' (JBool True) (c # s) = Inr (v, r')" by simp
        from read_literal_sound [OF this] value_true show ?thesis by blast
      next
        case 5
        with read c have "read_literal p ''false'' (JBool False) (c # s) = Inr (v, r')" by simp
        from read_literal_sound [OF this] value_false show ?thesis by blast
      next
        case 6
        with read c have "read_literal p ''null'' JNull (c # s) = Inr (v, r')" by simp
        from read_literal_sound [OF this] value_null show ?thesis by blast
      qed
    qed
    with w c show "\<exists>w t. space_text w \<and> value_text E D d v t \<and> r = w @ t @ r'" by metis
  qed
qed

section \<open>Documents\<close>

text \<open>A document is one object, with space around it.\<close>

definition document_text :: "qt_env \<Rightarrow> int \<Rightarrow> json qmap \<Rightarrow> qstring \<Rightarrow> bool" where
  "document_text E D m s \<longleftrightarrow> (\<exists>w t z. space_text w \<and> space_text z \<and> value_text E D 1 (JObj m) t \<and> s = w @ t @ z)"

lemma object_value: "value_text E D d (JObj m) t \<Longrightarrow> \<exists>s. t = 0x7B # s @ [0x7D]"
  by (auto elim: value_text.cases)

lemma skip_all: "space_text z \<longleftrightarrow> skip_whitespace z = []"
  by (simp add: space_text_def skip_whitespace_def list_all_iff)

lemma read_document_iff: "read_document E D s = Some (Inr (m, r)) \<longleftrightarrow> document_text E D m s \<and> r = []"
proof
  assume read: "read_document E D s = Some (Inr (m, r))"
  let ?n = "read_fuel s"
  obtain w where w: "space_text w" "s = w @ skip_whitespace s" using space_before by blast
  obtain u where u: "skip_whitespace s = 0x7B # u"
    using read by (cases "skip_whitespace s") (auto simp: read_document_def Let_def split: if_splits)
  with read obtain z where z: "read_object (read_value E D ?n) D ?n (Q ''$'') 1 (0x7B # u) = Some (Inr (m, z))"
    "skip_whitespace z = []" "r = []"
    by (auto simp: read_document_def Let_def split: option.splits sum.splits if_splits)
  from read_object_sound [OF text_sound z(1)] obtain t where t: "value_text E D 1 (JObj m) (0x7B # t @ [0x7D])"
    "u = t @ 0x7D # z" by blast
  have "s = w @ (0x7B # t @ [0x7D]) @ z" using w(2) u t(2) by simp
  then have "document_text E D m s"
    unfolding document_text_def skip_all using w(1) t(1) z(2) by (auto simp only: skip_all)
  with z(3) show "document_text E D m s \<and> r = []" by simp
next
  assume "document_text E D m s \<and> r = []"
  then obtain w t z where s: "space_text w" "space_text z" "value_text E D 1 (JObj m) t" "s = w @ t @ z" "r = []"
    by (auto simp: document_text_def)
  obtain u where u: "t = 0x7B # u" using object_value [OF s(3)] by auto
  let ?n = "read_fuel s"
  have skip: "skip_whitespace s = 0x7B # u @ z" using s(1,4) by (simp add: skip_space u skip_head separators)
  obtain res where res: "read_document E D s = Some res" using read_document_returns by blast
  then obtain o' where o: "read_object (read_value E D ?n) D ?n (Q ''$'') 1 (0x7B # u @ z) = Some o'"
    using skip by (auto simp: read_document_def Let_def split: option.splits)
  then have "read_value E D (Suc ?n) (Q ''$'') 1 s = Some (map_read JObj o')" using skip by simp
  moreover have "ends_value z" using s(2) by (cases z) (auto simp: ends_value_def space_text_def)
  ultimately have "map_read JObj o' = Inr (JObj m, z)" using text_complete(1) [OF s(3), of s z] skip u by fastforce
  then have "o' = Inr (m, z)" by (auto simp: map_read_def split: sum.splits)
  moreover have "skip_whitespace z = []" using s(2) by (simp add: skip_all)
  ultimately show "read_document E D s = Some (Inr (m, r))" using o skip s(5) by (simp add: read_document_def)
qed

lemma parse_object_iff:
  "parse_object E B D bs = vr_accept m \<longleftrightarrow> 0 < B \<and> 0 < D \<and> int (length bs) \<le> B
     \<and> (\<exists>s. qt_decode_utf8 E bs = Some s \<and> document_text E D m s)"
proof -
  have accepts: "parse_object E B D bs = vr_accept m \<longleftrightarrow> (\<exists>s r. qt_decode_utf8 E bs = Some s \<and> read_document E D s = Some (Inr (m, r)))"
    if "0 < B" "0 < D" "int (length bs) \<le> B"
  proof (cases "qt_decode_utf8 E bs")
    case (Some s)
    obtain res where "read_document E D s = Some res" using read_document_returns by blast
    with Some that show ?thesis by (cases res) (auto simp: parse_object_def parse_strict_json_object_def)
  qed (use that in \<open>simp add: parse_object_def parse_strict_json_object_def\<close>)
  show ?thesis
  proof (cases "0 < B \<and> 0 < D \<and> int (length bs) \<le> B")
    case True
    then show ?thesis using accepts by (simp add: read_document_iff)
  qed (auto simp: parse_object_def parse_strict_json_object_def not_less not_le)
qed

end
