(* ===== verification/Contract.thy ===== *)
theory Contract
  imports Json
begin

text \<open>
  The grammars shared by the components: component identifiers
  (src/src/component/component_contract.cpp), package digests and instance identifiers
  (src/src/component/component_configuration.cpp), the canonical revision text of the
  snapshot parsers, and the settings of the built-in workspace switcher
  (src/src/component/builtin_component_defaults.cpp).

  The patterns are written with \<open>^\<close> and \<open>$\<close> and matched by \<open>QRegularExpression\<close>,
  that is by PCRE2 without \<open>PCRE2_DOLLAR_ENDONLY\<close>: a dollar also matches before a single
  newline that ends the subject. \<open>at_end\<close> is that rule.
\<close>

section \<open>Pattern matching\<close>

definition at_end :: "qstring \<Rightarrow> bool" where
  "at_end s \<longleftrightarrow> s = [] \<or> s = [0x0A]"

text \<open>A pattern that is a sequence of character classes between \<open>^\<close> and \<open>$\<close>.\<close>

fun match_classes :: "(qchar \<Rightarrow> bool) list \<Rightarrow> qstring \<Rightarrow> bool" where
  "match_classes [] s = at_end s"
| "match_classes (p # ps) [] = False"
| "match_classes (p # ps) (c # s) = (p c \<and> match_classes ps s)"

definition is_lower :: "qchar \<Rightarrow> bool" where
  "is_lower c \<longleftrightarrow> 0x61 \<le> c \<and> c \<le> 0x7A"

definition is_lower_hex :: "qchar \<Rightarrow> bool" where
  "is_lower_hex c \<longleftrightarrow> is_ascii_digit c \<or> (0x61 \<le> c \<and> c \<le> 0x66)"

definition is_lower_alnum :: "qchar \<Rightarrow> bool" where
  "is_lower_alnum c \<longleftrightarrow> is_lower c \<or> is_ascii_digit c"

definition is_full_sha256_digest :: "qstring \<Rightarrow> bool" where
  "is_full_sha256_digest s \<longleftrightarrow> match_classes (replicate 64 is_lower_hex) s"

definition is_lowercase_uuid_v4 :: "qstring \<Rightarrow> bool" where
  "is_lowercase_uuid_v4 s \<longleftrightarrow> match_classes
     (replicate 8 is_lower_hex @ [\<lambda>c. c = 0x2D] @ replicate 4 is_lower_hex @ [\<lambda>c. c = 0x2D]
      @ [\<lambda>c. c = 0x34] @ replicate 3 is_lower_hex @ [\<lambda>c. c = 0x2D]
      @ [\<lambda>c. c \<in> {0x38, 0x39, 0x61, 0x62}] @ replicate 3 is_lower_hex @ [\<lambda>c. c = 0x2D]
      @ replicate 12 is_lower_hex) s"

text \<open>\<open>QString::split\<close> on a character, keeping empty parts.\<close>

fun split_on :: "qchar \<Rightarrow> qstring \<Rightarrow> qstring list" where
  "split_on d [] = [[]]"
| "split_on d (c # s) =
     (if c = d then [] # split_on d s
      else (case split_on d s of [] \<Rightarrow> [[c]] | w # ws \<Rightarrow> (c # w) # ws))"

text \<open>The body of the label pattern, without its anchors; the classes exclude newlines.\<close>

definition label_body :: "qstring \<Rightarrow> bool" where
  "label_body s \<longleftrightarrow> s \<noteq> [] \<and> length s \<le> 63 \<and> is_lower (hd s)
     \<and> list_all (\<lambda>c. is_lower_alnum c \<or> c = 0x2D) s \<and> is_lower_alnum (last s)"

definition match_label :: "qstring \<Rightarrow> bool" where
  "match_label s \<longleftrightarrow> label_body s \<or> (s \<noteq> [] \<and> last s = 0x0A \<and> label_body (butlast s))"

definition is_valid_component_id :: "qstring \<Rightarrow> bool" where
  "is_valid_component_id s \<longleftrightarrow>
     (let labels = split_on 0x2E s
      in length s \<le> 255 \<and> 3 \<le> length labels
         \<and> list_all (\<lambda>l. length l \<le> 63 \<and> match_label l) labels)"

text \<open>The pattern of layout identifiers, factory keys and setting groups: lowercase words joined by hyphens.\<close>

definition kebab_body :: "qstring \<Rightarrow> bool" where
  "kebab_body s \<longleftrightarrow> s \<noteq> [] \<and> is_lower (hd s)
     \<and> list_all (\<lambda>w. w \<noteq> [] \<and> list_all is_lower_alnum w) (split_on 0x2D s)"

definition match_kebab :: "qstring \<Rightarrow> bool" where
  "match_kebab s \<longleftrightarrow> kebab_body s \<or> (s \<noteq> [] \<and> last s = 0x0A \<and> kebab_body (butlast s))"

section \<open>Revision text\<close>

text \<open>\<open>QString::toULongLong\<close> on a text of digits.\<close>

definition to_ulonglong :: "qstring \<Rightarrow> 64 word option" where
  "to_ulonglong s = (if decimal_value s < 2 ^ 64 then Some (word_of_nat (decimal_value s)) else None)"

definition parse_revision :: "qstring \<Rightarrow> 64 word option" where
  "parse_revision s =
     (if s = [] \<or> (1 < length s \<and> hd s = 0x30) then None
      else if \<not> list_all is_ascii_digit s then None
      else to_ulonglong s)"

lemma parse_revision_iff: "parse_revision s = Some n \<longleftrightarrow> s = qnumber (unat n)"
proof
  assume p: "parse_revision s = Some n"
  then have digits: "list_all is_ascii_digit s" "s \<noteq> []" and lead: "\<not> (1 < length s \<and> hd s = 0x30)"
    and lt: "decimal_value s < 2 ^ 64" and n: "n = word_of_nat (decimal_value s)"
    by (auto simp: parse_revision_def to_ulonglong_def split: if_splits)
  have v: "unat n = decimal_value s" using lt by (simp add: n unsigned_of_nat take_bit_nat_eq_self)
  show "s = qnumber (unat n)"
  proof (cases "hd s = 0x30")
    case True
    with lead digits have "s = [0x30]" by (cases s; cases "tl s") auto
    then show ?thesis
      by (simp add: v decimal_value_def digit_value_def qnumber.simps [of 0] digit_char_def)
  next
    case False
    with digits v show ?thesis using decimal_text_unique by metis
  qed
next
  assume s: "s = qnumber (unat n)"
  have lead: "\<not> (1 < length s \<and> hd s = 0x30)"
  proof (cases "unat n = 0")
    case True
    then show ?thesis by (simp add: s qnumber.simps [of 0])
  next
    case False
    then show ?thesis using qnumber_hd by (simp add: s)
  qed
  have "unat n < 2 ^ 64" using unsigned_less [of n] by simp
  then show "parse_revision s = Some n"
    using lead by (auto simp: s parse_revision_def qnumber_digits to_ulonglong_def)
qed

section \<open>Settings of the workspace switcher\<close>

definition is_exact_integer :: "json option \<Rightarrow> int \<Rightarrow> int \<Rightarrow> bool" where
  "is_exact_integer v lo hi \<longleftrightarrow> is_double v \<and>
     (let i = to_integer (lo - 1) v in lo \<le> i \<and> i \<le> hi \<and> to_double v = of_int i)"

definition workspace_switcher_default_settings :: "json qmap" where
  "workspace_switcher_default_settings = json_object
     [(''showIdentifiers'', JBool True), (''showNames'', JBool False),
      (''showApplications'', JBool False), (''maximumApplications'', json_int 3),
      (''occupiedOnly'', JBool False), (''scrollMode'', JStr (Q ''disabled''))]"

definition is_valid_workspace_switcher_settings :: "json qmap \<Rightarrow> bool" where
  "is_valid_workspace_switcher_settings settings \<longleftrightarrow>
     exact_keys settings [''showIdentifiers'', ''showNames'', ''showApplications'',
       ''maximumApplications'', ''occupiedOnly'', ''scrollMode'']
     \<and> is_bool (map_of settings (Q ''showIdentifiers'')) \<and> is_bool (map_of settings (Q ''showNames''))
     \<and> is_bool (map_of settings (Q ''showApplications''))
     \<and> is_exact_integer (map_of settings (Q ''maximumApplications'')) 1 5
     \<and> is_bool (map_of settings (Q ''occupiedOnly''))
     \<and> is_string (map_of settings (Q ''scrollMode''))
     \<and> to_string (map_of settings (Q ''scrollMode'')) \<in> {Q ''disabled'', Q ''normal'', Q ''reversed''}"

section \<open>Facts about the grammars\<close>

lemma match_classes_length:
  "match_classes ps s \<Longrightarrow> length ps \<le> length s \<and> length s \<le> Suc (length ps)"
  by (induction ps s rule: match_classes.induct) (auto simp: at_end_def)

lemma match_classes_replicate:
  "match_classes (replicate n p) s \<longleftrightarrow> n \<le> length s \<and> list_all p (take n s) \<and> at_end (drop n s)"
proof (induction n arbitrary: s)
  case 0
  then show ?case by simp
next
  case (Suc n)
  then show ?case by (cases s) auto
qed

lemma is_full_sha256_digest_alt:
  "is_full_sha256_digest s \<longleftrightarrow> (\<exists>h. length h = 64 \<and> list_all is_lower_hex h \<and> (s = h \<or> s = h @ [0x0A]))"
proof
  assume "is_full_sha256_digest s"
  then have "64 \<le> length s" "list_all is_lower_hex (take 64 s)" "at_end (drop 64 s)"
    by (simp_all add: is_full_sha256_digest_def match_classes_replicate)
  then show "\<exists>h. length h = 64 \<and> list_all is_lower_hex h \<and> (s = h \<or> s = h @ [0x0A])"
    by (intro exI [of _ "take 64 s"]) (metis append_Nil2 append_take_drop_id at_end_def length_take min.absorb4 min.absorb_iff2)
next
  assume "\<exists>h. length h = 64 \<and> list_all is_lower_hex h \<and> (s = h \<or> s = h @ [0x0A])"
  then show "is_full_sha256_digest s"
    by (auto simp: is_full_sha256_digest_def match_classes_replicate at_end_def)
qed

lemma split_on_concat: "split_on d s \<noteq> [] \<and> (\<forall>c \<in> set s. c = d \<or> (\<exists>w \<in> set (split_on d s). c \<in> set w))"
proof (induction s)
  case (Cons a s)
  then obtain w ws where "split_on d s = w # ws" by (cases "split_on d s") auto
  with Cons show ?case by auto
qed simp

lemma match_label_chars: "match_label l \<Longrightarrow> c \<in> set l \<Longrightarrow> is_lower_alnum c \<or> c = 0x2D \<or> c = 0x0A"
  by (auto simp: match_label_def label_body_def list_all_iff dest: in_set_butlastD)
    (metis append_butlast_last_id in_set_conv_decomp list.distinct(1) rotate1.simps(2) set_ConsD set_rotate1)

lemma component_id_no_slash: "is_valid_component_id s \<Longrightarrow> 0x2F \<notin> set s"
proof
  assume v: "is_valid_component_id s" and "0x2F \<in> set s"
  then obtain w where "w \<in> set (split_on 0x2E s)" "(0x2F :: qchar) \<in> set w"
    using split_on_concat [of "0x2E" s] by fastforce
  with v have "is_lower_alnum 0x2F \<or> (0x2F :: qchar) = 0x2D \<or> (0x2F :: qchar) = 0x0A"
    using match_label_chars by (fastforce simp: is_valid_component_id_def Let_def list_all_iff)
  then show False by (simp add: is_lower_alnum_def is_lower_def is_ascii_digit_def)
qed

lemma workspace_switcher_default_valid:
  "is_valid_workspace_switcher_settings workspace_switcher_default_settings"
  by (simp add: is_valid_workspace_switcher_settings_def workspace_switcher_default_settings_def
      json_object_def exact_keys_def is_exact_integer_def json_int_def min_int64_def max_int64_def)

end
