(* ===== verification/Compact_Writer.thy ===== *)
theory Compact_Writer
  imports Strict_Json
begin

text \<open>
  A compact JSON writer for the values whose numbers are integers, and the proof that the
  strict reader is its inverse: a written object is read back as itself or refused. It
  stands for \<open>QJsonDocument::toJson\<close> in the sample environment, to show that the hypotheses on Qt can hold together;
  it is not Qt's writer, which escapes less and writes UTF-8. What no \<open>QJsonObject\<close> holds
  (unsorted members) and numbers that are not integers are written as text that no reader
  accepts.
\<close>

section \<open>The writer\<close>

definition lower_hex :: "qchar \<Rightarrow> qchar" where
  "lower_hex d = (if d < 10 then 0x30 + d else 0x57 + d)"

definition write_hex :: "qchar \<Rightarrow> qstring" where
  "write_hex c = [lower_hex (drop_bit 12 c), lower_hex (take_bit 4 (drop_bit 8 c)),
     lower_hex (take_bit 4 (drop_bit 4 c)), lower_hex (take_bit 4 c)]"

fun write_chars :: "qstring \<Rightarrow> qstring" where
  "write_chars [] = []"
| "write_chars (c # s) =
     (if c = 0x22 \<or> c = 0x5C then 0x5C # c # write_chars s
      else if 0x20 \<le> c \<and> c < 0x7F then c # write_chars s
      else 0x5C # 0x75 # write_hex c @ write_chars s)"

definition write_string :: "qstring \<Rightarrow> qstring" where
  "write_string s = 0x22 # write_chars s @ [0x22]"

definition write_number :: "rat \<Rightarrow> qstring" where
  "write_number x = (if of_int \<lfloor>x\<rfloor> \<noteq> x then [0x23]
     else (if x < 0 then [0x2D] else []) @ qnumber (nat \<bar>\<lfloor>x\<rfloor>\<bar>))"

fun close_list :: "qchar \<Rightarrow> qstring list \<Rightarrow> qstring" where
  "close_list z [] = [z]"
| "close_list z [s] = s @ [z]"
| "close_list z (s # ss) = s @ 0x2C # close_list z ss"

fun write_json :: "json \<Rightarrow> qstring" where
  "write_json JNull = Q ''null''"
| "write_json (JBool b) = (if b then Q ''true'' else Q ''false'')"
| "write_json (JNum x) = write_number x"
| "write_json (JStr s) = write_string s"
| "write_json (JArr vs) = 0x5B # close_list 0x5D (map write_json vs)"
| "write_json (JObj m) = (if om_inv m
     then 0x7B # close_list 0x7D (map (\<lambda>(k, v). write_string k @ 0x3A # write_json v) m) else [0x23])"

definition ascii_bytes :: "qstring \<Rightarrow> bytes" where
  "ascii_bytes s = map ucast s"

definition ascii_decode :: "bytes \<Rightarrow> qstring option" where
  "ascii_decode bs = (if list_all (\<lambda>b. b < 128) bs then Some (map ucast bs) else None)"

definition integer_text_value :: "qstring \<Rightarrow> rat option" where
  "integer_text_value s =
     (if s \<noteq> [] \<and> hd s = 0x2D then Some (- of_nat (decimal_value (tl s)))
      else Some (of_nat (decimal_value s)))"

section \<open>The text is ASCII\<close>

lemma lower_hex_ascii: "d < 16 \<Longrightarrow> lower_hex d < 128"
  unfolding lower_hex_def by (auto simp: word_less_nat_alt unat_word_ariths)

lemma take_bit_4_less: "take_bit 4 (c :: qchar) < 16"
  unfolding word_less_nat_alt unsigned_take_bit_eq by (simp add: take_bit_eq_mod)

lemma drop_bit_12_less: "drop_bit 12 (c :: qchar) < 16"
proof -
  have "unat c < 65536" using unsigned_less [of c] by simp
  then show ?thesis unfolding word_less_nat_alt unat_drop_bit_eq by (simp add: drop_bit_eq_div less_mult_imp_div_less)
qed

lemma write_hex_ascii: "list_all (\<lambda>c. c < 128) (write_hex c)"
  by (simp add: write_hex_def lower_hex_ascii take_bit_4_less drop_bit_12_less)

lemma write_chars_ascii: "list_all (\<lambda>c. c < 128) (write_chars s)"
  by (induction s) (use write_hex_ascii in \<open>auto simp: word_less_nat_alt\<close>)

lemma digits_ascii: "list_all is_ascii_digit s \<Longrightarrow> list_all (\<lambda>c. c < 128) s"
  by (auto simp: list_all_iff is_ascii_digit_def word_le_nat_alt word_less_nat_alt)

lemma close_list_all: "list_all (list_all P) ss \<Longrightarrow> P z \<Longrightarrow> P 0x2C \<Longrightarrow> list_all P (close_list z ss)"
  by (induction z ss rule: close_list.induct) auto

lemma write_number_ascii: "list_all (\<lambda>c. c < 128) (write_number x)"
  using digits_ascii [OF qnumber_digits] by (auto simp: write_number_def)

lemma write_json_ascii: "list_all (\<lambda>c. c < 128) (write_json v)"
proof (induction v)
  case (JArr vs)
  then have "list_all (list_all (\<lambda>c. c < 128)) (map write_json vs)" by (simp add: list_all_iff)
  from close_list_all [OF this] show ?case by simp
next
  case (JObj m)
  then have "list_all (list_all (\<lambda>c. c < 128)) (map (\<lambda>(k, v). write_string k @ 0x3A # write_json v) m)"
    using write_chars_ascii by (fastforce simp: list_all_iff write_string_def)
  from close_list_all [OF this] show ?case by simp
qed (use write_chars_ascii write_number_ascii in \<open>simp_all add: Q_def write_string_def\<close>)

lemma ascii_decode_bytes:
  "list_all (\<lambda>c. c < 128) s \<Longrightarrow> ascii_decode (ascii_bytes s) = Some s"
proof -
  have "ucast (ucast c :: byte) = c" "(ucast c :: byte) < 128" if "c < 128" for c :: qchar
  proof -
    have "unat c < 128" using that by (simp add: word_less_nat_alt)
    then have "unat (ucast c :: byte) = unat c" by (simp add: unsigned_ucast_eq unsigned_take_bit_eq take_bit_nat_eq_self)
    with \<open>unat c < 128\<close> show "(ucast c :: byte) < 128" "ucast (ucast c :: byte) = c"
      by (simp_all add: word_less_nat_alt word_unat_eq_iff unsigned_ucast_eq unsigned_take_bit_eq take_bit_nat_eq_self)
  qed
  then show "list_all (\<lambda>c. c < 128) s \<Longrightarrow> ascii_decode (ascii_bytes s) = Some s"
    by (auto simp: ascii_decode_def ascii_bytes_def list_all_iff intro!: map_idI)
qed

section \<open>Strings\<close>

lemma hex_digit_lower: "d < 16 \<Longrightarrow> hex_digit (lower_hex d) = Some d"
proof -
  assume "d < 16"
  then have "unat d < 16" by (simp add: word_less_nat_alt)
  moreover have "n \<in> {0,1,2,3,4,5,6,7,8,9,10,11,12,13,14,15}" if "n < 16" for n :: nat
    using that by (simp; presburger)
  ultimately have "unat d \<in> {0,1,2,3,4,5,6,7,8,9,10,11,12,13,14,15}" by blast
  then have "d \<in> {0,1,2,3,4,5,6,7,8,9,10,11,12,13,14,15}"
    by (simp add: word_unat_eq_iff)
  then show ?thesis by (elim insertE emptyE) (simp_all add: lower_hex_def hex_digit_def)
qed

lemma hex_value_write: "hex_value 0 (write_hex c) = Some c"
proof -
  have "or (push_bit 4 (or (push_bit 4 (or (push_bit 4 (drop_bit 12 c)) (take_bit 4 (drop_bit 8 c))))
      (take_bit 4 (drop_bit 4 c)))) (take_bit 4 c) = c"
  proof (rule bit_word_eqI)
    fix n assume "n < LENGTH(16)"
    then consider "n < 4" | "4 \<le> n" "n < 8" | "8 \<le> n" "n < 12" | "12 \<le> n" "n < 16" by force
    then show "bit (or (push_bit 4 (or (push_bit 4 (or (push_bit 4 (drop_bit 12 c)) (take_bit 4 (drop_bit 8 c))))
      (take_bit 4 (drop_bit 4 c)))) (take_bit 4 c)) n = bit c n"
      by cases (auto simp: bit_or_iff bit_push_bit_iff bit_take_bit_iff bit_drop_bit_eq)
  qed
  then show ?thesis
    by (simp add: write_hex_def hex_digit_lower take_bit_4_less drop_bit_12_less)
qed

lemma length_write_hex [simp]: "length (write_hex c) = 4"
  by (simp add: write_hex_def)

lemma read_hex_write [simp]: "read_hex_code_unit p (write_hex c @ r) = Inr (c, r)"
  by (simp add: read_hex_code_unit_def hex_value_write)

definition reads :: "'a read_result \<Rightarrow> bool \<Rightarrow> 'a \<Rightarrow> qstring \<Rightarrow> bool" where
  "reads res good v r \<longleftrightarrow> (if good then res = Inr (v, r) else (\<exists>e. res = Inl e))"

lemma printable_no_surrogate:
  "c < 0x7F \<Longrightarrow> \<not> is_high_surrogate c \<and> \<not> is_low_surrogate c"
  by (auto simp: is_high_surrogate_def is_low_surrogate_def word_le_nat_alt word_less_nat_alt)

lemma surrogate_escaped:
  "is_low_surrogate c \<or> is_high_surrogate c \<Longrightarrow> write_chars (c # s) = 0x5C # 0x75 # write_hex c @ write_chars s"
  by (auto simp: is_high_surrogate_def is_low_surrogate_def word_le_nat_alt word_less_nat_alt)

lemma read_string_write:
  "reads (read_string p acc (write_chars s @ 0x22 # r)) (utf16_ok s) (acc @ s) r"
proof (induction s arbitrary: acc rule: utf16_ok.induct)
  case 1
  then show ?case by (simp add: reads_def)
next
  case (2 c s)
  show ?case
  proof (cases "is_high_surrogate c")
    case False
    have IH: "reads (read_string p (acc @ [c]) (write_chars s @ 0x22 # r)) (utf16_ok s) (acc @ c # s) r"
      using "2.IH"(2) [OF False, of "acc @ [c]"] by simp
    consider "c = 0x22 \<or> c = 0x5C" | "c \<noteq> 0x22" "c \<noteq> 0x5C" "0x20 \<le> c" "c < 0x7F"
      | "c \<noteq> 0x22" "c \<noteq> 0x5C" "\<not> (0x20 \<le> c \<and> c < 0x7F)" by blast
    then show ?thesis
    proof cases
      case 1
      then show ?thesis using IH False by (auto simp: simple_escape_def is_low_surrogate_def)
    next
      case 2
      then show ?thesis using IH False printable_no_surrogate [of c] by (simp add: not_less [symmetric])
    next
      case 3
      have "write_chars (c # s) = 0x5C # 0x75 # write_hex c @ write_chars s" using 3 by simp
      then show ?thesis
        using False IH
        by (cases "is_low_surrogate c") (simp_all add: simple_escape_def read_unicode_escape_def reads_def)
    qed
  next
    case True
    note esc = surrogate_escaped [of c, OF disjI2, OF True]
    show ?thesis
    proof (cases s)
      case Nil
      then show ?thesis using True
        by (simp add: esc simple_escape_def read_unicode_escape_def reads_def del: write_chars.simps(2))
    next
      case (Cons l s')
      show ?thesis
      proof (cases "is_low_surrogate l")
        case True
        have "reads (read_string p (acc @ [c, l]) (write_chars s' @ 0x22 # r)) (utf16_ok s') (acc @ c # l # s') r"
          using "2.IH"(1) [OF \<open>is_high_surrogate c\<close> Cons, of "acc @ [c, l]"] by simp
        then show ?thesis
          using \<open>is_high_surrogate c\<close> True Cons
          by (simp add: esc surrogate_escaped simple_escape_def read_unicode_escape_def del: write_chars.simps(2))
      next
        case False
        have "\<exists>e. read_unicode_escape p (write_hex c @ write_chars (l # s') @ 0x22 # r) = Inl e"
        proof (cases "l = 0x22 \<or> l = 0x5C \<or> 0x20 \<le> l \<and> l < 0x7F")
          case True
          then show ?thesis using \<open>is_high_surrogate c\<close> by (auto simp: read_unicode_escape_def)
        next
          case False
          then have "write_chars (l # s') = 0x5C # 0x75 # write_hex l @ write_chars s'" by simp
          then show ?thesis using \<open>is_high_surrogate c\<close> \<open>\<not> is_low_surrogate l\<close>
            by (simp add: read_unicode_escape_def del: write_chars.simps(2))
        qed
        then show ?thesis
          using \<open>is_high_surrogate c\<close> False Cons
          by (auto simp: esc simple_escape_def reads_def simp del: write_chars.simps(2))
      qed
    qed
  qed
qed

section \<open>Numbers\<close>

definition integer_env :: "qt_env \<Rightarrow> bool" where
  "integer_env E \<longleftrightarrow> qt_compact E = ascii_bytes \<circ> write_json \<and> qt_decode_utf8 E = ascii_decode
     \<and> qt_to_double E = integer_text_value"

text \<open>What may follow a value: the end of the text, a separator, a closing bracket or the newline.\<close>

definition follows :: "qstring \<Rightarrow> bool" where
  "follows r \<longleftrightarrow> (case r of [] \<Rightarrow> True | c # s \<Rightarrow> c \<in> {0x2C, 0x5D, 0x7D, 0x0A})"

lemma follows_simps [simp]: "follows (0x2C # r)" "follows (0x5D # r)" "follows (0x7D # r)" "follows [0x0A]" "follows []"
  by (simp_all add: follows_def)

lemma skip_digits_append:
  "list_all is_ascii_digit ds \<Longrightarrow> follows r \<Longrightarrow> skip_digits (ds @ r) = r"
  by (cases r) (auto simp: skip_digits_def follows_def is_ascii_digit_def list_all_iff dropWhile_append2)

lemma scan_rest: "follows r \<Longrightarrow> scan_fraction r = Some r \<and> scan_exponent r = Some r"
  by (cases r) (auto simp: follows_def scan_fraction_def scan_exponent_def)

lemma scan_integer_digits:
  assumes "follows r"
  shows "scan_integer_part (qnumber n @ r) = Some r"
proof (cases "n = 0")
  case True
  then show ?thesis
    using assms by (cases r) (auto simp: scan_integer_part_def qnumber.simps [of 0] digit_char_def follows_def is_ascii_digit_def)
next
  case False
  obtain c s where cs: "qnumber n = c # s" by (cases "qnumber n") auto
  have ds: "list_all is_ascii_digit (c # s)" using qnumber_digits [of n] cs by simp
  have "c \<noteq> 0x30" using qnumber_hd [of n] False cs by simp
  with ds have "0x31 \<le> c" "c \<le> 0x39"
    by (auto simp: is_ascii_digit_def word_le_nat_alt word_unat_eq_iff)
  with \<open>c \<noteq> 0x30\<close> skip_digits_append [OF ds assms] show ?thesis
    by (simp add: scan_integer_part_def cs)
qed

lemma scan_number_write:
  assumes "of_int \<lfloor>x\<rfloor> = x" "follows r"
  shows "scan_number (write_number x @ r) = Some r"
proof -
  have "hd (qnumber n) \<noteq> 0x2D" for n
    using qnumber_digits [of n] by (cases "qnumber n") (auto simp: is_ascii_digit_def)
  then show ?thesis
    using assms by (auto simp: scan_number_def write_number_def scan_integer_digits scan_rest hd_append)
qed

lemma integer_text_write:
  assumes "of_int \<lfloor>x\<rfloor> = x"
  shows "integer_text_value (write_number x) = Some x"
proof -
  obtain i where x: "x = of_int i" using assms by metis
  have "hd (qnumber n) \<noteq> 0x2D" for n
    using qnumber_digits [of n] by (cases "qnumber n") (auto simp: is_ascii_digit_def)
  then show ?thesis by (simp add: x integer_text_value_def write_number_def)
qed

lemma latin1_ascii: "list_all (\<lambda>c. c < 128) s \<Longrightarrow> from_latin1 (ascii_bytes s) = s"
  using ascii_decode_bytes [of s] by (auto simp: ascii_decode_def from_latin1_def split: if_splits)

lemma serialized_write: "integer_env E \<Longrightarrow> serialized_json_number E x = write_number x"
  using latin1_ascii [OF write_number_ascii [of x]]
  by (simp add: serialized_json_number_def integer_env_def ascii_bytes_def butlast_append)

definition number_kept :: "rat \<Rightarrow> bool" where
  "number_kept x \<longleftrightarrow> of_int \<lfloor>x\<rfloor> = x \<and> normalize_json_number (write_number x) \<noteq> None"

lemma read_number_write:
  assumes "integer_env E" "of_int \<lfloor>x\<rfloor> = x" "follows r"
  shows "reads (read_number E p (write_number x @ r)) (number_kept x) (JNum x) r"
  using assms
  by (auto simp: read_number_def scan_number_write integer_text_write serialized_write reads_def number_kept_def
      integer_env_def Let_def)

section \<open>Values\<close>

fun writable :: "int \<Rightarrow> json \<Rightarrow> bool" where
  "writable k (JNum x) = number_kept x"
| "writable k (JStr s) = utf16_ok s"
| "writable k (JArr vs) = (1 \<le> k \<and> list_all (writable (k - 1)) vs)"
| "writable k (JObj m) = (1 \<le> k \<and> om_inv m \<and> list_all (\<lambda>e. utf16_ok (fst e) \<and> writable (k - 1) (snd e)) m)"
| "writable k v = True"

text \<open>\<open>rv\<close> reads \<open>v\<close> back at depth \<open>d\<close>.\<close>

definition reads_back :: "value_reader \<Rightarrow> int \<Rightarrow> int \<Rightarrow> json \<Rightarrow> bool" where
  "reads_back rv D d v \<longleftrightarrow> (\<forall>p r. follows r \<longrightarrow>
     (\<exists>res. rv p d (write_json v @ r) = Some res \<and> reads res (writable (D - d + 1) v) v r))"

lemma skip_closed [simp]:
  "skip_whitespace (0x2C # r) = 0x2C # r" "skip_whitespace (0x5D # r) = 0x5D # r"
  "skip_whitespace (0x7D # r) = 0x7D # r" "skip_whitespace (0x22 # r) = 0x22 # r"
  "skip_whitespace (0x3A # r) = 0x3A # r" "skip_whitespace (0x5B # r) = 0x5B # r"
  "skip_whitespace (0x7B # r) = 0x7B # r"
  by (simp_all add: skip_whitespace_def is_json_space_def)

lemma read_elements_write:
  assumes "\<And>v. v \<in> set vs \<Longrightarrow> reads_back rv D (d + 1) v" and "vs \<noteq> []" and "length vs \<le> n"
  shows "\<exists>res. read_elements rv n p d i acc (close_list 0x5D (map write_json vs) @ r) = Some res
    \<and> reads res (list_all (writable (D - d)) vs) (acc @ vs) r"
  using assms
proof (induction vs arbitrary: n i acc)
  case Nil
  then show ?case by simp
next
  case (Cons v vs)
  obtain n' where n: "n = Suc n'" using Cons.prems(3) by (cases n) auto
  define t where "t = (if vs = [] then 0x5D # r else 0x2C # close_list 0x5D (map write_json vs) @ r)"
  have shape: "close_list 0x5D (map write_json (v # vs)) @ r = write_json v @ t"
    by (cases vs) (simp_all add: t_def)
  have "follows t" by (simp add: t_def)
  then obtain res where res: "rv (index_path p i) (d + 1) (write_json v @ t) = Some res"
    and ok: "reads res (writable (D - d) v) v t"
    using Cons.prems(1) [of v] by (fastforce simp: reads_back_def)
  show ?case
  proof (cases "writable (D - d) v")
    case False
    with ok res show ?thesis unfolding n shape by (auto simp: reads_def)
  next
    case True
    then have res: "rv (index_path p i) (d + 1) (write_json v @ t) = Some (Inr (v, t))"
      using ok res by (simp add: reads_def)
    show ?thesis
    proof (cases "vs = []")
      case True
      with res \<open>writable (D - d) v\<close> show ?thesis unfolding n shape
        by (auto simp: t_def reads_def Let_def)
    next
      case False
      have "\<exists>res. read_elements rv n' p d (Suc i) (acc @ [v]) (close_list 0x5D (map write_json vs) @ r) = Some res
          \<and> reads res (list_all (writable (D - d)) vs) ((acc @ [v]) @ vs) r"
        by (rule Cons.IH) (use Cons.prems False n in simp_all)
      with res \<open>writable (D - d) v\<close> False show ?thesis unfolding n shape
        by (auto simp: t_def Let_def)
    qed
  qed
qed

abbreviation write_member :: "qstring \<times> json \<Rightarrow> qstring" where
  "write_member \<equiv> \<lambda>(k, v). write_string k @ 0x3A # write_json v"

lemma om_inv_append: "om_inv (m @ m') \<longleftrightarrow> om_inv m \<and> om_inv m' \<and> (\<forall>k \<in> fst ` set m. \<forall>k' \<in> fst ` set m'. k < k')"
  by (auto simp: om_inv_def sorted_wrt_append)

lemma read_members_write:
  assumes "list_all (\<lambda>e. reads_back rv D (d + 1) (snd e)) m" and "m \<noteq> []" and "length m \<le> n"
    and "om_inv (obj @ m)" and "set keys = fst ` set obj"
  shows "\<exists>res. read_members rv n p d keys obj (close_list 0x7D (map write_member m) @ r) = Some res
    \<and> reads res (list_all (\<lambda>e. utf16_ok (fst e) \<and> writable (D - d) (snd e)) m) (obj @ m) r"
  using assms
proof (induction m arbitrary: n keys obj)
  case Nil
  then show ?case by simp
next
  case (Cons e m)
  obtain k v where e: "e = (k, v)" by force
  obtain n' where n: "n = Suc n'" using Cons.prems(3) by (cases n) auto
  define t where "t = (if m = [] then 0x7D # r else 0x2C # close_list 0x7D (map write_member m) @ r)"
  have shape: "close_list 0x7D (map write_member (e # m)) @ r = 0x22 # write_chars k @ 0x22 # 0x3A # write_json v @ t"
    by (cases m) (simp_all add: t_def e write_string_def)
  have "follows t" by (simp add: t_def)
  then obtain res where res: "rv (child_path p k) (d + 1) (write_json v @ t) = Some res"
    and ok: "reads res (writable (D - d) v) v t"
    using Cons.prems(1) e by (fastforce simp: reads_back_def)
  have str: "reads (read_string p [] (write_chars k @ 0x22 # 0x3A # write_json v @ t)) (utf16_ok k) k (0x3A # write_json v @ t)"
    using read_string_write [of p "[]" k] by simp
  have fresh: "k \<notin> set keys" and less: "\<forall>j \<in> fst ` set obj. j < k" and inv: "om_inv ((obj @ [(k, v)]) @ m)"
    using Cons.prems(4,5) e by (auto simp: om_inv_append)
  show ?case
  proof (cases "utf16_ok k \<and> writable (D - d) v")
    case False
    with ok res str fresh show ?thesis unfolding n shape
        by (cases "utf16_ok k") (auto simp: reads_def e Let_def)
  next
    case True
    then have res: "rv (child_path p k) (d + 1) (write_json v @ t) = Some (Inr (v, t))"
      and str: "read_string p [] (write_chars k @ 0x22 # 0x3A # write_json v @ t) = Inr (k, 0x3A # write_json v @ t)"
      using ok res str by (simp_all add: reads_def)
    show ?thesis
    proof (cases "m = []")
      case True
      with res str fresh less \<open>utf16_ok k \<and> writable (D - d) v\<close> show ?thesis unfolding n shape
        by (auto simp: t_def reads_def Let_def e om_insert_last)
    next
      case False
      have "\<exists>res. read_members rv n' p d (k # keys) (obj @ [(k, v)]) (close_list 0x7D (map write_member m) @ r) = Some res
          \<and> reads res (list_all (\<lambda>e. utf16_ok (fst e) \<and> writable (D - d) (snd e)) m) ((obj @ [(k, v)]) @ m) r"
        by (rule Cons.IH) (use Cons.prems False n inv in simp_all)
      with res str fresh less \<open>utf16_ok k \<and> writable (D - d) v\<close> False show ?thesis unfolding n shape
        by (auto simp: t_def Let_def e om_insert_last)
    qed
  qed
qed

lemma close_list_head:
  assumes "ss \<noteq> []" "hd ss \<noteq> []" "\<not> is_json_space (hd (hd ss))"
  shows "skip_whitespace (close_list z ss @ r) = close_list z ss @ r" "hd (close_list z ss @ r) = hd (hd ss)"
    "close_list z ss @ r \<noteq> []"
  using assms by (cases ss; cases "tl ss"; auto simp: skip_whitespace_def neq_Nil_conv)+

lemma length_close_list: "ss \<noteq> [] \<Longrightarrow> list_all (\<lambda>s. s \<noteq> []) ss \<Longrightarrow> length ss < length (close_list z ss)"
  by (induction z ss rule: close_list.induct) (auto simp: neq_Nil_conv)

lemma length_close_list_part: "s \<in> set ss \<Longrightarrow> length s < length (close_list z ss)"
  by (induction z ss rule: close_list.induct) auto

lemma write_number_head: "\<exists>c s. write_number x = c # s \<and> (c = 0x23 \<or> c = 0x2D \<or> is_ascii_digit c)"
  using qnumber_digits [of "nat \<bar>\<lfloor>x\<rfloor>\<bar>"] by (cases "qnumber (nat \<bar>\<lfloor>x\<rfloor>\<bar>)") (auto simp: write_number_def)

lemma write_json_head:
  "\<exists>c s. write_json v = c # s \<and> \<not> is_json_space c \<and> c \<noteq> 0x5D \<and> c \<noteq> 0x7D"
proof (cases v)
  case (JNum x)
  then show ?thesis
    using write_number_head [of x] by (auto simp: is_json_space_def is_ascii_digit_def)
qed (auto simp: is_json_space_def Q_def write_string_def)

lemma read_array_write:
  assumes "\<And>v. v \<in> set vs \<Longrightarrow> reads_back rv D (d + 1) v" and n: "length (write_json (JArr vs)) \<le> n"
  shows "\<exists>res. read_array rv D n p d (write_json (JArr vs) @ r) = Some res
    \<and> reads res (writable (D - d + 1) (JArr vs)) vs r"
proof (cases "d \<le> D \<and> vs \<noteq> []")
  case False
  then show ?thesis by (auto simp: read_array_def reads_def Let_def)
next
  case True
  then obtain v ws where vs: "vs = v # ws" by (cases vs) auto
  have "write_json v \<noteq> []" for v using write_json_head [of v] by auto
  then have "length vs < length (close_list 0x5D (map write_json vs))"
    using length_close_list [of "map write_json vs" "0x5D"] True by (simp add: list_all_iff)
  then obtain res where "read_elements rv n p d 0 [] (close_list 0x5D (map write_json vs) @ r) = Some res"
    "reads res (list_all (writable (D - d)) vs) ([] @ vs) r"
    using read_elements_write [of vs rv D d n p 0 "[]" r] assms True by auto
  moreover have "skip_whitespace (close_list 0x5D (map write_json vs) @ r) = close_list 0x5D (map write_json vs) @ r"
    "hd (close_list 0x5D (map write_json vs) @ r) \<noteq> 0x5D"
    using close_list_head [of "map write_json vs" "0x5D" r] write_json_head [of v] vs by (auto simp del: close_list.simps)
  ultimately show ?thesis using True by (simp add: read_array_def Let_def)
qed

lemma read_object_write:
  assumes "list_all (\<lambda>e. reads_back rv D (d + 1) (snd e)) m" and n: "length (write_json (JObj m)) \<le> n" and inv: "om_inv m"
  shows "\<exists>res. read_object rv D n p d (write_json (JObj m) @ r) = Some res
    \<and> reads res (writable (D - d + 1) (JObj m)) m r"
proof (cases "d \<le> D \<and> m \<noteq> []")
  case False
  with inv show ?thesis by (auto simp: read_object_def reads_def Let_def)
next
  case True
  then obtain k v ws where m: "m = (k, v) # ws" by (cases m) auto
  have "length m < length (close_list 0x7D (map write_member m))"
    using length_close_list [of "map write_member m"] True by (force simp: list_all_iff write_string_def)
  then obtain res where "read_members rv n p d [] [] (close_list 0x7D (map write_member m) @ r) = Some res"
    "reads res (list_all (\<lambda>e. utf16_ok (fst e) \<and> writable (D - d) (snd e)) m) ([] @ m) r"
    using read_members_write [of rv D d m n "[]" "[]" p r] assms True by auto
  moreover have "skip_whitespace (close_list 0x7D (map write_member m) @ r) = close_list 0x7D (map write_member m) @ r"
    "hd (close_list 0x7D (map write_member m) @ r) \<noteq> 0x7D"
    using close_list_head [of "map write_member m" "0x7D" r] m
    by (auto simp: write_string_def is_json_space_def simp del: close_list.simps)
  ultimately show ?thesis using True inv by (simp add: read_object_def Let_def)
qed

lemma reads_map: "reads res good v r \<Longrightarrow> reads (map_read f res) good (f v) r"
  by (auto simp: reads_def map_read_def split: if_splits)

lemma read_value_write:
  assumes E: "integer_env E"
  shows "length (write_json v) < n \<Longrightarrow> reads_back (read_value E D n) D d v"
proof (induction v arbitrary: n d)
  case (JNum x)
  then obtain k where n: "n = Suc k" by (cases n) auto
  obtain c s where cs: "write_number x = c # s" "c = 0x23 \<or> c = 0x2D \<or> is_ascii_digit c"
    using write_number_head by blast
  have "\<not> is_json_space c \<and> c \<notin> {0x7B, 0x5B, 0x22, 0x74, 0x66, 0x6E}"
    using cs(2) by (auto simp: is_json_space_def is_ascii_digit_def)
  note head = this
  show ?case
  proof (cases "of_int \<lfloor>x\<rfloor> = x")
    case True
    have "c \<noteq> 0x23" using True cs(1) qnumber_digits [of "nat \<bar>\<lfloor>x\<rfloor>\<bar>"]
      by (cases "qnumber (nat \<bar>\<lfloor>x\<rfloor>\<bar>)") (auto simp: write_number_def is_ascii_digit_def split: if_splits)
    with cs(2) head read_number_write [OF E True] cs(1) show ?thesis
      by (auto simp: reads_back_def n skip_whitespace_def)
  next
    case False
    then show ?thesis
      by (auto simp: reads_back_def n write_number_def skip_whitespace_def is_json_space_def is_ascii_digit_def
          reads_def number_kept_def)
  qed
next
  case (JStr s)
  then obtain k where n: "n = Suc k" by (cases n) auto
  show ?case
    using reads_map [OF read_string_write [of _ "[]" s], where f = JStr]
    by (simp add: reads_back_def n write_string_def)
next
  case (JArr vs)
  then obtain k where n: "n = Suc k" by (cases n) auto
  have sub: "reads_back (read_value E D k) D (d + 1) v" if "v \<in> set vs" for v
    using JArr that length_close_list_part [of "write_json v" "map write_json vs" "0x5D"] by (simp add: n)
  show ?case unfolding reads_back_def
  proof (intro allI impI)
    fix p and r :: qstring
    assume "follows r"
    obtain res where "read_array (read_value E D k) D k p d (write_json (JArr vs) @ r) = Some res"
      "reads res (writable (D - d + 1) (JArr vs)) vs r"
      using read_array_write [of vs "read_value E D k" D d k p r] sub JArr.prems by (auto simp: n)
    then show "\<exists>res. read_value E D n p d (write_json (JArr vs) @ r) = Some res \<and>
        reads res (writable (D - d + 1) (JArr vs)) (JArr vs) r"
      using reads_map [of res _ vs r JArr] by (auto simp: n)
  qed
next
  case (JObj m)
  then obtain k where n: "n = Suc k" by (cases n) auto
  show ?case
  proof (cases "om_inv m")
    case False
    then show ?thesis
      by (auto simp: reads_back_def n skip_whitespace_def is_json_space_def is_ascii_digit_def reads_def)
  next
    case True
    have sub: "list_all (\<lambda>e. reads_back (read_value E D k) D (d + 1) (snd e)) m"
      unfolding list_all_iff
    proof
      fix e assume e: "e \<in> set m"
      then have "length (write_member e) < length (close_list 0x7D (map write_member m))"
        by (intro length_close_list_part) simp
      then have "length (write_json (snd e)) < k" using JObj.prems True by (cases e) (simp add: n)
      then show "reads_back (read_value E D k) D (d + 1) (snd e)" using JObj.IH [OF e] by (cases e) auto
    qed
    show ?thesis unfolding reads_back_def
    proof (intro allI impI)
      fix p and r :: qstring
      assume "follows r"
      obtain res where "read_object (read_value E D k) D k p d (write_json (JObj m) @ r) = Some res"
        "reads res (writable (D - d + 1) (JObj m)) m r"
        using read_object_write [OF sub _ True, of k p r] JObj.prems n by fastforce
      then show "\<exists>res. read_value E D n p d (write_json (JObj m) @ r) = Some res \<and>
          reads res (writable (D - d + 1) (JObj m)) (JObj m) r"
        using reads_map [of res _ m r JObj] True by (auto simp: n)
    qed
  qed
qed (auto simp: reads_back_def reads_def Q_def skip_whitespace_def is_json_space_def is_ascii_digit_def read_literal_def
    neq_Nil_conv Suc_less_eq2)

section \<open>Documents\<close>

text \<open>A written object is read back as itself, or refused; a newline may end the text.\<close>

theorem parse_written_object:
  assumes E: "integer_env E" and t: "t = [] \<or> t = [10]"
  shows "(\<exists>m'. parse_object E B D (qt_compact E (JObj m) @ t) = vr_accept m') \<longleftrightarrow>
      writable D (JObj m) \<and> int (length (qt_compact E (JObj m) @ t)) \<le> B"
    "parse_object E B D (qt_compact E (JObj m) @ t) = vr_accept m' \<Longrightarrow> m' = m"
proof -
  define u :: qstring where "u = map ucast t"
  define doc where "doc = write_json (JObj m) @ u"
  have u: "u = [] \<or> u = [0x0A]" "ascii_bytes u = t" using t by (auto simp: u_def ascii_bytes_def)
  have bytes: "qt_compact E (JObj m) @ t = ascii_bytes doc"
    using E u(2) by (simp add: integer_env_def doc_def ascii_bytes_def)
  have decoded: "qt_decode_utf8 E (ascii_bytes doc) = Some doc"
    using E ascii_decode_bytes [of doc] write_json_ascii [of "JObj m"] u(1) by (auto simp: integer_env_def doc_def)
  have read: "\<exists>res. read_document E D doc = Some res \<and>
      (if writable D (JObj m) then res = Inr (m, []) else (\<exists>e. res = Inl e))"
  proof (cases "om_inv m")
    case False
    then show ?thesis
      by (simp add: doc_def read_document_def skip_whitespace_def is_json_space_def)
  next
    case True
    let ?n = "read_fuel doc"
    have "list_all (\<lambda>e. reads_back (read_value E D ?n) D (1 + 1) (snd e)) m"
      unfolding list_all_iff
    proof
      fix e assume e: "e \<in> set m"
      then have "length (write_member e) < length (close_list 0x7D (map write_member m))"
        by (intro length_close_list_part) simp
      then have "length (write_json (snd e)) < ?n"
        using True by (cases e) (simp add: read_fuel_def doc_def)
      then show "reads_back (read_value E D ?n) D (1 + 1) (snd e)" by (rule read_value_write [OF E])
    qed
    moreover have "length (write_json (JObj m)) \<le> ?n" by (simp add: read_fuel_def doc_def)
    ultimately obtain res where res: "read_object (read_value E D ?n) D ?n (Q ''$'') 1 doc = Some res"
      "reads res (writable D (JObj m)) m u"
      using read_object_write [of "read_value E D ?n" D 1 m ?n "Q ''$''" u] True by (auto simp: doc_def)
    have "skip_whitespace doc = doc" "doc \<noteq> []" "hd doc = 0x7B"
      using True by (simp_all add: doc_def skip_whitespace_def is_json_space_def)
    moreover have "skip_whitespace u = []" using u(1) by (auto simp: skip_whitespace_def is_json_space_def)
    ultimately show ?thesis
      using res by (cases "writable D (JObj m)") (auto simp: read_document_def reads_def Let_def simp del: writable.simps)
  qed
  show "(\<exists>m'. parse_object E B D (qt_compact E (JObj m) @ t) = vr_accept m') \<longleftrightarrow>
      writable D (JObj m) \<and> int (length (qt_compact E (JObj m) @ t)) \<le> B"
    and "parse_object E B D (qt_compact E (JObj m) @ t) = vr_accept m' \<Longrightarrow> m' = m"
    using read decoded unfolding bytes
    by (auto simp: parse_object_def parse_strict_json_object_def ascii_bytes_def doc_def split: if_splits)
qed

end
