(* ===== verification/Sample_Env.thy ===== *)
theory Sample_Env
  imports Compact_Writer
begin

text \<open>
  A concrete environment, so that the theorems that take Qt's primitives as a parameter can be
  applied to concrete inputs: the compact JSON writer of Compact_Writer, a UTF-8 decoder for
  ASCII text and the conversion of integer texts. The witnesses evaluate the model in it.
\<close>

definition sample_env :: qt_env where
  "sample_env = \<lparr>qt_compact = ascii_bytes \<circ> write_json, qt_decode_utf8 = ascii_decode,
     qt_to_double = integer_text_value, qt_normal_c = id,
     qt_trimmed = (\<lambda>s. rev (dropWhile (\<lambda>c. c = 0x20) (rev (dropWhile (\<lambda>c. c = 0x20) s)))),
     qt_disallowed = list_ex (\<lambda>c. c < 0x20), qt_format = (\<lambda>c. c = 0xAD),
     qt_sha256 = (\<lambda>bs. take 32 (bs @ replicate 32 0))\<rparr>"

text \<open>The equations that evaluate the writer and the reader on concrete text.\<close>

lemmas writer_eval = Q_def json_object_def json_int_def ascii_bytes_def write_string_def write_number_def write_hex_def lower_hex_def
  qnumber.simps digit_char_def ascii_decode_def integer_text_value_def sample_env_def

lemmas reader_eval = parse_object_def parse_strict_json_object_def read_document_def read_fuel_def
  skip_whitespace_def is_json_space_def read_object_def read_array_def child_path_def index_path_def
  read_string.simps simple_escape_def is_high_surrogate_def is_low_surrogate_def map_read_def
  read_literal_def read_number_def scan_number_def scan_integer_part_def scan_fraction_def
  scan_exponent_def skip_digits_def is_ascii_digit_def decimal_value_def digit_value_def
  normalize_json_number_def strip_trailing_zeros_def serialized_json_number_def from_latin1_def
  max_int64_def min_int64_def Let_def vr_ok_def

section \<open>Written documents are read back\<close>

lemma sample_integer_env: "integer_env sample_env"
  by (simp add: integer_env_def sample_env_def)

lemma parse_written_sample:
  assumes "writable D (JObj m)" "length (write_json (JObj m)) < nat B" "t = [] \<or> t = [10]"
  shows "parse_object sample_env B D (qt_compact sample_env (JObj m) @ t) = vr_accept m"
proof -
  have "int (length (qt_compact sample_env (JObj m) @ t)) \<le> B"
    using assms(2,3) by (auto simp: sample_env_def ascii_bytes_def simp del: write_json.simps)
  with assms(1) obtain m' where "parse_object sample_env B D (qt_compact sample_env (JObj m) @ t) = vr_accept m'"
    using parse_written_object(1) [OF sample_integer_env assms(3), of B D m] by blast
  with parse_written_object(2) [OF sample_integer_env assms(3) this] show ?thesis by simp
qed

end
