(* ===== verification/Reader_Guarantees.thy ===== *)
theory Reader_Guarantees
  imports Json_Grammar Contract Sample_Env
begin

text \<open>
  What the rest of the program may assume of the strict JSON reader
  (src/src/component/strict_json.cpp) and of the canonical revision text: the properties, each
  with an application to a concrete input.
\<close>

section \<open>The reader\<close>

text \<open>
  C37: The reader returns on every input, for every limits and whatever the primitives of Qt
  answer: the recursion over nested containers is bounded by the text, so the fuel of the model
  (one unit per character) never runs out.
\<close>

theorem reader_total: "\<exists>r. parse_strict_json_object E L bs = Some r"
  by (rule parse_strict_returns)

text \<open>
  C38: A document the reader accepts is within the byte limit, nests at most to the depth limit,
  has no duplicate key in any object, and all its keys and strings are well-formed UTF-16.
\<close>

theorem reader_accepts_well_formed:
  assumes "vr_ok (parse_object E B D bs)"
  shows "case vr_value (parse_object E B D bs) of
      None \<Rightarrow> False | Some m \<Rightarrow> int (length bs) \<le> B \<and> json_ok D (JObj m)"
  by (rule parse_object_ok [OF assms]) simp

lemma sample_document:
  \<open>parse_object sample_env 100 2 (ascii_bytes (Q ''{"b":[-12,true],"a":"x"}''))
    = vr_accept [(Q ''a'', JStr (Q ''x'')), (Q ''b'', JArr [JNum (- 12), JBool True])]\<close>
  by (simp add: writer_eval reader_eval)

theorem reader_accepts_well_formed_witness:
  \<open>json_ok 2 (JObj [(Q ''a'', JStr (Q ''x'')), (Q ''b'', JArr [JNum (- 12), JBool True])])\<close>
  using reader_accepts_well_formed [of sample_env 100 2 \<open>ascii_bytes (Q ''{"b":[-12,true],"a":"x"}'')\<close>]
  by (simp only: sample_document vr_ok_simps validation_result.simps option.simps simp_thms)

text \<open>
  C14: The strict reader is exactly the grammar of RFC 8259 with its four restrictions. It accepts bytes as
  the object \<open>m\<close> exactly when the limits are positive, the bytes within the byte limit and well-formed
  UTF-8, and the text they encode is a document of the grammar that denotes \<open>m\<close>: containers nest at most to the
  depth limit, no object has a key twice, strings are well-formed UTF-16, and a number is one that Qt converts to a
  double whose own text has the same normal form (\<open>number_reads\<close>), so that it keeps its value. Every production of the grammar is read, and nothing else is.
\<close>

theorem reader_accepts_the_grammar:
  "parse_object E B D bs = vr_accept m \<longleftrightarrow> 0 < B \<and> 0 < D \<and> int (length bs) \<le> B
     \<and> (\<exists>s. qt_decode_utf8 E bs = Some s \<and> document_text E D m s)"
  by (rule parse_object_iff)

text \<open>
  C39: No number loses precision on the way in. A number the reader accepts is a literal of the
  JSON grammar that Qt converted to a double whose own serialisation, if it is a literal,
  denotes exactly the rational that the literal in the document denotes.
\<close>

theorem accepted_number_lossless:
  assumes "read_number E p r = Inr (JNum x, r')"
  shows "\<exists>n. parts_ok n \<and> r = number_text n @ r' \<and> qt_to_double E (number_text n) = Some x
    \<and> (\<forall>m. parts_ok m \<longrightarrow> number_text m = serialized_json_number E x \<longrightarrow> number_value m = number_value n)"
  using assms by (rule read_number_lossless)

theorem accepted_number_lossless_witness:
  "\<exists>n. parts_ok n \<and> Q ''120]'' = number_text n @ Q '']'' \<and> qt_to_double sample_env (number_text n) = Some 120
    \<and> (\<forall>m. parts_ok m \<longrightarrow> number_text m = serialized_json_number sample_env 120 \<longrightarrow> number_value m = number_value n)"
  by (rule accepted_number_lossless [of sample_env "[]"]) (simp add: writer_eval reader_eval)

text \<open>
  The normal form that the reader compares decides equality of decimal literals: two
  literals have the same normal form exactly when they denote the same rational.
\<close>

theorem normal_form_decides_value:
  assumes "parts_ok m" "parts_ok n"
    and "normalize_json_number (number_text m) = Some a"
    and "normalize_json_number (number_text n) = Some b"
  shows "a = b \<longleftrightarrow> number_value m = number_value n"
  using assms by (rule normalize_eq_iff_value_eq)

definition literal_120 :: number_parts where
  "literal_120 = \<lparr>np_negative = False, np_integer = Q ''120'', np_fraction = [], np_exponent = None\<rparr>"

definition literal_12e1 :: number_parts where
  "literal_12e1 = \<lparr>np_negative = False, np_integer = Q ''12'', np_fraction = Q ''0'',
     np_exponent = Some (0x65, [], Q ''1'')\<rparr>"

theorem normal_form_decides_value_witness:
  "number_value literal_120 = number_value literal_12e1"
proof -
  have "parts_ok literal_120" "parts_ok literal_12e1"
    by (simp_all add: literal_120_def literal_12e1_def parts_ok_def exponent_ok_def Q_def is_ascii_digit_def)
  moreover have "normalize_json_number (number_text literal_120)
      = Some \<lparr>nn_negative = False, nn_digits = Q ''12'', nn_exponent = 1\<rparr>"
    "normalize_json_number (number_text literal_12e1)
      = Some \<lparr>nn_negative = False, nn_digits = Q ''12'', nn_exponent = 1\<rparr>"
    by (simp_all add: literal_120_def literal_12e1_def number_text_def to_long_long_def writer_eval reader_eval)
  ultimately show ?thesis
    using normal_form_decides_value by metis
qed

section \<open>Revision text\<close>

text \<open>
  The canonical revision parser is a bijection between the 64-bit revisions and the texts
  it accepts: it reads exactly the decimal text that the serialisers write, so there is no
  second spelling of a revision, no leading zero and no wrap-around at \<open>2 ^ 64\<close>.
\<close>

theorem revision_text_canonical: "parse_revision s = Some n \<longleftrightarrow> s = qnumber (unat n)"
  by (rule parse_revision_iff)

text \<open>
  C40: What the digest test of the configuration accepts: 64 lowercase hexadecimal digits, alone
  or followed by one newline, because the pattern's dollar also matches before it.
\<close>

theorem digest_grammar:
  "is_full_sha256_digest s \<longleftrightarrow> (\<exists>h. length h = 64 \<and> list_all is_lower_hex h \<and> (s = h \<or> s = h @ [0x0A]))"
  by (rule is_full_sha256_digest_alt)

end
