(* ===== verification/Posix_Fs.thy ===== *)
theory Posix_Fs
  imports Json
begin

unbundle bit_operations_syntax

text \<open>
  The part of the file system that component_runtime_health_store.cpp and component_store.cpp observe: inodes by
  absolute path (a list of components), with their kind, whether the effective user owns
  them, their permission bits and their bytes. Every call that can fail for a reason the
  model does not see (no space, no permission, an I/O error) consults the schedule
  \<open>fs_faults\<close>: the next element says whether it fails. An exhausted schedule never fails.
  Theorems quantify over the schedule, so they hold for every pattern of failures.
\<close>

datatype inode_kind = Directory | Regular | Symlink | Special

record inode =
  in_kind :: inode_kind
  in_owned :: bool
  in_mode :: "12 word"
  in_data :: bytes

type_synonym file_path = "qstring list"

record fs =
  fs_nodes :: "file_path \<Rightarrow> inode option"
  fs_faults :: "bool list"

definition next_fault :: "fs \<Rightarrow> bool \<times> fs" where
  "next_fault s = (case fs_faults s of [] \<Rightarrow> (False, s) | b # bs \<Rightarrow> (b, s\<lparr>fs_faults := bs\<rparr>))"

definition path_string :: "file_path \<Rightarrow> qstring" where
  "path_string p = concat (map (\<lambda>c. 0x2F # c) p)"

text \<open>\<open>lstat\<close>: \<open>None\<close> when the call fails.\<close>

definition lstat :: "fs \<Rightarrow> file_path \<Rightarrow> inode option" where
  "lstat s p = fs_nodes s p"

definition group_other_free :: "inode \<Rightarrow> bool" where
  "group_other_free n \<longleftrightarrow> in_mode n AND 63 = 0"

text \<open>\<open>QDir::mkpath\<close>: creates the missing directories of a path, fails on a non-directory.\<close>

definition mkpath :: "fs \<Rightarrow> file_path \<Rightarrow> bool \<times> fs" where
  "mkpath s p =
     (let (fault, s1) = next_fault s
      in if fault then (False, s1)
         else if list_ex (\<lambda>k. case fs_nodes s (take k p) of
             Some n \<Rightarrow> in_kind n \<noteq> Directory \<and> in_kind n \<noteq> Symlink | None \<Rightarrow> False) [1..<Suc (length p)]
         then (False, s1)
         else (True, s1\<lparr>fs_nodes := (\<lambda>q. if fs_nodes s q = None \<and> q \<noteq> [] \<and> q = take (length q) p
             then Some \<lparr>in_kind = Directory, in_owned = True, in_mode = 493, in_data = []\<rparr>
             else fs_nodes s q)\<rparr>))"

definition chmod :: "fs \<Rightarrow> file_path \<Rightarrow> 12 word \<Rightarrow> bool \<times> fs" where
  "chmod s p m =
     (let (fault, s1) = next_fault s
      in if fault then (False, s1)
         else case fs_nodes s p of
             None \<Rightarrow> (False, s1)
           | Some n \<Rightarrow> (True, s1\<lparr>fs_nodes := (fs_nodes s)(p \<mapsto> n\<lparr>in_mode := m\<rparr>)\<rparr>))"

text \<open>The outcome of \<open>QSaveFile\<close>: the temporary file replaces the target in the rename of \<open>commit\<close>.\<close>

definition rename_over :: "fs \<Rightarrow> file_path \<Rightarrow> bytes \<Rightarrow> fs" where
  "rename_over s p bs = s\<lparr>fs_nodes := (fs_nodes s)
     (p \<mapsto> \<lparr>in_kind = Regular, in_owned = True, in_mode = 384, in_data = bs\<rparr>)\<rparr>"

lemma next_fault_nodes [simp]: "next_fault s = (b, s') \<Longrightarrow> fs_nodes s' = fs_nodes s"
  by (auto simp: next_fault_def split: list.splits)

lemma next_fault_none [simp]: "fs_faults s = [] \<Longrightarrow> next_fault s = (False, s)"
  by (simp add: next_fault_def)

lemma mkpath_keeps:
  assumes "mkpath s p = (ok, s')" "fs_nodes s q \<noteq> None"
  shows "fs_nodes s' q = fs_nodes s q"
  using assms by (auto simp: mkpath_def Let_def split: prod.splits if_splits)

lemma mkpath_outside:
  assumes "mkpath s p = (ok, s')" "q \<noteq> take (length q) p"
  shows "fs_nodes s' q = fs_nodes s q"
  using assms by (auto simp: mkpath_def Let_def split: prod.splits if_splits)

lemma mkpath_creates_directories:
  assumes "mkpath s p = (ok, s')" "fs_nodes s q = None" "fs_nodes s' q = Some n"
  shows "in_kind n = Directory"
  using assms by (auto simp: mkpath_def Let_def split: prod.splits if_splits)

lemma chmod_other: "chmod s p m = (ok, s') \<Longrightarrow> q \<noteq> p \<Longrightarrow> fs_nodes s' q = fs_nodes s q"
  by (auto simp: chmod_def Let_def split: prod.splits if_splits option.splits)

lemma chmod_same:
  assumes "chmod s p m = (ok, s')" "fs_nodes s p = Some n"
  shows "fs_nodes s' p = Some (if ok then n\<lparr>in_mode := m\<rparr> else n)"
  using assms by (auto simp: chmod_def Let_def split: prod.splits if_splits)

lemma chmod_missing: "chmod s p m = (ok, s') \<Longrightarrow> fs_nodes s p = None \<Longrightarrow> fs_nodes s' = fs_nodes s"
  by (auto simp: chmod_def Let_def split: prod.splits if_splits)

lemma rename_over_nodes [simp]:
  "fs_nodes (rename_over s p bs) = (fs_nodes s)
     (p \<mapsto> \<lparr>in_kind = Regular, in_owned = True, in_mode = 384, in_data = bs\<rparr>)"
  by (simp add: rename_over_def)

end
