(* ===== verification/Health_Store.thy ===== *)
theory Health_Store
  imports Contract Strict_Json Posix_Fs
begin

text \<open>
  src/src/coordinator/components/component_runtime_health_store.{h,cpp}: the durable record of
  which third-party packages are quarantined and which activations are still in probation.
  It is kept in two files, a recovery snapshot, whose write is the commit point, and an
  active mirror; \<open>load\<close> picks the newer valid one and repairs the other.
\<close>

section \<open>State\<close>

record health_record =
  hr_component_id :: qstring
  hr_package_digest :: qstring
  hr_state :: qstring
  hr_reason :: qstring
  hr_failure_count :: "32 word"

record pending_activation =
  pa_instance_id :: qstring
  pa_component_id :: qstring
  pa_package_digest :: qstring

record health_state =
  hs_revision :: "64 word"
  hs_safe_mode :: bool
  hs_records :: "health_record qmap"
  hs_pending :: "pending_activation qmap"

definition empty_health :: health_state where
  "empty_health = \<lparr>hs_revision = 0, hs_safe_mode = False, hs_records = [], hs_pending = []\<rparr>"

definition safe_mode_health :: health_state where
  "safe_mode_health = \<lparr>hs_revision = 0, hs_safe_mode = True, hs_records = [], hs_pending = []\<rparr>"

record health_paths =
  active_file :: file_path
  recovery_file :: file_path

definition standard_paths :: "file_path \<Rightarrow> health_paths" where
  "standard_paths state_root =
     \<lparr>active_file = state_root @ [Q ''hyprshelld'', Q ''component-runtime-health.json''],
      recovery_file = state_root @ [Q ''hyprshelld'', Q ''component-runtime-health.last-good.json'']\<rparr>"

datatype read_status = Missing | Valid | Damaged | Unsupported | Unreadable

record read_outcome =
  ro_status :: read_status
  ro_state :: health_state
  ro_error :: qstring

definition read_failure :: "read_status \<Rightarrow> qstring \<Rightarrow> read_outcome" where
  "read_failure st err = \<lparr>ro_status = st, ro_state = empty_health, ro_error = err\<rparr>"

definition read_success :: "health_state \<Rightarrow> read_outcome" where
  "read_success s = \<lparr>ro_status = Valid, ro_state = s, ro_error = []\<rparr>"

definition read_missing :: read_outcome where
  "read_missing = \<lparr>ro_status = Missing, ro_state = empty_health, ro_error = []\<rparr>"

definition health_format_version :: int where
  "health_format_version = 1"

definition maximum_health_bytes :: int where
  "maximum_health_bytes = 512 * 1024"

definition maximum_health_records :: nat where
  "maximum_health_records = 512"

definition record_key :: "qstring \<Rightarrow> qstring \<Rightarrow> qstring" where
  "record_key component_id package_digest = component_id @ [0x2F] @ package_digest"

definition is_known_quarantine_reason :: "qstring \<Rightarrow> bool" where
  "is_known_quarantine_reason r \<longleftrightarrow>
     r \<in> {Q ''incomplete-startup'', Q ''timeout'', Q ''render-failed'', Q ''protocol-invalid''}"

text \<open>The set \<open>packageStates\<close> of record keys and of the keys of pending activations, as a list.\<close>

definition pending_key :: "pending_activation \<Rightarrow> qstring" where
  "pending_key a = record_key (pa_component_id a) (pa_package_digest a)"

definition package_states :: "health_state \<Rightarrow> qstring list" where
  "package_states s = remdups (om_keys (hs_records s) @ map pending_key (om_values (hs_pending s)))"

section \<open>Serialisation\<close>

definition record_object :: "health_record \<Rightarrow> json" where
  "record_object r = JObj (json_object
     [(''componentId'', JStr (hr_component_id r)), (''packageDigest'', JStr (hr_package_digest r)),
      (''state'', JStr (hr_state r)), (''reason'', JStr (hr_reason r)),
      (''failureCount'', json_int (uint (hr_failure_count r)))])"

definition pending_object :: "pending_activation \<Rightarrow> json" where
  "pending_object a = JObj (json_object
     [(''instanceId'', JStr (pa_instance_id a)), (''componentId'', JStr (pa_component_id a)),
      (''packageDigest'', JStr (pa_package_digest a))])"

definition health_object :: "health_state \<Rightarrow> json qmap" where
  "health_object s = json_object
     [(''formatVersion'', json_int health_format_version),
      (''revision'', JStr (qnumber (unat (hs_revision s)))),
      (''safeMode'', JBool (hs_safe_mode s)),
      (''records'', JArr (map record_object (om_values (hs_records s)))),
      (''pending'', JArr (map pending_object (om_values (hs_pending s))))]"

definition serialize_health :: "qt_env \<Rightarrow> health_state \<Rightarrow> bytes" where
  "serialize_health E s = qt_compact E (JObj (health_object s)) @ [10]"

section \<open>Parsing\<close>

text \<open>One element of the \<open>records\<close> array; the error is the message up to \<open>%1\<close>.\<close>

definition parse_health_record :: "json \<Rightarrow> string + health_record" where
  "parse_health_record v =
     (if \<not> is_object (Some v) then Inl ''Invalid runtime health record in ''
      else
        let ob = to_object (Some v)
        in if \<not> exact_keys ob [''componentId'', ''packageDigest'', ''state'', ''reason'', ''failureCount'']
           then Inl ''Invalid runtime health record fields in ''
           else
             let component_id = map_of ob (Q ''componentId'');
                 package_digest = map_of ob (Q ''packageDigest'');
                 record_state = map_of ob (Q ''state'');
                 reason = map_of ob (Q ''reason'');
                 failures = map_of ob (Q ''failureCount'');
                 failure_count = to_integer (-1) failures
             in if \<not> is_string component_id \<or> \<not> is_valid_component_id (to_string component_id)
                   \<or> \<not> is_string package_digest \<or> \<not> is_full_sha256_digest (to_string package_digest)
                   \<or> \<not> is_string record_state \<or> to_string record_state \<noteq> Q ''quarantined''
                   \<or> \<not> is_string reason \<or> \<not> is_known_quarantine_reason (to_string reason)
                   \<or> \<not> is_double failures \<or> to_double failures \<noteq> of_int failure_count
                   \<or> failure_count < 1 \<or> 1000000 < failure_count
                then Inl ''Invalid runtime health record value in ''
                else Inr \<lparr>hr_component_id = to_string component_id,
                          hr_package_digest = to_string package_digest,
                          hr_state = to_string record_state, hr_reason = to_string reason,
                          hr_failure_count = word_of_int failure_count\<rparr>)"

fun parse_health_records :: "json list \<Rightarrow> health_record qmap \<Rightarrow> string + health_record qmap" where
  "parse_health_records [] m = Inr m"
| "parse_health_records (v # vs) m =
     (case parse_health_record v of
        Inl e \<Rightarrow> Inl e
      | Inr r \<Rightarrow>
          let k = record_key (hr_component_id r) (hr_package_digest r)
          in if om_contains m k then Inl ''Duplicate runtime health record in ''
             else parse_health_records vs (om_insert k r m))"

definition parse_pending :: "json \<Rightarrow> string + pending_activation" where
  "parse_pending v =
     (if \<not> is_object (Some v) then Inl ''Invalid pending activation in ''
      else
        let ob = to_object (Some v)
        in if \<not> exact_keys ob [''instanceId'', ''componentId'', ''packageDigest'']
           then Inl ''Invalid pending activation fields in ''
           else
             let instance_id = map_of ob (Q ''instanceId'');
                 component_id = map_of ob (Q ''componentId'');
                 package_digest = map_of ob (Q ''packageDigest'')
             in if \<not> is_string instance_id \<or> \<not> is_lowercase_uuid_v4 (to_string instance_id)
                   \<or> \<not> is_string component_id \<or> \<not> is_valid_component_id (to_string component_id)
                   \<or> \<not> is_string package_digest \<or> \<not> is_full_sha256_digest (to_string package_digest)
                then Inl ''Invalid pending activation value in ''
                else Inr \<lparr>pa_instance_id = to_string instance_id,
                          pa_component_id = to_string component_id,
                          pa_package_digest = to_string package_digest\<rparr>)"

fun parse_pendings :: "json list \<Rightarrow> pending_activation qmap \<Rightarrow> string + pending_activation qmap" where
  "parse_pendings [] m = Inr m"
| "parse_pendings (v # vs) m =
     (case parse_pending v of
        Inl e \<Rightarrow> Inl e
      | Inr a \<Rightarrow>
          if om_contains m (pa_instance_id a) then Inl ''Duplicate pending activation in ''
          else parse_pendings vs (om_insert (pa_instance_id a) a m))"

text \<open>The part of \<open>parseState\<close> after the root object has been read.\<close>

definition parse_health_root :: "json qmap \<Rightarrow> (read_status \<times> string) + health_state" where
  "parse_health_root doc =
     (let version = map_of doc (Q ''formatVersion'')
      in if \<not> is_double version \<or> to_double version \<noteq> of_int (to_integer (-1) version)
         then Inl (Damaged, ''Invalid runtime health version in '')
         else if health_format_version < to_integer 0 version
         then Inl (Unsupported, ''Unsupported runtime health version in '')
         else if to_integer 0 version \<noteq> health_format_version
         then Inl (Damaged, ''Invalid runtime health version in '')
         else if \<not> exact_keys doc [''formatVersion'', ''revision'', ''safeMode'', ''records'', ''pending'']
         then Inl (Damaged, ''Invalid runtime health fields in '')
         else
           let revision = map_of doc (Q ''revision''); safe_mode = map_of doc (Q ''safeMode'');
               records = map_of doc (Q ''records''); pending = map_of doc (Q ''pending'')
           in if \<not> is_string revision \<or> parse_revision (to_string revision) = None
                 \<or> \<not> is_bool safe_mode
                 \<or> \<not> is_array records \<or> maximum_health_records < length (to_array records)
                 \<or> \<not> is_array pending \<or> maximum_health_records < length (to_array pending)
              then Inl (Damaged, ''Invalid runtime health values in '')
              else (case parse_health_records (to_array records) [] of
                  Inl e \<Rightarrow> Inl (Damaged, e)
                | Inr rs \<Rightarrow> (case parse_pendings (to_array pending) [] of
                      Inl e \<Rightarrow> Inl (Damaged, e)
                    | Inr ps \<Rightarrow>
                        let s = \<lparr>hs_revision = the (parse_revision (to_string revision)),
                                 hs_safe_mode = to_bool safe_mode, hs_records = rs, hs_pending = ps\<rparr>
                        in if maximum_health_records < length (package_states s)
                           then Inl (Damaged, ''Too many runtime package states in '')
                           else Inr s)))"

definition parse_state :: "qt_env \<Rightarrow> bytes \<Rightarrow> qstring \<Rightarrow> read_outcome" where
  "parse_state E bs loc =
     (let parsed = parse_object E maximum_health_bytes 8 bs
      in if \<not> vr_ok parsed then read_failure Damaged (Q ''Invalid runtime health JSON in '' @ loc)
         else case parse_health_root (the (vr_value parsed)) of
             Inl (st, e) \<Rightarrow> read_failure st (Q e @ loc)
           | Inr s \<Rightarrow> read_success s)"

section \<open>Files\<close>

text \<open>
  \<open>validatePathAncestry\<close>: every existing prefix of the directory must be a directory that is
  not a symbolic link. The result is the error, if there is one.
\<close>

fun check_ancestry :: "fs \<Rightarrow> file_path \<Rightarrow> file_path \<Rightarrow> qstring option" where
  "check_ancestry s current [] = None"
| "check_ancestry s current (piece # pieces) =
     (case lstat s (current @ [piece]) of
        None \<Rightarrow> check_ancestry s (current @ [piece]) pieces
      | Some n \<Rightarrow>
          if in_kind n \<noteq> Directory
          then Some (Q ''Runtime health path has unsafe ancestry: '' @ path_string (current @ [piece]))
          else check_ancestry s (current @ [piece]) pieces)"

definition validate_path_ancestry :: "fs \<Rightarrow> file_path \<Rightarrow> qstring option" where
  "validate_path_ancestry s p = check_ancestry s [] p"

definition not_private_error :: "file_path \<Rightarrow> qstring" where
  "not_private_error parent =
     Q ''Runtime health directory is not private user-owned storage: '' @ path_string parent"

definition prepare_parent :: "file_path \<Rightarrow> fs \<Rightarrow> qstring option \<times> fs" where
  "prepare_parent p s =
     (let parent = butlast p
      in case validate_path_ancestry s (butlast parent) of
          Some e \<Rightarrow> (Some e, s)
        | None \<Rightarrow>
            let (made, s1) = mkpath s parent
            in if \<not> made then
                 (Some (Q ''Cannot create runtime health directory '' @ path_string parent), s1)
               else case validate_path_ancestry s1 parent of
                   Some e \<Rightarrow> (Some e, s1)
                 | None \<Rightarrow>
                     (case lstat s1 parent of
                        None \<Rightarrow> (Some (not_private_error parent), s1)
                      | Some n \<Rightarrow>
                          if in_kind n \<noteq> Directory \<or> \<not> in_owned n then (Some (not_private_error parent), s1)
                          else let (changed, s2) = chmod s1 parent 448
                               in if \<not> changed then (Some (not_private_error parent), s2)
                                  else (None, s2)))"

definition private_immediate_parent :: "fs \<Rightarrow> file_path \<Rightarrow> qstring option" where
  "private_immediate_parent s p =
     (case lstat s (butlast p) of
        None \<Rightarrow> Some (not_private_error (butlast p))
      | Some n \<Rightarrow>
          if in_kind n \<noteq> Directory \<or> \<not> in_owned n \<or> \<not> group_other_free n
          then Some (not_private_error (butlast p)) else None)"

definition safe_regular_file :: "fs \<Rightarrow> file_path \<Rightarrow> qstring option" where
  "safe_regular_file s p =
     (case lstat s p of
        None \<Rightarrow> None
      | Some n \<Rightarrow>
          if in_kind n \<noteq> Regular \<or> \<not> in_owned n \<or> \<not> group_other_free n
          then Some (Q ''Runtime health file is not a regular user-owned file: '' @ path_string p)
          else None)"

text \<open>
  \<open>readFile\<close>. \<open>open\<close> fails with \<open>ENOENT\<close> when there is no such inode; it fails otherwise
  for a symbolic link (\<open>O_NOFOLLOW\<close>) and when the schedule says so.
\<close>

definition read_file :: "qt_env \<Rightarrow> file_path \<Rightarrow> fs \<Rightarrow> read_outcome \<times> fs" where
  "read_file E p s =
     (let ps = path_string p
      in case validate_path_ancestry s (butlast p) of
          Some e \<Rightarrow> (read_failure Unreadable e, s)
        | None \<Rightarrow>
            let (open_fault, s1) = next_fault s
            in if open_fault then (read_failure Unreadable (Q ''Cannot read runtime health state '' @ ps), s1)
               else case fs_nodes s1 p of
                   None \<Rightarrow> (read_missing, s1)
                 | Some n \<Rightarrow>
                     if in_kind n = Symlink then
                       (read_failure Unreadable (Q ''Cannot read runtime health state '' @ ps), s1)
                     else if in_kind n \<noteq> Regular \<or> \<not> in_owned n \<or> \<not> group_other_free n
                       \<or> maximum_health_bytes < int (length (in_data n)) then
                       (read_failure Unreadable (Q ''Unsafe runtime health state '' @ ps), s1)
                     else (case private_immediate_parent s1 p of
                         Some e \<Rightarrow> (read_failure Unreadable e, s1)
                       | None \<Rightarrow>
                           let (read_fault, s2) = next_fault s1
                           in if read_fault then
                                (read_failure Unreadable (Q ''Cannot read runtime health state '' @ ps), s2)
                              else (parse_state E (in_data n) ps, s2)))"

definition write_file :: "qt_env \<Rightarrow> file_path \<Rightarrow> health_state \<Rightarrow> fs \<Rightarrow> qstring option \<times> fs" where
  "write_file E p st s =
     (case prepare_parent p s of
        (Some e, s1) \<Rightarrow> (Some e, s1)
      | (None, s1) \<Rightarrow>
          (case safe_regular_file s1 p of
             Some e \<Rightarrow> (Some e, s1)
           | None \<Rightarrow>
               let (open_fault, s2) = next_fault s1;
                   cannot_open = Some (Q ''Cannot open runtime health state '' @ path_string p);
                   cannot_commit = Some (Q ''Cannot commit runtime health state '' @ path_string p)
               in if open_fault then (cannot_open, s2)
                  else let (mode_fault, s3) = next_fault s2
                       in if mode_fault then (cannot_open, s3)
                          else let (write_fault, s4) = next_fault s3
                               in if write_fault then (cannot_commit, s4)
                                  else let (commit_fault, s5) = next_fault s4
                                       in if commit_fault then (cannot_commit, s5)
                                          else (None, rename_over s5 p (serialize_health E st))))"

section \<open>Load and persist\<close>

record load_result =
  lr_success :: bool
  lr_state :: health_state
  lr_error :: qstring

datatype durability = NotDurable | RecoveryDurable | Mirrored

record persist_result =
  pr_durability :: durability
  pr_error :: qstring

definition durable :: "persist_result \<Rightarrow> bool" where
  "durable r \<longleftrightarrow> pr_durability r \<noteq> NotDurable"

datatype persist_phase = BeforeRecoveryCommit | BeforeActiveMirror

type_synonym fault_injector = "persist_phase \<Rightarrow> bool"

text \<open>
  What \<open>load\<close> does with the two snapshots: refuse, or select one and say which file to repair.
\<close>

datatype selection =
    NoState
  | Refuse qstring
  | Select health_state bool bool

definition is_unsafe :: "read_outcome \<Rightarrow> bool" where
  "is_unsafe r \<longleftrightarrow> ro_status r = Unsupported \<or> ro_status r = Unreadable"

definition select_snapshot :: "read_outcome \<Rightarrow> read_outcome \<Rightarrow> selection" where
  "select_snapshot a r =
     (let first_error = (if ro_error a \<noteq> [] then ro_error a else ro_error r)
      in if ro_status a = Missing \<and> ro_status r = Missing then NoState
         else if is_unsafe a \<or> is_unsafe r then Refuse first_error
         else if ro_status a = Valid \<and> ro_status r = Valid then
           (if hs_revision (ro_state a) = hs_revision (ro_state r) \<and> ro_state a \<noteq> ro_state r then
              Refuse (Q ''Runtime health snapshots disagree at one revision'')
            else if hs_revision (ro_state a) < hs_revision (ro_state r) then Select (ro_state r) True False
            else Select (ro_state a) False (ro_state r \<noteq> ro_state a))
         else if ro_status a = Valid then Select (ro_state a) False True
         else if ro_status r = Valid then Select (ro_state r) True False
         else Refuse first_error)"

definition load_failure :: "qstring \<Rightarrow> load_result" where
  "load_failure e = \<lparr>lr_success = False, lr_state = safe_mode_health, lr_error = e\<rparr>"

definition load_success :: "health_state \<Rightarrow> load_result" where
  "load_success st = \<lparr>lr_success = True, lr_state = st, lr_error = []\<rparr>"

definition load :: "qt_env \<Rightarrow> health_paths \<Rightarrow> fs \<Rightarrow> load_result \<times> fs" where
  "load E P s =
     (let (a, s1) = read_file E (active_file P) s; (r, s2) = read_file E (recovery_file P) s1
      in case select_snapshot a r of
          NoState \<Rightarrow> (load_success empty_health, s2)
        | Refuse e \<Rightarrow> (load_failure e, s2)
        | Select st repair_active repair_recovery \<Rightarrow>
            let (e1, s3) = (if repair_active then write_file E (active_file P) st s2 else (None, s2))
            in (case e1 of
                  Some e \<Rightarrow> (load_failure e, s3)
                | None \<Rightarrow>
                    let (e2, s4) = (if repair_recovery then write_file E (recovery_file P) st s3 else (None, s3))
                    in (case e2 of
                          Some e \<Rightarrow> (load_failure e, s4)
                        | None \<Rightarrow> (load_success st, s4))))"

definition not_durable :: "qstring \<Rightarrow> persist_result" where
  "not_durable e = \<lparr>pr_durability = NotDurable, pr_error = e\<rparr>"

text \<open>The path checks of \<open>persist\<close>, in the order of its condition.\<close>

definition prepare_targets :: "health_paths \<Rightarrow> fs \<Rightarrow> qstring option \<times> fs" where
  "prepare_targets P s =
     (case prepare_parent (recovery_file P) s of
        (Some e, s1) \<Rightarrow> (Some e, s1)
      | (None, s1) \<Rightarrow>
          (case safe_regular_file s1 (recovery_file P) of
             Some e \<Rightarrow> (Some e, s1)
           | None \<Rightarrow>
               (case prepare_parent (active_file P) s1 of
                  (Some e, s2) \<Rightarrow> (Some e, s2)
                | (None, s2) \<Rightarrow> (safe_regular_file s2 (active_file P), s2))))"

definition persist :: "qt_env \<Rightarrow> health_paths \<Rightarrow> fault_injector \<Rightarrow> health_state \<Rightarrow> fs \<Rightarrow> persist_result \<times> fs" where
  "persist E P inject st s =
     (let validated = parse_state E (serialize_health E st) (Q ''<memory>'')
      in if ro_status validated \<noteq> Valid \<or> ro_state validated \<noteq> st then
           (not_durable (Q ''Runtime health state violates storage bounds''), s)
         else case prepare_targets P s of
             (Some e, s1) \<Rightarrow> (not_durable e, s1)
           | (None, s1) \<Rightarrow>
               if inject BeforeRecoveryCommit then
                 (not_durable (Q ''Injected failure before runtime health recovery commit''), s1)
               else case write_file E (recovery_file P) st s1 of
                   (Some e, s2) \<Rightarrow> (not_durable e, s2)
                 | (None, s2) \<Rightarrow>
                     if inject BeforeActiveMirror then
                       (\<lparr>pr_durability = RecoveryDurable,
                         pr_error = Q ''Injected failure before runtime health active mirror''\<rparr>, s2)
                     else case write_file E (active_file P) st s2 of
                         (Some e, s3) \<Rightarrow> (\<lparr>pr_durability = RecoveryDurable, pr_error = e\<rparr>, s3)
                       | (None, s3) \<Rightarrow> (\<lparr>pr_durability = Mirrored, pr_error = []\<rparr>, s3))"

section \<open>The states a snapshot can hold\<close>

definition record_ok :: "health_record \<Rightarrow> bool" where
  "record_ok r \<longleftrightarrow> is_valid_component_id (hr_component_id r)
     \<and> is_full_sha256_digest (hr_package_digest r)
     \<and> hr_state r = Q ''quarantined'' \<and> is_known_quarantine_reason (hr_reason r)
     \<and> 1 \<le> uint (hr_failure_count r) \<and> uint (hr_failure_count r) \<le> 1000000"

definition pending_ok :: "pending_activation \<Rightarrow> bool" where
  "pending_ok a \<longleftrightarrow> is_lowercase_uuid_v4 (pa_instance_id a)
     \<and> is_valid_component_id (pa_component_id a) \<and> is_full_sha256_digest (pa_package_digest a)"

definition record_entry_ok :: "qstring \<times> health_record \<Rightarrow> bool" where
  "record_entry_ok p \<longleftrightarrow> record_ok (snd p)
     \<and> fst p = record_key (hr_component_id (snd p)) (hr_package_digest (snd p))"

definition pending_entry_ok :: "qstring \<times> pending_activation \<Rightarrow> bool" where
  "pending_entry_ok p \<longleftrightarrow> pending_ok (snd p) \<and> fst p = pa_instance_id (snd p)"

definition health_ok :: "health_state \<Rightarrow> bool" where
  "health_ok s \<longleftrightarrow> om_inv (hs_records s) \<and> list_all record_entry_ok (hs_records s)
     \<and> om_inv (hs_pending s) \<and> list_all pending_entry_ok (hs_pending s)
     \<and> length (hs_records s) \<le> maximum_health_records
     \<and> length (hs_pending s) \<le> maximum_health_records
     \<and> length (package_states s) \<le> maximum_health_records"

lemma uint_word_of_int_32: "0 \<le> i \<Longrightarrow> i \<le> 1000000 \<Longrightarrow> uint (word_of_int i :: 32 word) = i"
  by (simp add: uint_word_of_int)

lemma parse_health_record_ok: "parse_health_record v = Inr r \<Longrightarrow> record_ok r"
  by (auto simp: parse_health_record_def record_ok_def Let_def uint_word_of_int_32 split: if_splits)

lemma parse_pending_ok: "parse_pending v = Inr a \<Longrightarrow> pending_ok a"
  by (auto simp: parse_pending_def pending_ok_def Let_def split: if_splits)

lemma parse_health_records_ok:
  "parse_health_records vs m = Inr m' \<Longrightarrow> om_inv m \<Longrightarrow> list_all record_entry_ok m
   \<Longrightarrow> om_inv m' \<and> list_all record_entry_ok m' \<and> length m' = length m + length vs"
proof (induction vs arbitrary: m)
  case (Cons v vs)
  then obtain r where r: "parse_health_record v = Inr r"
    and new: "\<not> om_contains m (record_key (hr_component_id r) (hr_package_digest r))"
    and rest: "parse_health_records vs (om_insert (record_key (hr_component_id r) (hr_package_digest r)) r m) = Inr m'"
    by (auto simp: Let_def split: sum.splits if_splits)
  have "record_entry_ok (record_key (hr_component_id r) (hr_package_digest r), r)"
    using parse_health_record_ok [OF r] by (simp add: record_entry_ok_def)
  with Cons.IH [OF rest] Cons.prems new show ?case
    by (simp add: list_all_om_insert length_om_insert om_contains_def)
qed simp

lemma parse_pendings_ok:
  "parse_pendings vs m = Inr m' \<Longrightarrow> om_inv m \<Longrightarrow> list_all pending_entry_ok m
   \<Longrightarrow> om_inv m' \<and> list_all pending_entry_ok m' \<and> length m' = length m + length vs"
proof (induction vs arbitrary: m)
  case (Cons v vs)
  then obtain a where a: "parse_pending v = Inr a" and new: "\<not> om_contains m (pa_instance_id a)"
    and rest: "parse_pendings vs (om_insert (pa_instance_id a) a m) = Inr m'"
    by (auto simp: Let_def split: sum.splits if_splits)
  have "pending_entry_ok (pa_instance_id a, a)"
    using parse_pending_ok [OF a] by (simp add: pending_entry_ok_def)
  with Cons.IH [OF rest] Cons.prems new show ?case
    by (simp add: list_all_om_insert length_om_insert om_contains_def)
qed simp

lemma parse_health_root_ok:
  assumes "parse_health_root doc = Inr s"
  shows "health_ok s"
proof -
  from assms obtain rs ps where
    rs: "parse_health_records (to_array (map_of doc (Q ''records''))) [] = Inr rs"
    and ps: "parse_pendings (to_array (map_of doc (Q ''pending''))) [] = Inr ps"
    and s: "hs_records s = rs" "hs_pending s = ps"
    and bounds: "length (to_array (map_of doc (Q ''records''))) \<le> maximum_health_records"
      "length (to_array (map_of doc (Q ''pending''))) \<le> maximum_health_records"
      "length (package_states s) \<le> maximum_health_records"
    by (auto simp: parse_health_root_def Let_def split: if_splits sum.splits)
  with parse_health_records_ok [OF rs] parse_pendings_ok [OF ps] show ?thesis
    by (simp add: health_ok_def)
qed

section \<open>The snapshot format round-trips\<close>

lemma parse_record_object: "record_ok r \<Longrightarrow> parse_health_record (record_object r) = Inr r"
  by (simp add: record_ok_def parse_health_record_def record_object_def json_object_def exact_keys_def
      min_int64_def max_int64_def Let_def)

lemma parse_pending_object: "pending_ok a \<Longrightarrow> parse_pending (pending_object a) = Inr a"
  by (simp add: pending_ok_def parse_pending_def pending_object_def json_object_def exact_keys_def Let_def)

lemma parse_record_objects:
  "om_inv (m @ rs) \<Longrightarrow> list_all record_entry_ok rs \<Longrightarrow>
   parse_health_records (map record_object (om_values rs)) m = Inr (m @ rs)"
proof (induction rs arbitrary: m)
  case (Cons q rs)
  obtain k r where q: "q = (k, r)" by force
  have k: "record_ok r" "k = record_key (hr_component_id r) (hr_package_digest r)"
    using Cons.prems(2) q by (simp_all add: record_entry_ok_def)
  have inv: "om_inv ((m @ [(k, r)]) @ rs)" using Cons.prems(1) q by simp
  then have "om_inv (m @ [(k, r)])" by (metis om_inv_def map_append sorted_wrt_append)
  then have "\<forall>j \<in> fst ` set m. j < k" by (simp add: om_inv_snoc)
  then have "map_of m k = None" and "om_insert k r m = m @ [(k, r)]"
    by (auto simp: map_of_eq_None_iff intro: om_insert_last)
  with Cons.IH [OF inv] Cons.prems(2) q k show ?case
    by (simp add: parse_record_object Let_def om_contains_def)
qed simp

lemma parse_pending_objects:
  "om_inv (m @ ps) \<Longrightarrow> list_all pending_entry_ok ps \<Longrightarrow>
   parse_pendings (map pending_object (om_values ps)) m = Inr (m @ ps)"
proof (induction ps arbitrary: m)
  case (Cons q ps)
  obtain k a where q: "q = (k, a)" by force
  have k: "pending_ok a" "k = pa_instance_id a"
    using Cons.prems(2) q by (simp_all add: pending_entry_ok_def)
  have inv: "om_inv ((m @ [(k, a)]) @ ps)" using Cons.prems(1) q by simp
  then have "om_inv (m @ [(k, a)])" by (metis om_inv_def map_append sorted_wrt_append)
  then have "\<forall>j \<in> fst ` set m. j < k" by (simp add: om_inv_snoc)
  then have "map_of m k = None" and "om_insert k a m = m @ [(k, a)]"
    by (auto simp: map_of_eq_None_iff intro: om_insert_last)
  with Cons.IH [OF inv] Cons.prems(2) q k show ?case
    by (simp add: parse_pending_object om_contains_def)
qed simp

lemma parse_health_object:
  assumes "health_ok s"
  shows "parse_health_root (health_object s) = Inr s"
proof -
  have rev: "parse_revision (qnumber (unat (hs_revision s))) = Some (hs_revision s)"
    by (simp add: parse_revision_iff)
  have "parse_health_records (map record_object (om_values (hs_records s))) [] = Inr (hs_records s)"
    using assms parse_record_objects [of "[]"] by (simp add: health_ok_def)
  moreover have "parse_pendings (map pending_object (om_values (hs_pending s))) [] = Inr (hs_pending s)"
    using assms parse_pending_objects [of "[]"] by (simp add: health_ok_def)
  ultimately show ?thesis
    using assms rev
    by (simp add: parse_health_root_def health_object_def json_object_def exact_keys_def Let_def
        health_format_version_def min_int64_def max_int64_def health_ok_def package_states_def)
qed

end
