(* ===== verification/Durable_Store.thy ===== *)
theory Durable_Store
  imports Health_Store
begin

text \<open>
  What the coordinator relies on when it calls the health store: a snapshot reported as
  durable is what the next start reads, and a snapshot reported as not durable leaves the
  previous one in place. The contract is the locale \<open>durable_store\<close>; it is discharged for
  \<open>load\<close> and \<open>persist\<close> of the model on two sibling files, for every schedule of file
  system failures and every injected fault.
\<close>

section \<open>The contract\<close>

text \<open>A client that saves one state after another and remembers the last that was durable.\<close>

fun save_all :: "('s \<Rightarrow> 'd \<Rightarrow> bool \<times> 'd) \<Rightarrow> 's list \<Rightarrow> 's \<times> 'd \<Rightarrow> 's \<times> 'd" where
  "save_all save [] kd = kd"
| "save_all save (t # ts) (k, d) =
     (case save t d of (ok, d') \<Rightarrow> save_all save ts (if ok then t else k, d'))"

locale durable_store =
  fixes holds :: "'d \<Rightarrow> 's \<Rightarrow> bool"
    and save :: "'s \<Rightarrow> 'd \<Rightarrow> bool \<times> 'd"
    and restart :: "'d \<Rightarrow> 's option"
    and newer :: "'s \<Rightarrow> 's \<Rightarrow> bool"
  assumes save_durable: "holds d s \<Longrightarrow> newer t s \<Longrightarrow> save t d = (True, d') \<Longrightarrow> holds d' t"
    and save_failed: "holds d s \<Longrightarrow> newer t s \<Longrightarrow> save t d = (False, d') \<Longrightarrow> holds d' s"
    and restart_holds: "holds d s \<Longrightarrow> restart d = Some s"
begin

text \<open>
  When every state is newer than those before it, the store holds the remembered state
  wherever the run stops, and a restart reads exactly that one.
\<close>

lemma save_all_holds:
  "holds d k \<Longrightarrow> sorted_wrt (\<lambda>a b. newer b a) (k # ts) \<Longrightarrow>
   holds (snd (save_all save ts (k, d))) (fst (save_all save ts (k, d)))"
proof (induction ts arbitrary: k d)
  case (Cons t ts)
  obtain ok d' where sv: "save t d = (ok, d')" by force
  have new: "newer t k" using Cons.prems(2) by simp
  have "holds d' (if ok then t else k)"
    using save_durable [OF Cons.prems(1) new] save_failed [OF Cons.prems(1) new] sv by (cases ok) simp_all
  moreover have "sorted_wrt (\<lambda>a b. newer b a) ((if ok then t else k) # ts)"
    using Cons.prems(2) by simp
  ultimately show ?case using Cons.IH sv by simp
qed simp

lemma restart_after_saves:
  assumes "holds d k" "sorted_wrt (\<lambda>a b. newer b a) (k # ts)"
  shows "restart (snd (save_all save ts (k, d))) = Some (fst (save_all save ts (k, d)))"
  using save_all_holds [OF assms] by (rule restart_holds)

end

section \<open>Reading is a function of the inodes\<close>

text \<open>\<open>status_of\<close> is what \<open>read_file\<close> returns when no call fails.\<close>

definition status_of :: "qt_env \<Rightarrow> file_path \<Rightarrow> fs \<Rightarrow> read_outcome" where
  "status_of E p s = fst (read_file E p (s\<lparr>fs_faults := []\<rparr>))"

lemma check_ancestry_faults [simp]:
  "check_ancestry (s\<lparr>fs_faults := fl\<rparr>) c ps = check_ancestry s c ps"
  by (induction ps arbitrary: c) (auto simp: lstat_def split: option.splits)

lemma check_ancestry_None:
  "check_ancestry s c ps = None \<longleftrightarrow>
   (\<forall>k \<in> {1..length ps}. \<forall>n. fs_nodes s (c @ take k ps) = Some n \<longrightarrow> in_kind n = Directory)"
proof (induction ps arbitrary: c)
  case (Cons x ps)
  have split: "(\<forall>k \<in> {1..length (x # ps)}. P (c @ take k (x # ps)))
      \<longleftrightarrow> P (c @ [x]) \<and> (\<forall>k \<in> {1..length ps}. P ((c @ [x]) @ take k ps))" for P
  proof -
    have eq: "{1..Suc (length ps)} = insert 1 (Suc ` {1..length ps})"
      by (auto simp: image_iff Suc_le_eq)
    show ?thesis unfolding list.size add_0_right add_Suc_right eq
      by (simp del: image_Suc_atLeastAtMost)
  qed
  let ?P = "\<lambda>p. \<forall>n. fs_nodes s p = Some n \<longrightarrow> in_kind n = Directory"
  have "check_ancestry s c (x # ps) = None \<longleftrightarrow> ?P (c @ [x]) \<and> check_ancestry s (c @ [x]) ps = None"
    by (auto simp: lstat_def split: option.splits)
  then show ?case
    using Cons.IH [of "c @ [x]"] split [of ?P] by (simp only:)
qed simp

lemma validate_path_ancestry_None:
  "validate_path_ancestry s p = None \<longleftrightarrow>
   (\<forall>k \<in> {1..length p}. \<forall>n. fs_nodes s (take k p) = Some n \<longrightarrow> in_kind n = Directory)"
  by (simp add: validate_path_ancestry_def check_ancestry_None)

lemma status_of_alt:
  "status_of E p s =
   (case validate_path_ancestry s (butlast p) of
      Some e \<Rightarrow> read_failure Unreadable e
    | None \<Rightarrow> (case fs_nodes s p of
        None \<Rightarrow> read_missing
      | Some n \<Rightarrow>
          if in_kind n = Symlink then
            read_failure Unreadable (Q ''Cannot read runtime health state '' @ path_string p)
          else if in_kind n \<noteq> Regular \<or> \<not> in_owned n \<or> \<not> group_other_free n
            \<or> maximum_health_bytes < int (length (in_data n)) then
            read_failure Unreadable (Q ''Unsafe runtime health state '' @ path_string p)
          else (case private_immediate_parent s p of
              Some e \<Rightarrow> read_failure Unreadable e
            | None \<Rightarrow> parse_state E (in_data n) (path_string p))))"
  by (simp add: status_of_def read_file_def Let_def validate_path_ancestry_def
      private_immediate_parent_def lstat_def split: option.splits)

lemma private_immediate_parent_nodes:
  "fs_nodes s' = fs_nodes s \<Longrightarrow> private_immediate_parent s' p = private_immediate_parent s p"
  by (simp add: private_immediate_parent_def lstat_def)

lemma read_file_status:
  assumes "read_file E p s = (r, s')"
  shows "fs_nodes s' = fs_nodes s" and "r = status_of E p s \<or> ro_status r = Unreadable"
proof -
  show "fs_nodes s' = fs_nodes s"
    using assms by (auto simp: read_file_def Let_def split: option.splits prod.splits if_splits)
  show "r = status_of E p s \<or> ro_status r = Unreadable"
  proof (cases "validate_path_ancestry s (butlast p)")
    case (Some e)
    with assms show ?thesis by (auto simp: read_file_def read_failure_def)
  next
    case None
    obtain f1 s1 where f1: "next_fault s = (f1, s1)" by force
    then have nodes: "fs_nodes s1 = fs_nodes s" by simp
    obtain f2 s2 where f2: "next_fault s1 = (f2, s2)" by force
    show ?thesis
    proof (cases "f1 \<or> f2 \<and> ro_status r = Unreadable")
      case True
      with assms None f1 f2 show ?thesis by (auto simp: read_file_def read_failure_def)
    next
      case False
      with assms None f1 f2 nodes private_immediate_parent_nodes [OF nodes, of p] show ?thesis
        by (auto simp: read_file_def status_of_alt read_failure_def Let_def split: option.splits if_splits)
    qed
  qed
qed

lemma read_file_no_faults: "fs_faults s = [] \<Longrightarrow> read_file E p s = (status_of E p s, s)"
  by (auto simp: read_file_def status_of_alt Let_def split: option.splits)

section \<open>Writes disturb no other file\<close>

definition keeps_files :: "file_path \<Rightarrow> fs \<Rightarrow> fs \<Rightarrow> bool" where
  "keeps_files D s s' \<longleftrightarrow>
     (\<forall>p n. fs_nodes s p = Some n \<longrightarrow> (\<exists>n'. fs_nodes s' p = Some n' \<and> (p \<noteq> D \<longrightarrow> n' = n)
        \<and> in_kind n' = in_kind n \<and> in_owned n' = in_owned n
        \<and> (group_other_free n \<longrightarrow> group_other_free n')))
     \<and> (\<forall>p n'. fs_nodes s p = None \<longrightarrow> fs_nodes s' p = Some n' \<longrightarrow>
        in_kind n' = Directory \<and> p = take (length p) D)"

lemma keeps_files_nodes: "fs_nodes s' = fs_nodes s \<Longrightarrow> keeps_files D s s'"
  by (simp add: keeps_files_def)

lemma keeps_files_trans:
  assumes "keeps_files D s s'" "keeps_files D s' s''"
  shows "keeps_files D s s''"
proof -
  have 1: "\<exists>n''. fs_nodes s'' p = Some n'' \<and> (p \<noteq> D \<longrightarrow> n'' = n) \<and> in_kind n'' = in_kind n
      \<and> in_owned n'' = in_owned n \<and> (group_other_free n \<longrightarrow> group_other_free n'')"
    if p: "fs_nodes s p = Some n" for p n
  proof -
    from assms(1) p obtain n' where n': "fs_nodes s' p = Some n'" "p \<noteq> D \<longrightarrow> n' = n"
      "in_kind n' = in_kind n" "in_owned n' = in_owned n" "group_other_free n \<longrightarrow> group_other_free n'"
      unfolding keeps_files_def by blast
    with assms(2) show ?thesis unfolding keeps_files_def by (metis (no_types, lifting))
  qed
  moreover have "in_kind n'' = Directory \<and> p = take (length p) D"
    if "fs_nodes s p = None" "fs_nodes s'' p = Some n''" for p n''
    using assms that unfolding keeps_files_def
    by (cases "fs_nodes s' p") (blast, metis option.inject)
  ultimately show ?thesis unfolding keeps_files_def by blast
qed

lemma keeps_files_mkpath: "mkpath s D = (ok, s') \<Longrightarrow> keeps_files D s s'"
  by (auto simp: keeps_files_def mkpath_def Let_def split: prod.splits if_splits)

lemma keeps_files_chmod: "chmod s D 448 = (ok, s') \<Longrightarrow> keeps_files D s s'"
  by (auto simp: keeps_files_def chmod_def Let_def group_other_free_def
      split: prod.splits if_splits option.splits)

lemma keeps_files_prepare_parent: "prepare_parent p s = (e, s') \<Longrightarrow> keeps_files (butlast p) s s'"
  by (auto simp: prepare_parent_def Let_def keeps_files_nodes
      split: option.splits prod.splits if_splits
      intro: keeps_files_mkpath keeps_files_trans [OF keeps_files_mkpath keeps_files_chmod])

lemma take_prefix_neq: "q \<noteq> [] \<Longrightarrow> q \<noteq> take (length q) (butlast q)"
  by (metis butlast_conv_take diff_less length_butlast length_greater_0_conv length_take less_not_refl
      min.strict_coboundedI2 zero_less_one min_less_iff_conj)

lemma keeps_files_status:
  assumes keeps: "keeps_files (butlast q) s s'" and q: "q \<noteq> []"
    and readable: "ro_status (status_of E q s) \<noteq> Unreadable"
  shows "status_of E q s' = status_of E q s"
proof -
  let ?D = "butlast q"
  have v: "validate_path_ancestry s ?D = None"
    using readable by (auto simp: status_of_alt read_failure_def split: option.splits)
  have v': "validate_path_ancestry s' ?D = None"
    unfolding validate_path_ancestry_None
  proof (intro ballI allI impI)
    fix k n' assume k: "k \<in> {1..length ?D}" "fs_nodes s' (take k ?D) = Some n'"
    show "in_kind n' = Directory"
    proof (cases "fs_nodes s (take k ?D)")
      case None
      with keeps k show ?thesis unfolding keeps_files_def by blast
    next
      case (Some n)
      with v k(1) have "in_kind n = Directory" unfolding validate_path_ancestry_None by blast
      with keeps k Some show ?thesis unfolding keeps_files_def by (metis option.inject)
    qed
  qed
  have ne: "q \<noteq> ?D" "q \<noteq> take (length q) ?D"
    using q by (metis length_butlast diff_less length_greater_0_conv less_not_refl zero_less_one)
      (rule take_prefix_neq [OF q])
  show ?thesis
  proof (cases "fs_nodes s q")
    case None
    have "fs_nodes s' q = None"
    proof (rule ccontr)
      assume "fs_nodes s' q \<noteq> None"
      with keeps None have "q = take (length q) ?D" unfolding keeps_files_def by blast
      with ne(2) show False by blast
    qed
    with None v v' show ?thesis by (simp add: status_of_alt)
  next
    case (Some n)
    then have n': "fs_nodes s' q = Some n" using keeps ne unfolding keeps_files_def by metis
    have "private_immediate_parent s q = None"
      using readable v Some by (auto simp: status_of_alt read_failure_def split: if_splits option.splits)
    then have "private_immediate_parent s' q = None"
      using keeps unfolding keeps_files_def private_immediate_parent_def lstat_def
      by (auto split: option.splits if_splits) (metis option.inject)+
    with \<open>private_immediate_parent s q = None\<close> v v' Some n' show ?thesis
      by (simp add: status_of_alt)
  qed
qed

section \<open>What a successful write leaves behind\<close>

definition prepared :: "file_path \<Rightarrow> fs \<Rightarrow> bool" where
  "prepared D s \<longleftrightarrow> validate_path_ancestry s D = None \<and>
     (\<exists>n. fs_nodes s D = Some n \<and> in_kind n = Directory \<and> in_owned n \<and> group_other_free n)"

lemma validate_nodes: "fs_nodes s' = fs_nodes s \<Longrightarrow> validate_path_ancestry s' p = validate_path_ancestry s p"
proof -
  have "fs_nodes s' = fs_nodes s \<Longrightarrow> check_ancestry s' c p = check_ancestry s c p" for c
    by (induction p arbitrary: c) (auto simp: lstat_def split: option.splits)
  then show "fs_nodes s' = fs_nodes s \<Longrightarrow> ?thesis" by (simp add: validate_path_ancestry_def)
qed

lemma prepare_parent_prepared:
  assumes "prepare_parent p s = (None, s')"
  shows "prepared (butlast p) s'"
proof -
  let ?D = "butlast p"
  from assms obtain s1 n where s1: "validate_path_ancestry s1 ?D = None"
    and n: "fs_nodes s1 ?D = Some n" "in_kind n = Directory" "in_owned n"
    and ch: "chmod s1 ?D 448 = (True, s')"
    by (auto simp: prepare_parent_def Let_def lstat_def split: option.splits prod.splits if_splits)
  have s': "fs_nodes s' = (fs_nodes s1)(?D \<mapsto> n\<lparr>in_mode := 448\<rparr>)"
    using ch n by (auto simp: chmod_def Let_def split: prod.splits if_splits)
  have "validate_path_ancestry s' ?D = None"
    using s1 n unfolding validate_path_ancestry_None s' by auto
  then show ?thesis using n by (auto simp: prepared_def s' group_other_free_def)
qed

lemma write_file_failed:
  assumes "write_file E p st s = (Some e, s')"
  shows "keeps_files (butlast p) s s'"
  using assms
  by (auto simp: write_file_def Let_def dest!: keeps_files_prepare_parent
      split: option.splits prod.splits if_splits
      intro: keeps_files_trans [OF _ keeps_files_nodes])

lemma write_file_done:
  assumes "write_file E p st s = (None, s')"
  obtains s1 where "keeps_files (butlast p) s s1" "prepared (butlast p) s1"
    "fs_nodes s' = (fs_nodes s1)(p \<mapsto> \<lparr>in_kind = Regular, in_owned = True, in_mode = 384,
       in_data = serialize_health E st\<rparr>)"
proof -
  from assms obtain s1 s5 where prep: "prepare_parent p s = (None, s1)"
    and nodes: "fs_nodes s5 = fs_nodes s1" and s': "s' = rename_over s5 p (serialize_health E st)"
    by (auto simp: write_file_def Let_def split: option.splits prod.splits if_splits)
      (metis next_fault_nodes)
  show thesis
    using that [OF keeps_files_prepare_parent [OF prep] prepare_parent_prepared [OF prep]]
    by (simp add: s' nodes)
qed

lemma prepared_after_rename:
  assumes "prepared (butlast p) s" "p \<noteq> []" "fs_nodes s' = (fs_nodes s)(p \<mapsto> n)"
  shows "prepared (butlast p) s'"
proof -
  have ne: "take k (butlast p) \<noteq> p" for k
    using assms(2) by (metis diff_less length_butlast length_greater_0_conv length_take less_irrefl_nat
        less_le_trans min.cobounded1 zero_less_one)
  have "butlast p \<noteq> p" using ne [of "length (butlast p)"] by simp
  with assms ne show ?thesis
    by (auto simp: prepared_def validate_path_ancestry_None)
qed

lemma write_file_status:
  assumes w: "write_file E p st s = (None, s')" and p: "p \<noteq> []"
    and size: "int (length (serialize_health E st)) \<le> maximum_health_bytes"
  shows "status_of E p s' = parse_state E (serialize_health E st) (path_string p)"
proof -
  from w obtain s1 where prep: "prepared (butlast p) s1"
    and s': "fs_nodes s' = (fs_nodes s1)(p \<mapsto> \<lparr>in_kind = Regular, in_owned = True, in_mode = 384,
       in_data = serialize_health E st\<rparr>)" by (rule write_file_done)
  have "prepared (butlast p) s'" by (rule prepared_after_rename [OF prep p s'])
  then have "validate_path_ancestry s' (butlast p) = None" "private_immediate_parent s' p = None"
    by (auto simp: prepared_def private_immediate_parent_def lstat_def)
  then show ?thesis using s' size by (simp add: status_of_alt group_other_free_def)
qed

lemma write_file_other_status:
  assumes w: "write_file E p st s = (e, s')" and q: "q \<noteq> []" "q \<noteq> p" "butlast q = butlast p" "p \<noteq> []"
    and readable: "ro_status (status_of E q s) \<noteq> Unreadable"
  shows "status_of E q s' = status_of E q s"
proof (cases e)
  case (Some err)
  with w write_file_failed q have "keeps_files (butlast q) s s'" by metis
  then show ?thesis by (rule keeps_files_status [OF _ q(1) readable])
next
  case None
  with w obtain s1 where keep: "keeps_files (butlast p) s s1" and prep: "prepared (butlast p) s1"
    and s': "fs_nodes s' = (fs_nodes s1)(p \<mapsto> \<lparr>in_kind = Regular, in_owned = True, in_mode = 384,
       in_data = serialize_health E st\<rparr>)" using write_file_done by metis
  have prep': "prepared (butlast q) s'" using prepared_after_rename [OF prep q(4) s'] q(3) by simp
  have "private_immediate_parent s1 q = None" "private_immediate_parent s' q = None"
    using prep prep' q(3) by (auto simp: prepared_def private_immediate_parent_def lstat_def)
  then have "status_of E q s' = status_of E q s1"
    using prep prep' q s' by (auto simp: status_of_alt prepared_def split: option.splits)
  also have "\<dots> = status_of E q s"
    using keeps_files_status [OF keep [folded q(3)] q(1) readable] .
  finally show ?thesis .
qed

section \<open>The snapshot a pair of files holds\<close>

definition sibling_paths :: "health_paths \<Rightarrow> bool" where
  "sibling_paths P \<longleftrightarrow> active_file P \<noteq> [] \<and> recovery_file P \<noteq> []
     \<and> active_file P \<noteq> recovery_file P \<and> butlast (active_file P) = butlast (recovery_file P)"

lemma sibling_standard_paths: "sibling_paths (standard_paths state_root)"
  by (simp add: sibling_paths_def standard_paths_def butlast_append)

definition selected :: "selection \<Rightarrow> health_state option" where
  "selected x = (case x of NoState \<Rightarrow> Some empty_health | Refuse e \<Rightarrow> None | Select st a r \<Rightarrow> Some st)"

definition snapshot :: "qt_env \<Rightarrow> health_paths \<Rightarrow> fs \<Rightarrow> health_state option" where
  "snapshot E P s = selected (select_snapshot (status_of E (active_file P) s) (status_of E (recovery_file P) s))"

lemma snapshot_readable:
  assumes "snapshot E P s = Some st"
  shows "ro_status (status_of E (active_file P) s) \<noteq> Unreadable"
    "ro_status (status_of E (recovery_file P) s) \<noteq> Unreadable"
  using assms by (auto simp: snapshot_def selected_def select_snapshot_def is_unsafe_def Let_def split: if_splits)

lemma snapshot_eq:
  assumes "status_of E (active_file P) s' = status_of E (active_file P) s"
    "status_of E (recovery_file P) s' = status_of E (recovery_file P) s"
  shows "snapshot E P s' = snapshot E P s"
  using assms by (simp add: snapshot_def)

lemma snapshot_keeps:
  assumes "sibling_paths P" "keeps_files (butlast (active_file P)) s s'" "snapshot E P s = Some st"
  shows "snapshot E P s' = Some st"
  using assms snapshot_readable [OF assms(3)]
  by (metis keeps_files_status sibling_paths_def snapshot_eq)

lemma parse_health_root_error: "parse_health_root doc = Inl (st, e) \<Longrightarrow> st = Damaged \<or> st = Unsupported"
  by (auto simp: parse_health_root_def Let_def split: if_splits sum.splits)

lemma parse_state_Valid:
  assumes "ro_status (parse_state E bs loc) = Valid"
  shows "parse_state E bs loc' = read_success (ro_state (parse_state E bs loc))"
    "int (length bs) \<le> maximum_health_bytes" "health_ok (ro_state (parse_state E bs loc))"
proof -
  let ?parsed = "parse_object E maximum_health_bytes 8 bs"
  have ok: "vr_ok ?parsed"
    using assms by (cases "vr_ok ?parsed") (simp_all add: parse_state_def read_failure_def)
  then show "int (length bs) \<le> maximum_health_bytes" by (rule parse_object_ok)
  have "parse_state E bs loc' = read_success (ro_state (parse_state E bs loc))
    \<and> health_ok (ro_state (parse_state E bs loc))"
  proof (cases "parse_health_root (the (vr_value ?parsed))")
    case (Inl x)
    obtain st e where "x = (st, e)" by force
    with Inl ok assms parse_health_root_error [of _ st e] show ?thesis
      by (auto simp: parse_state_def read_failure_def)
  next
    case (Inr s)
    with ok parse_health_root_ok [OF Inr] show ?thesis by (simp add: parse_state_def read_success_def)
  qed
  then show "parse_state E bs loc' = read_success (ro_state (parse_state E bs loc))"
    "health_ok (ro_state (parse_state E bs loc))" by simp_all
qed

lemma status_of_Valid:
  assumes "ro_status (status_of E p s) = Valid"
  shows "health_ok (ro_state (status_of E p s))"
  using assms parse_state_Valid(3)
  by (auto simp: status_of_alt read_failure_def read_missing_def split: option.splits if_splits)

lemma snapshot_health_ok:
  assumes "snapshot E P s = Some st"
  shows "health_ok st"
proof -
  have "health_ok empty_health" by (simp add: health_ok_def empty_health_def package_states_def)
  with assms status_of_Valid [of E "active_file P" s] status_of_Valid [of E "recovery_file P" s] show ?thesis
    by (auto simp: snapshot_def selected_def select_snapshot_def Let_def split: if_splits)
qed

text \<open>A state whose serialisation parses back is what a successful write makes readable.\<close>

definition storable :: "qt_env \<Rightarrow> health_state \<Rightarrow> bool" where
  "storable E st \<longleftrightarrow> parse_state E (serialize_health E st) (Q ''<memory>'') = read_success st"

lemma write_file_holds:
  assumes "write_file E p st s = (None, s')" "p \<noteq> []" "storable E st"
  shows "status_of E p s' = read_success st"
proof -
  have "ro_status (parse_state E (serialize_health E st) (Q ''<memory>'')) = Valid"
    using assms(3) by (simp add: storable_def read_success_def)
  note valid = parse_state_Valid [OF this]
  have "status_of E p s' = parse_state E (serialize_health E st) (path_string p)"
    by (rule write_file_status [OF assms(1,2) valid(2)])
  also have "\<dots> = read_success st"
    using valid(1) [of "path_string p"] assms(3) by (simp add: storable_def read_success_def)
  finally show ?thesis .
qed

lemma storable_iff:
  "storable E st \<longleftrightarrow> ro_status (parse_state E (serialize_health E st) (Q ''<memory>'')) = Valid
     \<and> ro_state (parse_state E (serialize_health E st) (Q ''<memory>'')) = st"
  using parse_state_Valid(1) [of E "serialize_health E st" "Q ''<memory>''" "Q ''<memory>''"]
  by (auto simp: storable_def) (simp_all add: read_success_def)

lemma prepare_targets_keeps:
  assumes "sibling_paths P" "prepare_targets P s = (e, s')"
  shows "keeps_files (butlast (active_file P)) s s'"
proof -
  have D: "butlast (recovery_file P) = butlast (active_file P)" using assms(1) by (simp add: sibling_paths_def)
  obtain e1 s1 where p1: "prepare_parent (recovery_file P) s = (e1, s1)" by force
  then have k1: "keeps_files (butlast (active_file P)) s s1" using keeps_files_prepare_parent D by metis
  obtain e2 s2 where p2: "prepare_parent (active_file P) s1 = (e2, s2)" by force
  then have "keeps_files (butlast (active_file P)) s1 s2" by (rule keeps_files_prepare_parent)
  with k1 have k2: "keeps_files (butlast (active_file P)) s s2" by (rule keeps_files_trans)
  have "s' = s1 \<or> s' = s2"
    using assms(2) p1 p2 by (auto simp: prepare_targets_def split: option.splits)
  with k1 k2 show ?thesis by blast
qed

section \<open>Persist\<close>

lemma persist_not_durable:
  assumes P: "sibling_paths P" and h: "snapshot E P s = Some old"
    and p: "persist E P inject st s = (r, s')" and nd: "\<not> durable r"
  shows "snapshot E P s' = Some old"
proof -
  have D: "butlast (recovery_file P) = butlast (active_file P)" using P by (simp add: sibling_paths_def)
  obtain e1 s1 where p1: "prepare_targets P s = (e1, s1)" by force
  then have k1: "keeps_files (butlast (active_file P)) s s1" by (rule prepare_targets_keeps [OF P])
  have "s' = s \<or> s' = s1 \<or> (\<exists>e. write_file E (recovery_file P) st s1 = (Some e, s'))"
    using p nd p1 by (auto simp: persist_def Let_def durable_def not_durable_def
        split: option.splits prod.splits if_splits)
  then have "keeps_files (butlast (active_file P)) s s'"
    using k1 keeps_files_nodes [of s s] write_file_failed D keeps_files_trans by metis
  then show ?thesis by (rule snapshot_keeps [OF P _ h])
qed

lemma persist_durable_files:
  assumes P: "sibling_paths P" and h: "snapshot E P s = Some old"
    and p: "persist E P inject st s = (r, s')" and d: "durable r"
  shows "storable E st" "status_of E (recovery_file P) s' = read_success st"
    "status_of E (active_file P) s' \<in> {status_of E (active_file P) s, read_success st}"
proof -
  have ne: "active_file P \<noteq> []" "recovery_file P \<noteq> []" "active_file P \<noteq> recovery_file P"
    "butlast (active_file P) = butlast (recovery_file P)" using P by (simp_all add: sibling_paths_def)
  from p d show st: "storable E st"
    by (auto simp: persist_def Let_def durable_def not_durable_def storable_iff split: if_splits)
  from p d obtain s1 s2 where prep: "prepare_targets P s = (None, s1)"
    and rec: "write_file E (recovery_file P) st s1 = (None, s2)"
    and act: "s' = s2 \<or> (\<exists>e. write_file E (active_file P) st s2 = (e, s'))"
    by (auto simp: persist_def Let_def durable_def not_durable_def
        split: if_splits option.splits prod.splits)
  note keep = prepare_targets_keeps [OF P prep]
  have a1: "status_of E (active_file P) s1 = status_of E (active_file P) s"
    by (rule keeps_files_status [OF keep ne(1) snapshot_readable(1) [OF h]])
  have a2: "status_of E (active_file P) s2 = status_of E (active_file P) s"
    using write_file_other_status [OF rec ne(1) ne(3) ne(4) ne(2)] a1 snapshot_readable(1) [OF h] by simp
  have r2: "status_of E (recovery_file P) s2 = read_success st"
    by (rule write_file_holds [OF rec ne(2) st])
  then have ok: "ro_status (status_of E (recovery_file P) s2) \<noteq> Unreadable" by (simp add: read_success_def)
  show "status_of E (recovery_file P) s' = read_success st"
    using act write_file_other_status [OF _ ne(2) ne(3) [symmetric] ne(4) [symmetric] ne(1) ok] r2 by auto
  show "status_of E (active_file P) s' \<in> {status_of E (active_file P) s, read_success st}"
  proof (cases "s' = s2")
    case False
    with act obtain e where w: "write_file E (active_file P) st s2 = (e, s')" by blast
    show ?thesis
    proof (cases e)
      case None
      with w write_file_holds [OF _ ne(1) st] show ?thesis by simp
    next
      case (Some err)
      with w have "keeps_files (butlast (active_file P)) s2 s'" using write_file_failed by blast
      from keeps_files_status [OF this ne(1)] a2 snapshot_readable(1) [OF h] show ?thesis by simp
    qed
  qed (simp add: a2)
qed

lemma persist_durable:
  assumes "sibling_paths P" "snapshot E P s = Some old" "hs_revision old < hs_revision st"
    "persist E P inject st s = (r, s')" "durable r"
  shows "snapshot E P s' = Some st"
proof -
  note files = persist_durable_files [OF assms(1,2,4,5)]
  have old: "ro_status (status_of E (active_file P) s) \<in> {Missing, Damaged} \<or>
      ro_status (status_of E (active_file P) s) = Valid \<and>
      hs_revision (ro_state (status_of E (active_file P) s)) \<le> hs_revision old"
    using assms(2)
    by (cases "ro_status (status_of E (active_file P) s)")
      (auto simp: snapshot_def selected_def select_snapshot_def is_unsafe_def Let_def split: if_splits)
  from files(3) consider "status_of E (active_file P) s' = read_success st"
    | "status_of E (active_file P) s' = status_of E (active_file P) s" by blast
  then show ?thesis
  proof cases
    case 1
    with files(2) show ?thesis
      by (simp add: snapshot_def selected_def select_snapshot_def is_unsafe_def read_success_def Let_def)
  next
    case 2
    with files(2) old assms(3) show ?thesis
      by (auto simp: snapshot_def selected_def select_snapshot_def is_unsafe_def read_success_def Let_def)
  qed
qed

section \<open>Load\<close>

text \<open>
  A successful load, under every schedule of failures, returns the state the two files held
  before it started; a failed one returns the safe mode state.
\<close>

lemma load_sound:
  assumes l: "load E P s = (r, s')"
  shows "lr_success r \<Longrightarrow> snapshot E P s = Some (lr_state r)"
    "\<not> lr_success r \<Longrightarrow> lr_state r = safe_mode_health"
proof -
  obtain a s1 where a: "read_file E (active_file P) s = (a, s1)" by force
  obtain b s2 where b: "read_file E (recovery_file P) s1 = (b, s2)" by force
  have nodes: "fs_nodes s1 = fs_nodes s" by (rule read_file_status [OF a])
  have eq: "status_of E q s1 = status_of E q s" for q
    unfolding status_of_alt validate_nodes [OF nodes] private_immediate_parent_nodes [OF nodes] nodes ..
  have ab: "a = status_of E (active_file P) s \<or> ro_status a = Unreadable"
    "b = status_of E (recovery_file P) s \<or> ro_status b = Unreadable"
    using read_file_status(2) [OF a] read_file_status(2) [OF b] eq by auto
  show "snapshot E P s = Some (lr_state r)" if "lr_success r"
  proof -
    from l a b that have sel: "selected (select_snapshot a b) = Some (lr_state r)"
      by (auto simp: load_def selected_def load_success_def load_failure_def Let_def
          split: selection.splits prod.splits option.splits)
    then have "ro_status a \<noteq> Unreadable" "ro_status b \<noteq> Unreadable"
      by (auto simp: selected_def select_snapshot_def is_unsafe_def Let_def split: if_splits)
    with ab sel show ?thesis by (simp add: snapshot_def)
  qed
  show "lr_state r = safe_mode_health" if "\<not> lr_success r"
    using l a b that by (auto simp: load_def load_success_def load_failure_def Let_def
          split: selection.splits prod.splits option.splits)
qed

text \<open>A successful load of a state that can be written back leaves the files holding it.\<close>

lemma load_keeps:
  assumes P: "sibling_paths P" and l: "load E P s = (r, s')" and ok: "lr_success r" and st: "storable E (lr_state r)"
  shows "snapshot E P s' = Some (lr_state r)"
proof -
  have ne: "active_file P \<noteq> []" "recovery_file P \<noteq> []" "active_file P \<noteq> recovery_file P"
    "butlast (active_file P) = butlast (recovery_file P)" using P by (simp_all add: sibling_paths_def)
  obtain a s1 where a: "read_file E (active_file P) s = (a, s1)" by force
  obtain b s2 where b: "read_file E (recovery_file P) s1 = (b, s2)" by force
  have nodes: "fs_nodes s1 = fs_nodes s" "fs_nodes s2 = fs_nodes s"
    using read_file_status(1) [OF a] read_file_status(1) [OF b] by simp_all
  have eq: "status_of E q s1 = status_of E q s" "status_of E q s2 = status_of E q s" for q
    unfolding status_of_alt validate_nodes [OF nodes(1)] validate_nodes [OF nodes(2)]
      private_immediate_parent_nodes [OF nodes(1)] private_immediate_parent_nodes [OF nodes(2)] nodes by simp_all
  have ab: "a = status_of E (active_file P) s \<or> ro_status a = Unreadable"
    "b = status_of E (recovery_file P) s \<or> ro_status b = Unreadable"
    using read_file_status(2) [OF a] read_file_status(2) [OF b] eq by auto
  have sel: "selected (select_snapshot a b) = Some (lr_state r)"
    using l a b ok by (auto simp: load_def selected_def load_success_def load_failure_def Let_def
        split: selection.splits prod.splits option.splits)
  then have "ro_status a \<noteq> Unreadable" "ro_status b \<noteq> Unreadable"
    by (auto simp: selected_def select_snapshot_def is_unsafe_def Let_def split: if_splits)
  with ab have ab: "a = status_of E (active_file P) s2" "b = status_of E (recovery_file P) s2" by (simp_all add: eq)
  consider "s' = s2"
    | "write_file E (active_file P) (lr_state r) s2 = (None, s')" "ro_status b = Valid" "ro_state b = lr_state r"
    | "write_file E (recovery_file P) (lr_state r) s2 = (None, s')" "ro_status a = Valid" "ro_state a = lr_state r"
    using l a b ok
    by (auto simp: load_def select_snapshot_def load_success_def load_failure_def Let_def
        split: if_splits prod.splits option.splits)
  then show ?thesis
  proof cases
    case 1
    with sel ab show ?thesis by (simp add: snapshot_def)
  next
    case 2
    have "status_of E (recovery_file P) s' = status_of E (recovery_file P) s2"
      using write_file_other_status [OF 2(1) ne(2) ne(3) [symmetric] ne(4) [symmetric] ne(1)] ab(2) 2(2) by simp
    moreover have "status_of E (active_file P) s' = read_success (lr_state r)"
      by (rule write_file_holds [OF 2(1) ne(1) st])
    ultimately show ?thesis
      using ab 2 by (simp add: snapshot_def selected_def select_snapshot_def is_unsafe_def read_success_def Let_def)
  next
    case 3
    have "status_of E (active_file P) s' = status_of E (active_file P) s2"
      using write_file_other_status [OF 3(1) ne(1) ne(3) ne(4) ne(2)] ab(1) 3(2) by simp
    moreover have "status_of E (recovery_file P) s' = read_success (lr_state r)"
      by (rule write_file_holds [OF 3(1) ne(2) st])
    ultimately show ?thesis
      using ab 3 by (simp add: snapshot_def selected_def select_snapshot_def is_unsafe_def read_success_def Let_def)
  qed
qed

text \<open>When nothing fails, a prepared directory accepts the write of a safe file.\<close>

lemma prefix_butlast: "take k (butlast D) = take (min k (length D - 1)) D"
  by (simp add: butlast_conv_take take_take)

lemma prepare_parent_no_faults:
  assumes prep: "prepared (butlast p) s" and nf: "fs_faults s = []" and p: "p \<noteq> []"
  obtains s' where "prepare_parent p s = (None, s')" "fs_faults s' = []" "fs_nodes s' p = fs_nodes s p"
proof -
  let ?D = "butlast p"
  from prep obtain n where v: "validate_path_ancestry s ?D = None"
    and n: "fs_nodes s ?D = Some n" "in_kind n = Directory" "in_owned n" "group_other_free n"
    by (auto simp: prepared_def)
  have v0: "validate_path_ancestry s (butlast ?D) = None"
    unfolding validate_path_ancestry_None
  proof (intro ballI allI impI)
    fix k m assume k: "k \<in> {1..length (butlast ?D)}" and m: "fs_nodes s (take k (butlast ?D)) = Some m"
    from k have "k \<in> {1..length ?D}" and "take k (butlast ?D) = take k ?D" by (auto simp: prefix_butlast min_def)
    with v m show "in_kind m = Directory" unfolding validate_path_ancestry_None by metis
  qed
  obtain s1 where m: "mkpath s ?D = (True, s1)" and f1: "fs_faults s1 = []"
    and n1: "fs_nodes s1 = (\<lambda>q. if fs_nodes s q = None \<and> q \<noteq> [] \<and> q = take (length q) ?D
             then Some \<lparr>in_kind = Directory, in_owned = True, in_mode = 493, in_data = []\<rparr>
             else fs_nodes s q)"
  proof -
    have "\<not> list_ex (\<lambda>k. case fs_nodes s (take k ?D) of
        Some n \<Rightarrow> in_kind n \<noteq> Directory \<and> in_kind n \<noteq> Symlink | None \<Rightarrow> False) [1..<Suc (length ?D)]"
      using v unfolding validate_path_ancestry_None by (auto simp: list_ex_iff split: option.splits)
    then have "mkpath s ?D = (True, s\<lparr>fs_nodes := \<lambda>q. if fs_nodes s q = None \<and> q \<noteq> [] \<and> q = take (length q) ?D
             then Some \<lparr>in_kind = Directory, in_owned = True, in_mode = 493, in_data = []\<rparr>
             else fs_nodes s q\<rparr>)" using nf by (simp add: mkpath_def del: upt_Suc)
    then show thesis by (rule that) (simp_all add: nf)
  qed
  have v1: "validate_path_ancestry s1 ?D = None"
    using v unfolding validate_path_ancestry_None n1 by auto
  have d1: "fs_nodes s1 ?D = Some n" using n(1) n1 by simp
  obtain s2 where c: "chmod s1 ?D 448 = (True, s2)" "fs_faults s2 = []"
    "fs_nodes s2 = (fs_nodes s1)(?D \<mapsto> n\<lparr>in_mode := 448\<rparr>)"
  proof (rule that)
    show "chmod s1 ?D 448 = (True, s1\<lparr>fs_nodes := (fs_nodes s1)(?D \<mapsto> n\<lparr>in_mode := 448\<rparr>)\<rparr>)"
      using f1 d1 by (simp add: chmod_def)
  qed (simp_all add: f1)
  have ne: "p \<noteq> ?D" "p \<noteq> take (length p) ?D"
    using p by (metis length_butlast diff_less length_greater_0_conv less_not_refl zero_less_one)
      (rule take_prefix_neq [OF p])
  have "fs_nodes s2 p = fs_nodes s p" using c(3) n1 ne by simp
  then show thesis
    using that [of s2] v0 m v1 d1 n c by (simp add: prepare_parent_def lstat_def)
qed

lemma write_file_no_faults:
  assumes "prepared (butlast p) s" "fs_faults s = []" "p \<noteq> []"
    and readable: "ro_status (status_of E p s) \<in> {Missing, Damaged, Valid}"
  obtains s' where "write_file E p st s = (None, s')" "fs_faults s' = []"
proof -
  obtain s1 where s1: "prepare_parent p s = (None, s1)" "fs_faults s1 = []" "fs_nodes s1 p = fs_nodes s p"
    using prepare_parent_no_faults [OF assms(1-3)] .
  have "validate_path_ancestry s (butlast p) = None" using assms(1) by (simp add: prepared_def)
  with readable have "safe_regular_file s p = None"
    by (auto simp: status_of_alt safe_regular_file_def lstat_def read_failure_def split: option.splits if_splits)
  then have "safe_regular_file s1 p = None" using s1(3) by (simp add: safe_regular_file_def lstat_def)
  with s1 show thesis using that by (simp add: write_file_def rename_over_def)
qed

lemma readable_prepared:
  assumes "ro_status (status_of E p s) \<in> {Damaged, Valid}"
  shows "prepared (butlast p) s"
  using assms
  by (auto simp: status_of_alt prepared_def read_failure_def read_missing_def private_immediate_parent_def lstat_def
      split: option.splits if_splits)

lemma load_no_faults:
  assumes P: "sibling_paths P" and h: "snapshot E P s = Some st" and nf: "fs_faults s = []"
  shows "fst (load E P s) = load_success st"
proof -
  have ne: "active_file P \<noteq> []" "recovery_file P \<noteq> []" "butlast (active_file P) = butlast (recovery_file P)"
    using P by (simp_all add: sibling_paths_def)
  let ?a = "status_of E (active_file P) s" and ?r = "status_of E (recovery_file P) s"
  have ra: "read_file E (active_file P) s = (?a, s)" and rr: "read_file E (recovery_file P) s = (?r, s)"
    by (simp_all add: read_file_no_faults nf)
  consider "select_snapshot ?a ?r = NoState" "st = empty_health"
    | ra rr where "select_snapshot ?a ?r = Select st ra rr" "\<not> (ra \<and> rr)"
    using h unfolding snapshot_def selected_def
    by (cases "select_snapshot ?a ?r") (auto simp: select_snapshot_def Let_def split: if_splits)
  then show ?thesis
  proof cases
    case 1
    then show ?thesis by (simp add: load_def ra rr)
  next
    case 2
    have ok: "ro_status ?a \<in> {Missing, Damaged, Valid}" "ro_status ?r \<in> {Missing, Damaged, Valid}"
      "ro_status ?a = Valid \<or> ro_status ?r = Valid"
      using 2(1) by (cases "ro_status ?a"; cases "ro_status ?r"; auto simp: select_snapshot_def is_unsafe_def Let_def)+
    have prep: "prepared (butlast (recovery_file P)) s"
      using ok(3) readable_prepared [of E "active_file P" s] readable_prepared [of E "recovery_file P" s] ne(3) by auto
    obtain s1 where w1: "write_file E (active_file P) st s = (None, s1)"
      using write_file_no_faults [OF _ nf ne(1) ok(1)] prep ne(3) by metis
    obtain s2 where w2: "write_file E (recovery_file P) st s = (None, s2)"
      using write_file_no_faults [OF prep nf ne(2) ok(2)] by metis
    show ?thesis using 2 w1 w2 by (auto simp: load_def ra rr)
  qed
qed

section \<open>The store meets the contract\<close>

text \<open>
  What the disk holds, how the client saves and how it restarts: a restart is a load at which
  no call fails (the remaining schedule is cleared).
\<close>

definition store_holds :: "qt_env \<Rightarrow> health_paths \<Rightarrow> fs \<Rightarrow> health_state \<Rightarrow> bool" where
  "store_holds E P d s \<longleftrightarrow> sibling_paths P \<and> snapshot E P d = Some s"

definition store_save :: "qt_env \<Rightarrow> health_paths \<Rightarrow> fault_injector \<Rightarrow> health_state \<Rightarrow> fs \<Rightarrow> bool \<times> fs" where
  "store_save E P inject s d = (case persist E P inject s d of (r, d') \<Rightarrow> (durable r, d'))"

definition store_restart :: "qt_env \<Rightarrow> health_paths \<Rightarrow> fs \<Rightarrow> health_state option" where
  "store_restart E P d =
     (let r = fst (load E P (d\<lparr>fs_faults := []\<rparr>)) in if lr_success r then Some (lr_state r) else None)"

definition newer_health :: "health_state \<Rightarrow> health_state \<Rightarrow> bool" where
  "newer_health t s \<longleftrightarrow> hs_revision s < hs_revision t"

lemma status_of_faults: "status_of E p (s\<lparr>fs_faults := fl\<rparr>) = status_of E p s"
  by (simp add: status_of_def)

lemma store_save_durable:
  assumes "store_holds E P d s" "newer_health t s" "store_save E P inject t d = (True, d')"
  shows "store_holds E P d' t"
proof -
  obtain r where r: "persist E P inject t d = (r, d')" "durable r"
    using assms(3) by (auto simp: store_save_def split: prod.splits)
  with assms(1,2) show ?thesis
    using persist_durable [OF _ _ _ r] by (simp add: store_holds_def newer_health_def)
qed

lemma store_save_failed:
  assumes "store_holds E P d s" "store_save E P inject t d = (False, d')"
  shows "store_holds E P d' s"
proof -
  obtain r where r: "persist E P inject t d = (r, d')" "\<not> durable r"
    using assms(2) by (auto simp: store_save_def split: prod.splits)
  with assms(1) show ?thesis
    using persist_not_durable [OF _ _ r] by (simp add: store_holds_def)
qed

lemma store_restart_holds:
  assumes "store_holds E P d s"
  shows "store_restart E P d = Some s"
proof -
  have "sibling_paths P" "snapshot E P (d\<lparr>fs_faults := []\<rparr>) = Some s"
    using assms by (simp_all add: store_holds_def snapshot_def status_of_faults)
  then have "fst (load E P (d\<lparr>fs_faults := []\<rparr>)) = load_success s"
    by (rule load_no_faults) simp
  then show ?thesis by (simp add: store_restart_def load_success_def)
qed

interpretation health_disk: durable_store "store_holds E P" "store_save E P inject" "store_restart E P" newer_health
  for E P inject
  by unfold_locales (erule (2) store_save_durable, erule (1) store_save_failed, erule store_restart_holds)

end
