(* ===== verification/Store_Guarantees.thy ===== *)
theory Store_Guarantees
  imports Durable_Store Sample_Env
begin

text \<open>
  What the coordinator may assume of the runtime health store
  (src/src/coordinator/components/component_runtime_health_store.cpp): the snapshot format, the
  atomicity of \<open>persist\<close> under every schedule of failures, and what a restart reads.
\<close>

section \<open>Progress\<close>

lemma storable_parse:
  assumes "health_ok st"
    and "parse_object E maximum_health_bytes 8 (serialize_health E st) = vr_accept (health_object st)"
  shows "storable E st"
  using assms by (simp add: storable_def parse_state_def parse_health_object)

lemma prepare_targets_no_faults:
  assumes P: "sibling_paths P" and prep: "prepared (butlast (active_file P)) s" and nf: "fs_faults s = []"
    and a: "ro_status (status_of E (active_file P) s) \<in> {Missing, Damaged, Valid}"
    and r: "ro_status (status_of E (recovery_file P) s) \<in> {Missing, Damaged, Valid}"
  obtains s' where "prepare_targets P s = (None, s')" "fs_faults s' = []"
    "prepared (butlast (active_file P)) s'"
proof -
  have ne: "active_file P \<noteq> []" "recovery_file P \<noteq> []" "butlast (recovery_file P) = butlast (active_file P)"
    using P by (simp_all add: sibling_paths_def)
  have safe: "safe_regular_file s1 p = None"
    if "ro_status (status_of E p s) \<in> {Missing, Damaged, Valid}" "fs_nodes s1 p = fs_nodes s p"
      "butlast p = butlast (active_file P)" for p s1
    using that prep
    by (auto simp: status_of_alt prepared_def safe_regular_file_def lstat_def read_failure_def
        split: option.splits if_splits)
  obtain s1 where s1: "prepare_parent (recovery_file P) s = (None, s1)" "fs_faults s1 = []"
    "fs_nodes s1 (recovery_file P) = fs_nodes s (recovery_file P)"
    using prepare_parent_no_faults [OF prep [folded ne(3)] nf ne(2)] .
  have keep: "keeps_files (butlast (active_file P)) s s1"
    using keeps_files_prepare_parent [OF s1(1)] ne(3) by simp
  have p1: "prepared (butlast (active_file P)) s1"
    using prepare_parent_prepared [OF s1(1)] ne(3) by simp
  obtain s2 where s2: "prepare_parent (active_file P) s1 = (None, s2)" "fs_faults s2 = []"
    "fs_nodes s2 (active_file P) = fs_nodes s1 (active_file P)"
    using prepare_parent_no_faults [OF p1 s1(2) ne(1)] .
  have a1: "ro_status (status_of E (active_file P) s1) \<in> {Missing, Damaged, Valid}"
    using keeps_files_status [OF keep ne(1)] a by (metis insert_iff read_status.distinct(7,13,17) singletonD read_status.simps)
  have "safe_regular_file s2 (active_file P) = None"
    using a1 s2(3) p1
    by (auto simp: status_of_alt prepared_def safe_regular_file_def lstat_def read_failure_def
        split: option.splits if_splits)
  then show thesis
    using that [of s2] s1 s2 safe [OF r s1(3) ne(3)] prepare_parent_prepared [OF s2(1)]
    by (simp add: prepare_targets_def)
qed

lemma persist_mirrored:
  assumes P: "sibling_paths P" and prep: "prepared (butlast (active_file P)) s" and nf: "fs_faults s = []"
    and a: "ro_status (status_of E (active_file P) s) \<in> {Missing, Damaged, Valid}"
    and r: "ro_status (status_of E (recovery_file P) s) \<in> {Missing, Damaged, Valid}"
    and st: "storable E st"
  shows "pr_durability (fst (persist E P (\<lambda>_. False) st s)) = Mirrored"
proof -
  have ne: "active_file P \<noteq> []" "recovery_file P \<noteq> []" "butlast (active_file P) = butlast (recovery_file P)"
    "active_file P \<noteq> recovery_file P" using P by (simp_all add: sibling_paths_def)
  obtain s1 where s1: "prepare_targets P s = (None, s1)" "fs_faults s1 = []"
    "prepared (butlast (active_file P)) s1"
    using prepare_targets_no_faults [OF P prep nf a r] .
  note keep = prepare_targets_keeps [OF P s1(1)]
  have eq: "status_of E (active_file P) s1 = status_of E (active_file P) s"
    "status_of E (recovery_file P) s1 = status_of E (recovery_file P) s"
    using keeps_files_status [OF keep ne(1)] keeps_files_status [OF keep [unfolded ne(3)] ne(2)] a r by auto
  obtain s2 where s2: "write_file E (recovery_file P) st s1 = (None, s2)" "fs_faults s2 = []"
    using write_file_no_faults [OF s1(3) [unfolded ne(3)] s1(2) ne(2)] eq(2) r by metis
  obtain sx where sx: "prepared (butlast (recovery_file P)) sx"
    "fs_nodes s2 = (fs_nodes sx)(recovery_file P \<mapsto> \<lparr>in_kind = Regular, in_owned = True, in_mode = 384,
       in_data = serialize_health E st\<rparr>)" using write_file_done [OF s2(1)] by metis
  have p2: "prepared (butlast (active_file P)) s2"
    using prepared_after_rename [OF sx(1) ne(2) sx(2)] ne(3) by simp
  have "ro_status (status_of E (active_file P) s1) \<noteq> Unreadable" using eq(1) a by auto
  then have "status_of E (active_file P) s2 = status_of E (active_file P) s"
    using write_file_other_status [OF s2(1) ne(1) ne(4) ne(3) ne(2)] eq(1) by simp
  then obtain s3 where "write_file E (active_file P) st s2 = (None, s3)"
    using write_file_no_faults [OF p2 s2(2) ne(1)] a by metis
  with s1 s2 st show ?thesis by (simp add: persist_def storable_iff)
qed

section \<open>A sample disk\<close>

definition sample_root :: file_path where
  "sample_root = [Q ''s'']"

definition private_directory :: inode where
  "private_directory = \<lparr>in_kind = Directory, in_owned = True, in_mode = 448, in_data = []\<rparr>"

text \<open>A private state directory without snapshots, and the schedule of failures \<open>fl\<close>.\<close>

definition sample_disk :: "bool list \<Rightarrow> fs" where
  "sample_disk fl = \<lparr>fs_nodes = [[Q ''s''] \<mapsto> private_directory, [Q ''s'', Q ''hyprshelld''] \<mapsto> private_directory],
     fs_faults = fl\<rparr>"

abbreviation sample_paths :: health_paths where
  "sample_paths \<equiv> standard_paths sample_root"

definition sample_health :: health_state where
  "sample_health = empty_health\<lparr>hs_revision := 7\<rparr>"

lemma sample_storable: "storable sample_env sample_health"
proof (rule storable_parse)
  show "health_ok sample_health"
    by (simp add: sample_health_def empty_health_def health_ok_def package_states_def)
  show "parse_object sample_env maximum_health_bytes 8 (serialize_health sample_env sample_health)
      = vr_accept (health_object sample_health)"
    by (simp add: writer_eval reader_eval serialize_health_def health_object_def empty_health_def
        sample_health_def health_format_version_def maximum_health_bytes_def)
qed

lemma sample_status: "p \<in> {active_file sample_paths, recovery_file sample_paths} \<Longrightarrow>
  status_of E p (sample_disk fl) = read_missing"
proof -
  have "validate_path_ancestry (sample_disk fl) [Q ''s'', Q ''hyprshelld''] = None"
    by (simp add: validate_path_ancestry_def lstat_def sample_disk_def private_directory_def)
  then show "p \<in> {active_file sample_paths, recovery_file sample_paths} \<Longrightarrow> ?thesis"
    by (auto simp: standard_paths_def sample_root_def status_of_alt sample_disk_def)
qed

lemma sample_snapshot: "snapshot E sample_paths (sample_disk fl) = Some empty_health"
  by (simp add: snapshot_def sample_status selected_def select_snapshot_def read_missing_def)

lemma sample_prepared: "prepared (butlast (active_file sample_paths)) (sample_disk fl)"
  by (auto simp: prepared_def standard_paths_def sample_root_def sample_disk_def private_directory_def
      validate_path_ancestry_None take_Cons' group_other_free_def)

lemma sample_persist: "pr_durability (fst (persist sample_env sample_paths (\<lambda>_. False) sample_health (sample_disk []))) = Mirrored"
  by (rule persist_mirrored)
    (simp_all add: sibling_standard_paths sample_prepared sample_status sample_storable read_missing_def,
     simp add: sample_disk_def)

section \<open>The snapshot format\<close>

text \<open>
  C32: The snapshot format is faithful: a state parses back from its own serialised object
  exactly when it is one a snapshot can hold (valid identifiers and digests, known reasons,
  failure counts from 1 to 1000000, keys that match the records, at most 512 records, 512
  pending activations and 512 packages between them).
\<close>

theorem health_snapshot_round_trip: "parse_health_root (health_object s) = Inr s \<longleftrightarrow> health_ok s"
  by (rule iffI) (erule parse_health_root_ok, erule parse_health_object)

text \<open>
  Whatever bytes are on disk, a state that is read as valid satisfies the invariant of the
  store, comes from at most 512 KiB, and is read the same under any other name.
\<close>

theorem parsed_health_is_valid:
  assumes "ro_status (parse_state E bs loc) = Valid"
  shows "health_ok (ro_state (parse_state E bs loc)) \<and> int (length bs) \<le> maximum_health_bytes
    \<and> parse_state E bs loc' = read_success (ro_state (parse_state E bs loc))"
  using parse_state_Valid [OF assms] by blast

theorem parsed_health_is_valid_witness: "health_ok sample_health"
  using parsed_health_is_valid [of sample_env "serialize_health sample_env sample_health" "Q ''<memory>''"]
    sample_storable by (simp add: storable_def read_success_def)

section \<open>Persist and load\<close>

text \<open>
  C35: \<open>persist\<close> is atomic under every schedule of file system failures and every injected
  fault: if it reports the new snapshot durable (even when only the recovery file was written),
  the two files hold the new state; otherwise they still hold the old one.
\<close>

theorem persist_atomic:
  assumes "sibling_paths P" "snapshot E P s = Some old" "hs_revision old < hs_revision new"
    and "persist E P inject new s = (r, s')"
  shows "snapshot E P s' = Some (if durable r then new else old)"
  using persist_durable [OF assms] persist_not_durable [OF assms(1,2,4)] by simp

theorem persist_atomic_witness:
  "snapshot sample_env sample_paths (snd (persist sample_env sample_paths (\<lambda>_. False) sample_health (sample_disk [])))
    = Some sample_health"
proof -
  have "durable (fst (persist sample_env sample_paths (\<lambda>_. False) sample_health (sample_disk [])))"
    by (simp add: durable_def sample_persist)
  moreover have "hs_revision empty_health < hs_revision sample_health"
    by (simp add: sample_health_def empty_health_def)
  ultimately show ?thesis
    using persist_atomic [OF sibling_standard_paths sample_snapshot _ surjective_pairing] by metis
qed

text \<open>
  \<open>persist\<close> makes progress: when the directory is private, neither file is unsafe, the
  state is within the storage bounds and no call fails, both files are written.
\<close>

theorem persist_makes_progress:
  assumes "sibling_paths P" "prepared (butlast (active_file P)) s" "fs_faults s = []"
    and "ro_status (status_of E (active_file P) s) \<in> {Missing, Damaged, Valid}"
    and "ro_status (status_of E (recovery_file P) s) \<in> {Missing, Damaged, Valid}"
    and "storable E new"
  shows "pr_durability (fst (persist E P (\<lambda>_. False) new s)) = Mirrored"
  using assms by (rule persist_mirrored)

theorem persist_makes_progress_witness:
  "pr_durability (fst (persist sample_env sample_paths (\<lambda>_. False) sample_health (sample_disk []))) = Mirrored"
  by (rule persist_makes_progress)
    (simp_all add: sibling_standard_paths sample_prepared sample_status sample_storable read_missing_def,
     simp add: sample_disk_def)

text \<open>
  \<open>load\<close> never invents a state, under every schedule of failures: a success returns the
  state the two files held, a failure returns the state with third-party packages disabled.
\<close>

theorem load_faithful:
  "case load E P s of (r, s') \<Rightarrow>
     if lr_success r then snapshot E P s = Some (lr_state r) else lr_state r = safe_mode_health"
  using load_sound [of E P s "fst (load E P s)" "snd (load E P s)"] by (simp add: split_beta)

text \<open>
  When no call fails, \<open>load\<close> succeeds exactly when the two files hold a state: a missing,
  damaged or older file beside a good one is repaired, never an obstacle.
\<close>

theorem load_converges:
  assumes "sibling_paths P" "fs_faults s = []"
  shows "lr_success (fst (load E P s)) \<longleftrightarrow> snapshot E P s \<noteq> None"
proof
  assume "lr_success (fst (load E P s))"
  with load_sound(1) [of E P s] show "snapshot E P s \<noteq> None" by (cases "load E P s") simp
next
  assume "snapshot E P s \<noteq> None"
  with load_no_faults [OF assms(1) _ assms(2)] show "lr_success (fst (load E P s))"
    by (auto simp: load_success_def)
qed

theorem load_converges_witness: "lr_success (fst (load sample_env sample_paths (sample_disk [])))"
  using load_converges [OF sibling_standard_paths, of "sample_disk []" sample_env sample_root]
  by (simp add: sample_snapshot) (simp add: sample_disk_def)

text \<open>
  C36: Across any run of saves with increasing revisions, each of which may fail at any point, a
  restart reads exactly the last state that was reported durable.
\<close>

theorem restart_reads_last_durable:
  assumes "snapshot E (standard_paths state_root) d = Some k"
    and "sorted_wrt (\<lambda>a b. hs_revision a < hs_revision b) (k # states)"
  shows "store_restart E (standard_paths state_root)
      (snd (save_all (store_save E (standard_paths state_root) inject) states (k, d)))
    = Some (fst (save_all (store_save E (standard_paths state_root) inject) states (k, d)))"
  using assms health_disk.restart_after_saves [of E "standard_paths state_root" d k states inject]
  by (simp add: store_holds_def sibling_standard_paths newer_health_def)

theorem restart_reads_last_durable_witness:
  "store_restart sample_env sample_paths
      (snd (save_all (store_save sample_env sample_paths (\<lambda>_. False)) [sample_health] (empty_health, sample_disk [])))
    = Some sample_health"
proof -
  have "fst (store_save sample_env sample_paths (\<lambda>_. False) sample_health (sample_disk []))"
    using sample_persist by (simp add: store_save_def durable_def split_beta)
  then have "fst (save_all (store_save sample_env sample_paths (\<lambda>_. False)) [sample_health] (empty_health, sample_disk []))
      = sample_health" by (simp add: split_beta)
  moreover have "store_restart sample_env sample_paths
      (snd (save_all (store_save sample_env sample_paths (\<lambda>_. False)) [sample_health] (empty_health, sample_disk [])))
    = Some (fst (save_all (store_save sample_env sample_paths (\<lambda>_. False)) [sample_health] (empty_health, sample_disk [])))"
    by (rule restart_reads_last_durable)
      (simp_all add: sample_snapshot sample_health_def empty_health_def)
  ultimately show ?thesis by simp
qed

end
