(* ===== verification/Double.thy ===== *)
theory Double
  imports Complex_Main
begin

text \<open>
  Arithmetic on C++ \<open>double\<close>: IEEE 754 binary64, rounding to nearest, ties to even. A finite
  double is the rational it denotes; \<open>None\<close> is a result that is not finite. The code compares
  doubles, rounds them to integers, and in one place subtracts and divides them.
\<close>

function bit_size :: "int \<Rightarrow> nat" where
  "bit_size n = (if n \<le> 0 then 0 else Suc (bit_size (n div 2)))"
  by auto
termination by (relation "measure nat") auto

declare bit_size.simps [simp del]

definition pow2 :: "int \<Rightarrow> rat" where
  "pow2 e = (if 0 \<le> e then 2 ^ nat e else 1 / 2 ^ nat (- e))"

text \<open>The exponent of a positive rational: the greatest \<open>e\<close> with \<open>pow2 e \<le> x\<close>.\<close>

definition binary_exponent :: "rat \<Rightarrow> int" where
  "binary_exponent x = (case quotient_of x of (a, b) \<Rightarrow>
     let e = int (bit_size a) - int (bit_size b)
     in if pow2 e \<le> x then e else e - 1)"

definition round_half_even :: "rat \<Rightarrow> int" where
  "round_half_even x = (let f = \<lfloor>x\<rfloor>; d = x - of_int f
     in if d < 1 / 2 \<or> d = 1 / 2 \<and> even f then f else f + 1)"

definition double_round :: "rat \<Rightarrow> rat option" where
  "double_round x =
     (if x = 0 then Some 0
      else let ulp = pow2 (max (binary_exponent \<bar>x\<bar>) (- 1022) - 52);
               v = of_int (round_half_even (x / ulp)) * ulp
           in if 2 ^ 1024 \<le> \<bar>v\<bar> then None else Some v)"

definition double_minus :: "rat \<Rightarrow> rat \<Rightarrow> rat option" where
  "double_minus x y = double_round (x - y)"

text \<open>The quotient of a finite double by another; division by zero is not finite.\<close>

definition double_divide :: "rat \<Rightarrow> rat \<Rightarrow> rat option" where
  "double_divide x y = (if y = 0 then None else double_round (x / y))"

text \<open>\<open>std::round\<close>: to the nearest integer, ties away from zero; exact.\<close>

definition round_away :: "rat \<Rightarrow> rat" where
  "round_away x = (if 0 \<le> x then of_int \<lfloor>x + 1 / 2\<rfloor> else - of_int \<lfloor>- x + 1 / 2\<rfloor>)"

section \<open>Facts\<close>

lemma pow2_pos [simp]: "0 < pow2 e"
  by (simp add: pow2_def)

lemma round_half_even_of_int [simp]: "round_half_even (of_int i) = i"
  by (simp add: round_half_even_def)

lemma bit_size_bounds: "0 < n \<Longrightarrow> 2 ^ (bit_size n - 1) \<le> n \<and> n < 2 ^ bit_size n"
proof (induction n rule: bit_size.induct)
  case (1 n)
  show ?case
  proof (cases "n div 2 \<le> 0")
    case True
    with 1(2) have "n = 1" by auto
    then show ?thesis by (simp add: bit_size.simps)
  next
    case False
    then obtain k where k: "bit_size (n div 2) = Suc k" by (simp add: bit_size.simps [of "n div 2"])
    from 1 False have ih: "2 ^ k \<le> n div 2" "n div 2 < 2 * 2 ^ k" by (simp_all add: k)
    from 1(2) have s: "bit_size n = Suc (Suc k)" by (simp add: bit_size.simps [of n] k)
    define a :: int where "a = 2 ^ k"
    have "a \<le> n div 2" "n div 2 < 2 * a" using ih by (simp_all add: a_def)
    then have "2 * a \<le> n \<and> n < 2 * (2 * a)" by linarith
    then show ?thesis by (simp add: s a_def)
  qed
qed

text \<open>The integers below \<open>2 ^ 53\<close> are doubles.\<close>

lemma double_round_int:
  assumes "\<bar>i\<bar> < 2 ^ 53"
  shows "double_round (of_int i) = Some (of_int i)"
proof (cases "i = 0")
  case True
  then show ?thesis by (simp add: double_round_def)
next
  case False
  define n where "n = \<bar>i\<bar>"
  define s where "s = bit_size n"
  have n: "0 < n" "n < 2 ^ 53" using False assms by (auto simp: n_def)
  have s: "2 ^ (s - 1) \<le> n" "n < 2 ^ s" using bit_size_bounds [OF n(1)] by (simp_all add: s_def)
  have "s \<noteq> 0" using n(1) by (simp add: s_def bit_size.simps)
  have "s \<le> 53"
  proof (rule ccontr)
    assume "\<not> s \<le> 53"
    then have "(2 :: int) ^ 53 \<le> 2 ^ (s - 1)" by (intro power_increasing) auto
    with s n show False by linarith
  qed
  have one: "bit_size 1 = 1" by (simp add: bit_size.simps)
  have "binary_exponent \<bar>of_int i\<bar> = int s - 1"
  proof -
    have "pow2 (int s - 1) = 2 ^ (s - 1)"
      using \<open>s \<noteq> 0\<close> by (simp add: pow2_def nat_diff_distrib)
    have le: "(2 :: rat) ^ (s - 1) \<le> of_int n"
      using s(1) by (metis of_int_le_iff of_int_numeral of_int_power)
    have "\<bar>of_int i :: rat\<bar> = of_int n" by (simp add: n_def)
    then have q: "quotient_of \<bar>of_int i :: rat\<bar> = (n, 1)" by (simp add: quotient_of_int)
    have "(of_int n :: rat) = \<bar>of_int i\<bar>" by (simp add: n_def)
    then show ?thesis
      using \<open>pow2 (int s - 1) = _\<close> le unfolding binary_exponent_def q
      by (simp add: one Let_def s_def [symmetric])
  qed
  moreover define k where "k = nat (53 - int s)"
  ultimately have ulp: "pow2 (max (binary_exponent \<bar>of_int i\<bar>) (- 1022) - 52) = 1 / 2 ^ k"
    using \<open>s \<le> 53\<close> \<open>s \<noteq> 0\<close> by (auto simp: pow2_def max_def k_def)
  have "(of_int i :: rat) / (1 / 2 ^ k) = of_int (i * 2 ^ k)" by simp
  then have r: "of_int (round_half_even (of_int i / (1 / 2 ^ k))) * (1 / 2 ^ k) = (of_int i :: rat)"
    by (simp only: round_half_even_of_int) simp
  have "\<bar>of_int i :: rat\<bar> < 2 ^ 53" using assms by (metis of_int_abs of_int_less_iff of_int_numeral of_int_power)
  moreover have "(2 :: rat) ^ 53 \<le> 2 ^ 1024" by (rule power_increasing) simp_all
  ultimately have "\<bar>of_int i :: rat\<bar> < 2 ^ 1024" by (rule less_le_trans)
  then show ?thesis using False unfolding double_round_def Let_def ulp r by auto
qed

end
