(* ===== verification/Settings_Schema.thy ===== *)
theory Settings_Schema
  imports Contract Strict_Json Double
begin

text \<open>
  src/src/component/settings_schema.{h,cpp}: the settings a component declares, the parser of
  the schema and the normalisation of setting values. A function that appends to the list of
  errors returns its value with the errors it appends, in the order of the code.
\<close>

section \<open>The schema\<close>

datatype setting_scope = ComponentScope | InstanceScope

datatype setting_type = BooleanSetting | IntegerSetting | NumberSetting | StringSetting
  | EnumerationSetting | ColorSetting | KeybindingSetting | FileSetting | DirectorySetting

record enum_option =
  eo_value :: qstring
  eo_label :: qstring

record setting_definition =
  sd_key :: qstring
  sd_scope :: setting_scope
  sd_type :: setting_type
  sd_label :: qstring
  sd_description :: qstring
  sd_group :: qstring
  sd_order :: "32 word"
  sd_default :: "json option"
  sd_minimum :: "rat option"
  sd_maximum :: "rat option"
  sd_step :: "rat option"
  sd_minimum_length :: "int option"
  sd_maximum_length :: "int option"
  sd_options :: "enum_option list"
  sd_visible_when :: "(qstring \<times> json option) option"

record settings_schema =
  ss_version :: "32 word"
  ss_settings :: "setting_definition list"

text \<open>The member initialisers; a default-constructed \<open>QJsonValue\<close> is null.\<close>

definition empty_definition :: setting_definition where
  "empty_definition = \<lparr>sd_key = [], sd_scope = InstanceScope, sd_type = BooleanSetting, sd_label = [],
     sd_description = [], sd_group = [], sd_order = 0, sd_default = Some JNull, sd_minimum = None,
     sd_maximum = None, sd_step = None, sd_minimum_length = None, sd_maximum_length = None,
     sd_options = [], sd_visible_when = None\<rparr>"

definition schema_find :: "settings_schema \<Rightarrow> qstring \<Rightarrow> setting_definition option" where
  "schema_find sc k = find (\<lambda>d. sd_key d = k) (ss_settings sc)"

fun scope_text :: "setting_scope \<Rightarrow> qstring" where
  "scope_text ComponentScope = Q ''component''"
| "scope_text InstanceScope = Q ''instance''"

fun type_text :: "setting_type \<Rightarrow> qstring" where
  "type_text BooleanSetting = Q ''boolean''"
| "type_text IntegerSetting = Q ''integer''"
| "type_text NumberSetting = Q ''number''"
| "type_text StringSetting = Q ''string''"
| "type_text EnumerationSetting = Q ''enum''"
| "type_text ColorSetting = Q ''color''"
| "type_text KeybindingSetting = Q ''keybinding''"
| "type_text FileSetting = Q ''file''"
| "type_text DirectorySetting = Q ''directory''"

definition setting_scope_from_string :: "qstring \<Rightarrow> setting_scope option" where
  "setting_scope_from_string s =
     (if s = Q ''component'' then Some ComponentScope
      else if s = Q ''instance'' then Some InstanceScope else None)"

definition setting_type_from_string :: "qstring \<Rightarrow> setting_type option" where
  "setting_type_from_string s =
     (if s = Q ''boolean'' then Some BooleanSetting
      else if s = Q ''integer'' then Some IntegerSetting
      else if s = Q ''number'' then Some NumberSetting
      else if s = Q ''string'' then Some StringSetting
      else if s = Q ''enum'' then Some EnumerationSetting
      else if s = Q ''color'' then Some ColorSetting
      else if s = Q ''keybinding'' then Some KeybindingSetting
      else if s = Q ''file'' then Some FileSetting
      else if s = Q ''directory'' then Some DirectorySetting else None)"

section \<open>Characters\<close>

text \<open>The category \<open>Cc\<close> is the same 65 code points in every version of Unicode.\<close>

definition is_control :: "qchar \<Rightarrow> bool" where
  "is_control c \<longleftrightarrow> c < 0x20 \<or> 0x7F \<le> c \<and> c \<le> 0x9F"

definition has_control :: "qstring \<Rightarrow> bool" where
  "has_control s \<longleftrightarrow> list_ex is_control s"

text \<open>\<open>QString::toUcs4\<close>: surrogates without a partner become U+FFFD.\<close>

fun to_ucs4 :: "qstring \<Rightarrow> 32 word list" where
  "to_ucs4 [] = []"
| "to_ucs4 [c] = [if is_high_surrogate c \<or> is_low_surrogate c then 0xFFFD else ucast c]"
| "to_ucs4 (c # d # s) =
     (if is_high_surrogate c \<and> is_low_surrogate d
      then (0x10000 + (push_bit 10 (ucast c - 0xD800) + (ucast d - 0xDC00))) # to_ucs4 s
      else (if is_high_surrogate c \<or> is_low_surrogate c then 0xFFFD else ucast c) # to_ucs4 (d # s))"

definition has_disallowed_control :: "qt_env \<Rightarrow> qstring \<Rightarrow> bool" where
  "has_disallowed_control E s \<longleftrightarrow>
     list_ex (\<lambda>c. c < 0x20 \<or> 0x7F \<le> c \<and> c \<le> 0x9F \<or> qt_format E c) (to_ucs4 s)"

definition is_upper :: "qchar \<Rightarrow> bool" where
  "is_upper c \<longleftrightarrow> 0x41 \<le> c \<and> c \<le> 0x5A"

definition is_alnum :: "qchar \<Rightarrow> bool" where
  "is_alnum c \<longleftrightarrow> is_lower c \<or> is_upper c \<or> is_ascii_digit c"

definition setting_key_body :: "qstring \<Rightarrow> bool" where
  "setting_key_body s \<longleftrightarrow> s \<noteq> [] \<and> is_lower (hd s) \<and> length (tl s) \<le> 63 \<and> list_all is_alnum (tl s)"

definition is_setting_key :: "qstring \<Rightarrow> bool" where
  "is_setting_key s \<longleftrightarrow> setting_key_body s \<or> (s \<noteq> [] \<and> last s = 0x0A \<and> setting_key_body (butlast s))"

definition is_valid_group :: "qstring \<Rightarrow> bool" where
  "is_valid_group s \<longleftrightarrow> length s \<le> 64 \<and> match_kebab s"

definition is_hex :: "qchar \<Rightarrow> bool" where
  "is_hex c \<longleftrightarrow> is_ascii_digit c \<or> 0x41 \<le> c \<and> c \<le> 0x46 \<or> 0x61 \<le> c \<and> c \<le> 0x66"

definition is_color :: "qstring \<Rightarrow> bool" where
  "is_color s \<longleftrightarrow> match_classes ((\<lambda>c. c = 0x23) # replicate 6 is_hex) s
     \<or> match_classes ((\<lambda>c. c = 0x23) # replicate 8 is_hex) s"

text \<open>\<open>QString::toUpper\<close> on the ASCII text of a colour.\<close>

definition to_upper :: "qstring \<Rightarrow> qstring" where
  "to_upper s = map (\<lambda>c. if is_lower c then c - 0x20 else c) s"

text \<open>Normalisation to form C is idempotent (Unicode Standard Annex 15).\<close>

definition normal_idempotent :: "qt_env \<Rightarrow> bool" where
  "normal_idempotent E \<longleftrightarrow> (\<forall>s. qt_normal_c E (qt_normal_c E s) = qt_normal_c E s)"

section \<open>Fields\<close>

definition unknown_fields :: "json qmap \<Rightarrow> string list \<Rightarrow> qstring \<Rightarrow> verror list" where
  "unknown_fields ob allowed path =
     map (\<lambda>k. \<lparr>ve_path = child_path path k, ve_code = Q ''settings-schema.unknown-field'',
        ve_message = Q ''Unknown field: '' @ k\<rparr>)
     (filter (\<lambda>k. k \<notin> set (map Q allowed)) (om_keys ob))"

definition maximum_exact_json_integer :: rat where
  "maximum_exact_json_integer = 9007199254740991"

definition is_exact_json_integer :: "rat \<Rightarrow> bool" where
  "is_exact_json_integer x \<longleftrightarrow> of_int \<lfloor>x\<rfloor> = x \<and> \<bar>x\<bar> \<le> maximum_exact_json_integer"

definition required_text :: "qt_env \<Rightarrow> json qmap \<Rightarrow> string \<Rightarrow> qstring \<Rightarrow> nat \<Rightarrow> qstring \<times> verror list" where
  "required_text E ob key path maximum_length =
     (let v = map_of ob (Q key)
      in if \<not> is_string v then
           ([], [mk_error (child_path path (Q key)) ''settings-schema.string-required'' ''A string value is required.''])
         else
           let t = qt_normal_c E (to_string v)
           in if t = [] \<or> maximum_length < length t \<or> t \<noteq> qt_trimmed E t \<or> has_disallowed_control E t then
                ([], [mk_error (child_path path (Q key)) ''settings-schema.invalid-string''
                  ''The string is empty, too long, or contains disallowed control or format characters.''])
              else (t, []))"

definition required_finite_number :: "json qmap \<Rightarrow> string \<Rightarrow> qstring \<Rightarrow> rat option \<times> verror list" where
  "required_finite_number ob key path =
     (let v = map_of ob (Q key)
      in if \<not> is_double v then
           (None, [mk_error (child_path path (Q key)) ''settings-schema.finite-number-required''
             ''A finite number is required.''])
         else (Some (to_double v), []))"

definition required_integer :: "json qmap \<Rightarrow> string \<Rightarrow> qstring \<Rightarrow> int \<Rightarrow> int \<Rightarrow> int option \<times> verror list" where
  "required_integer ob key path minimum maximum =
     (case required_finite_number ob key path of
        (None, es) \<Rightarrow> (None, es)
      | (Some x, es) \<Rightarrow>
          if \<not> is_exact_json_integer x \<or> x < of_int minimum \<or> of_int maximum < x then
            (None, es @ [mk_error (child_path path (Q key)) ''settings-schema.integer-out-of-range''
              ''The value must be a bounded integer.''])
          else (Some \<lfloor>x\<rfloor>, es))"

section \<open>Values\<close>

definition invalid_value :: "qstring \<Rightarrow> string \<Rightarrow> string \<Rightarrow> json validation_result" where
  "invalid_value path code message = vr_reject [mk_error path code message]"

definition canonical_modifiers :: "qstring list" where
  "canonical_modifiers = [Q ''ctrl'', Q ''alt'', Q ''shift'', Q ''super'', Q ''hyper'']"

text \<open>The loop over the modifiers: its errors and the set it builds.\<close>

fun check_modifiers :: "qstring \<Rightarrow> nat \<Rightarrow> qstring list \<Rightarrow> json list \<Rightarrow> verror list \<times> qstring list" where
  "check_modifiers path i seen [] = ([], seen)"
| "check_modifiers path i seen (v # vs) =
     (let p = path @ Q ''.modifiers['' @ qnumber i @ Q '']''
      in if \<not> is_string (Some v) then
           (case check_modifiers path (Suc i) seen vs of (es, final) \<Rightarrow>
             (mk_error p ''settings-value.invalid-modifier'' ''Modifier names must be strings.'' # es, final))
         else
           let m = to_string (Some v);
               errors = (if m \<notin> set canonical_modifiers then
                   [mk_error p ''settings-value.invalid-modifier'' ''Unknown keybinding modifier.'']
                 else if m \<in> set seen then
                   [mk_error p ''settings-value.duplicate-modifier'' ''A keybinding modifier may appear only once.'']
                 else [])
           in case check_modifiers path (Suc i) (m # seen) vs of (es, final) \<Rightarrow> (errors @ es, final))"

definition normalize_keybinding :: "qt_env \<Rightarrow> json option \<Rightarrow> qstring \<Rightarrow> json validation_result" where
  "normalize_keybinding E v path =
     (if v = Some JNull then vr_accept JNull
      else if \<not> is_object v then
        invalid_value path ''settings-value.keybinding-required'' ''A keybinding object or null is required.''
      else
        let ob = to_object v;
            unknown = unknown_fields ob [''modifiers'', ''key''] path;
            modifiers = map_of ob (Q ''modifiers''); key = map_of ob (Q ''key'');
            modifier_errors = (if \<not> is_array modifiers \<or> 5 < length (to_array modifiers) then
              [mk_error (path @ Q ''.modifiers'') ''settings-value.invalid-modifiers''
                ''modifiers must be an array of at most five names.''] else []);
            key_errors = (if \<not> is_string key \<or> to_string key = [] \<or> 64 < length (to_string key)
                \<or> has_control (to_string key) then
              [mk_error (path @ Q ''.key'') ''settings-value.invalid-key'' ''A bounded key name is required.''] else []);
            (loop_errors, seen) = check_modifiers path 0 [] (to_array modifiers);
            errors = unknown @ modifier_errors @ key_errors @ loop_errors
        in if errors \<noteq> [] then vr_reject errors
           else vr_accept (JObj (json_object
             [(''modifiers'', JArr (map JStr (filter (\<lambda>m. m \<in> set seen) canonical_modifiers))),
              (''key'', JStr (qt_normal_c E (to_string key)))])))"

text \<open>The alignment of a number with the step; the quotient is computed in doubles.\<close>

definition step_tolerance :: rat where
  "step_tolerance = the (double_round (1 / 1000000000))"

definition step_mismatch :: "setting_definition \<Rightarrow> rat \<Rightarrow> rat \<Rightarrow> rat \<Rightarrow> bool" where
  "step_mismatch d minimum step x =
     (if sd_type d = IntegerSetting \<and> is_exact_json_integer minimum \<and> is_exact_json_integer step \<and> 0 < step then
        (\<lfloor>x\<rfloor> - \<lfloor>minimum\<rfloor>) mod \<lfloor>step\<rfloor> \<noteq> 0
      else case double_minus x minimum of
          None \<Rightarrow> True
        | Some difference \<Rightarrow>
            (case double_divide difference step of
               None \<Rightarrow> True
             | Some ratio \<Rightarrow>
                 (case double_minus ratio (round_away ratio) of
                    None \<Rightarrow> True
                  | Some r \<Rightarrow> step_tolerance < \<bar>r\<bar>)))"

definition normalize_number :: "setting_definition \<Rightarrow> json option \<Rightarrow> qstring \<Rightarrow> json validation_result" where
  "normalize_number d v path =
     (if \<not> is_double v \<or> sd_type d = IntegerSetting \<and> \<not> is_exact_json_integer (to_double v) then
        invalid_value path ''settings-value.invalid-number'' ''A finite value matching the numeric type is required.''
      else
        let x = to_double v
        in case (sd_minimum d, sd_maximum d) of
            (Some lo, Some hi) \<Rightarrow>
              if x < lo \<or> hi < x then
                invalid_value path ''settings-value.number-out-of-range'' ''The number is outside its declared bounds.''
              else if (case sd_step d of None \<Rightarrow> False | Some step \<Rightarrow> step_mismatch d lo step x) then
                invalid_value path ''settings-value.step-mismatch'' ''The number does not align with its declared step.''
              else vr_accept (JNum x)
          | _ \<Rightarrow> invalid_value path ''settings-value.number-out-of-range''
              ''The number is outside its declared bounds.'')"

definition normalize_text :: "qt_env \<Rightarrow> setting_definition \<Rightarrow> json option \<Rightarrow> qstring \<Rightarrow> json validation_result" where
  "normalize_text E d v path =
     (if \<not> is_string v then
        invalid_value path ''settings-value.string-required'' ''A string value is required.''
      else
        let t = qt_normal_c E (to_string v)
        in if has_control t
             \<or> (case (sd_minimum_length d, sd_maximum_length d) of
                  (Some lo, Some hi) \<Rightarrow> int (length t) < lo \<or> hi < int (length t)
                | _ \<Rightarrow> True) then
             invalid_value path ''settings-value.invalid-string''
               ''The string violates its declared length or character bounds.''
           else vr_accept (JStr t))"

definition normalize_enum :: "qt_env \<Rightarrow> setting_definition \<Rightarrow> json option \<Rightarrow> qstring \<Rightarrow> json validation_result" where
  "normalize_enum E d v path =
     (if \<not> is_string v then
        invalid_value path ''settings-value.enum-required'' ''An enum option string is required.''
      else
        let t = qt_normal_c E (to_string v)
        in if \<not> list_ex (\<lambda>option. eo_value option = t) (sd_options d) then
             invalid_value path ''settings-value.unknown-enum-option''
               ''The value is not one of the declared enum options.''
           else vr_accept (JStr t))"

definition normalize_portal :: "qt_env \<Rightarrow> json option \<Rightarrow> qstring \<Rightarrow> json validation_result" where
  "normalize_portal E v path =
     (if v = Some JNull then vr_accept JNull
      else if \<not> is_string v \<or> 4096 < length (to_string v) \<or> has_control (to_string v) then
        invalid_value path ''settings-value.invalid-portal-selection''
          ''A bounded portal selection string or null is required.''
      else vr_accept (JStr (qt_normal_c E (to_string v))))"

definition normalize_setting_value ::
  "qt_env \<Rightarrow> setting_definition \<Rightarrow> json option \<Rightarrow> qstring \<Rightarrow> json validation_result" where
  "normalize_setting_value E d v path =
     (case sd_type d of
        BooleanSetting \<Rightarrow>
          if \<not> is_bool v then invalid_value path ''settings-value.boolean-required'' ''A boolean value is required.''
          else vr_accept (the v)
      | IntegerSetting \<Rightarrow> normalize_number d v path
      | NumberSetting \<Rightarrow> normalize_number d v path
      | StringSetting \<Rightarrow> normalize_text E d v path
      | EnumerationSetting \<Rightarrow> normalize_enum E d v path
      | ColorSetting \<Rightarrow>
          if \<not> is_string v \<or> \<not> is_color (to_string v) then
            invalid_value path ''settings-value.invalid-color'' ''A #RRGGBB or #RRGGBBAA color is required.''
          else vr_accept (JStr (to_upper (to_string v)))
      | KeybindingSetting \<Rightarrow> normalize_keybinding E v path
      | FileSetting \<Rightarrow> normalize_portal E v path
      | DirectorySetting \<Rightarrow> normalize_portal E v path)"

section \<open>Definitions\<close>

text \<open>\<open>values\<close> are the option values seen so far.\<close>

fun parse_options :: "qt_env \<Rightarrow> qstring \<Rightarrow> nat \<Rightarrow> qstring list \<Rightarrow> json list \<Rightarrow> enum_option list \<times> verror list" where
  "parse_options E path i values [] = ([], [])"
| "parse_options E path i values (v # vs) =
     (let p = index_path path i
      in if \<not> is_object (Some v) then
           (case parse_options E path (Suc i) values vs of (os, es) \<Rightarrow>
             (os, mk_error p ''settings-schema.object-required'' ''Each enum option must be an object.'' # es))
         else
           let ob = to_object (Some v);
               (value, value_errors) = required_text E ob ''value'' p 128;
               (label, label_errors) = required_text E ob ''label'' p 128;
               duplicate = (if value \<in> set values then
                 [mk_error (p @ Q ''.value'') ''settings-schema.duplicate-option'' ''Enum option values must be unique.'']
                 else [])
           in case parse_options E path (Suc i) (value # values) vs of (os, es) \<Rightarrow>
             (\<lparr>eo_value = value, eo_label = label\<rparr> # os,
              unknown_fields ob [''value'', ''label''] p @ value_errors @ label_errors @ duplicate @ es))"

definition parse_enum_options :: "qt_env \<Rightarrow> json option \<Rightarrow> qstring \<Rightarrow> enum_option list \<times> verror list" where
  "parse_enum_options E v path =
     (if \<not> is_array v \<or> to_array v = [] \<or> 64 < length (to_array v) then
        ([], [mk_error path ''settings-schema.invalid-options'' ''An enum requires one to sixty-four options.''])
      else parse_options E path 0 [] (to_array v))"

definition base_fields :: "string list" where
  "base_fields = [''key'', ''scope'', ''type'', ''label'', ''description'', ''group'', ''order'', ''default'',
     ''visibleWhen'']"

text \<open>The fields of one type: the names it allows, the definition with its fields, the errors.\<close>

definition parse_number_fields ::
  "json qmap \<Rightarrow> qstring \<Rightarrow> setting_type \<Rightarrow> setting_definition \<Rightarrow> setting_definition \<times> verror list" where
  "parse_number_fields ob path ty d =
     (let (lo, lo_errors) = required_finite_number ob ''minimum'' path;
          (hi, hi_errors) = required_finite_number ob ''maximum'' path;
          range_errors = (case (lo, hi) of
              (Some l, Some h) \<Rightarrow> if h < l then [mk_error (path @ Q ''.maximum'') ''settings-schema.invalid-range''
                ''maximum must be greater than or equal to minimum.''] else []
            | _ \<Rightarrow> []);
          inexact = (\<lambda>b. case b of None \<Rightarrow> False | Some x \<Rightarrow> \<not> is_exact_json_integer x);
          bounds_errors = (if ty = IntegerSetting \<and> (inexact lo \<or> inexact hi) then
            [mk_error path ''settings-schema.integer-bounds-required''
              ''Integer settings require exact JSON-safe integer bounds.''] else []);
          (step, step_errors) = (if om_contains ob (Q ''step'') then
              (case required_finite_number ob ''step'' path of
                 (None, es) \<Rightarrow> (None, es)
               | (Some x, es) \<Rightarrow> (Some x, es @
                   (if x \<le> 0 \<or> ty = IntegerSetting \<and> \<not> is_exact_json_integer x then
                      [mk_error (path @ Q ''.step'') ''settings-schema.invalid-step''
                        ''step must be positive and match the numeric type.''] else [])))
            else (None, []))
      in (d\<lparr>sd_minimum := lo, sd_maximum := hi, sd_step := step\<rparr>,
          lo_errors @ hi_errors @ range_errors @ bounds_errors @ step_errors))"

definition parse_string_fields ::
  "json qmap \<Rightarrow> qstring \<Rightarrow> setting_definition \<Rightarrow> setting_definition \<times> verror list" where
  "parse_string_fields ob path d =
     (let (lo, lo_errors) = (if om_contains ob (Q ''minimumLength'')
            then required_integer ob ''minimumLength'' path 0 4096 else (Some 0, []));
          (hi, hi_errors) = required_integer ob ''maximumLength'' path 1 4096;
          range_errors = (case (lo, hi) of
              (Some l, Some h) \<Rightarrow> if h < l then [mk_error path ''settings-schema.invalid-length-range''
                ''minimumLength cannot exceed maximumLength.''] else []
            | _ \<Rightarrow> [])
      in (d\<lparr>sd_minimum_length := lo, sd_maximum_length := hi\<rparr>, lo_errors @ hi_errors @ range_errors))"

definition parse_type_fields ::
  "qt_env \<Rightarrow> json qmap \<Rightarrow> qstring \<Rightarrow> setting_type option \<Rightarrow> setting_definition \<Rightarrow>
    string list \<times> setting_definition \<times> verror list" where
  "parse_type_fields E ob path ty d =
     (case ty of
        None \<Rightarrow> ([], d, [])
      | Some t \<Rightarrow>
          if t = IntegerSetting \<or> t = NumberSetting then
            ([''minimum'', ''maximum'', ''step''], parse_number_fields ob path t d)
          else if t = StringSetting then ([''minimumLength'', ''maximumLength''], parse_string_fields ob path d)
          else if t = EnumerationSetting then
            (case parse_enum_options E (map_of ob (Q ''options'')) (path @ Q ''.options'') of (os, es) \<Rightarrow>
              ([''options''], d\<lparr>sd_options := os\<rparr>, es))
          else ([], d, []))"

definition parse_condition ::
  "qt_env \<Rightarrow> json qmap \<Rightarrow> qstring \<Rightarrow> (qstring \<times> json option) option \<times> verror list" where
  "parse_condition E ob path =
     (if \<not> om_contains ob (Q ''visibleWhen'') then (None, [])
      else
        let v = map_of ob (Q ''visibleWhen''); p = path @ Q ''.visibleWhen''
        in if \<not> is_object v then
             (None, [mk_error p ''settings-schema.invalid-condition'' ''visibleWhen must be an object.''])
           else
             let condition = to_object v;
                 value_errors = (if \<not> om_contains condition (Q ''equals'') then
                   [mk_error (p @ Q ''.equals'') ''settings-schema.condition-value-required''
                     ''visibleWhen requires an equality value.''] else []);
                 (key, key_errors) = required_text E condition ''key'' p 64
             in (Some (key, map_of condition (Q ''equals'')),
                 unknown_fields condition [''key'', ''equals''] p @ value_errors @ key_errors))"

text \<open>The default, normalised when the type is known.\<close>

definition parse_default ::
  "qt_env \<Rightarrow> json qmap \<Rightarrow> qstring \<Rightarrow> setting_type option \<Rightarrow> setting_definition \<Rightarrow> setting_definition \<times> verror list" where
  "parse_default E ob path ty d =
     (if \<not> om_contains ob (Q ''default'') then (d, [])
      else case ty of
          None \<Rightarrow> (d, [])
        | Some t \<Rightarrow>
            let normalized = normalize_setting_value E d (sd_default d) (path @ Q ''.default'');
                d1 = (if \<not> vr_ok normalized then d else d\<lparr>sd_default := vr_value normalized\<rparr>)
            in (d1, (if \<not> vr_ok normalized then vr_errors normalized else []) @
                 (if (t = FileSetting \<or> t = DirectorySetting) \<and> sd_default d1 \<noteq> Some JNull then
                    [mk_error (path @ Q ''.default'') ''settings-schema.portal-default-must-be-null''
                      ''File and directory settings must default to null.''] else [])))"

definition parse_definition :: "qt_env \<Rightarrow> json \<Rightarrow> nat \<Rightarrow> setting_definition \<times> verror list" where
  "parse_definition E v index =
     (let path = index_path (Q ''$.settings'') index
      in if \<not> is_object (Some v) then
           (empty_definition, [mk_error path ''settings-schema.object-required''
             ''Each setting definition must be an object.''])
         else
           let ob = to_object (Some v);
               (key, e1) = required_text E ob ''key'' path 64;
               e2 = (if key \<noteq> [] \<and> \<not> is_setting_key key then
                 [mk_error (path @ Q ''.key'') ''settings-schema.invalid-key''
                   ''Setting keys must use lower camel-case ASCII.''] else []);
               (scope_string, e3) = required_text E ob ''scope'' path 16;
               scope = setting_scope_from_string scope_string;
               e4 = (if scope = None then [mk_error (path @ Q ''.scope'') ''settings-schema.invalid-scope''
                 ''Unknown setting scope.''] else []);
               (type_string, e5) = required_text E ob ''type'' path 16;
               ty = setting_type_from_string type_string;
               e6 = (if ty = None then [mk_error (path @ Q ''.type'') ''settings-schema.invalid-type''
                 ''Unknown setting type.''] else []);
               (label, e7) = required_text E ob ''label'' path 128;
               (description, e8) = required_text E ob ''description'' path 1024;
               (group, e9) = required_text E ob ''group'' path 64;
               e10 = (if group \<noteq> [] \<and> \<not> is_valid_group group then
                 [mk_error (path @ Q ''.group'') ''settings-schema.invalid-group''
                   ''Setting groups must use lowercase kebab-case ASCII.''] else []);
               (order, e11) = required_integer ob ''order'' path 0 100000;
               e12 = (if \<not> om_contains ob (Q ''default'') then
                 [mk_error (path @ Q ''.default'') ''settings-schema.default-required''
                   ''Every setting requires an explicit default.''] else []);
               d = empty_definition\<lparr>sd_key := key,
                 sd_scope := (case scope of None \<Rightarrow> InstanceScope | Some s \<Rightarrow> s),
                 sd_type := (case ty of None \<Rightarrow> BooleanSetting | Some t \<Rightarrow> t),
                 sd_label := label, sd_description := description, sd_group := group,
                 sd_order := (case order of None \<Rightarrow> 0 | Some n \<Rightarrow> word_of_int n),
                 sd_default := (if om_contains ob (Q ''default'') then map_of ob (Q ''default'') else Some JNull)\<rparr>;
               (allowed, d1, e13) = parse_type_fields E ob path ty d;
               e14 = unknown_fields ob (base_fields @ allowed) path;
               (condition, e15) = parse_condition E ob path;
               (d2, e16) = parse_default E ob path ty (d1\<lparr>sd_visible_when := condition\<rparr>)
           in (d2, e1 @ e2 @ e3 @ e4 @ e5 @ e6 @ e7 @ e8 @ e9 @ e10 @ e11 @ e12 @ e13 @ e14 @ e15 @ e16))"

section \<open>Schemas\<close>

definition maximum_schema_bytes :: int where
  "maximum_schema_bytes = 256 * 1024"

definition maximum_schema_depth :: int where
  "maximum_schema_depth = 32"

definition maximum_setting_count :: nat where
  "maximum_setting_count = 128"

definition hides_nothing :: "setting_type \<Rightarrow> bool" where
  "hides_nothing t \<longleftrightarrow> t = KeybindingSetting \<or> t = FileSetting \<or> t = DirectorySetting"

text \<open>The condition of a definition, checked against the earlier ones, its value normalised.\<close>

definition resolve_condition ::
  "qt_env \<Rightarrow> setting_definition list \<Rightarrow> nat \<Rightarrow> setting_definition \<Rightarrow> setting_definition \<times> verror list" where
  "resolve_condition E earlier index d =
     (case sd_visible_when d of
        None \<Rightarrow> (d, [])
      | Some (key, equals) \<Rightarrow>
          let path = index_path (Q ''$.settings'') index
          in case find (\<lambda>e. sd_key e = key) earlier of
              None \<Rightarrow> (d, [mk_error (path @ Q ''.visibleWhen.key'') ''settings-schema.invalid-condition-reference''
                ''visibleWhen must reference an earlier setting in the same scope.''])
            | Some previous \<Rightarrow>
                if sd_scope previous \<noteq> sd_scope d then
                  (d, [mk_error (path @ Q ''.visibleWhen.key'') ''settings-schema.invalid-condition-reference''
                    ''visibleWhen must reference an earlier setting in the same scope.''])
                else if hides_nothing (sd_type previous) then
                  (d, [mk_error (path @ Q ''.visibleWhen.key'') ''settings-schema.unsupported-condition-type''
                    ''This setting type cannot control visibility.''])
                else
                  let normalized = normalize_setting_value E previous equals (path @ Q ''.visibleWhen.equals'')
                  in if \<not> vr_ok normalized then (d, vr_errors normalized)
                     else (d\<lparr>sd_visible_when := Some (key, vr_value normalized)\<rparr>, []))"

fun parse_definitions ::
  "qt_env \<Rightarrow> nat \<Rightarrow> setting_definition list \<Rightarrow> json list \<Rightarrow> setting_definition list \<times> verror list" where
  "parse_definitions E index settings [] = (settings, [])"
| "parse_definitions E index settings (v # vs) =
     (let (d, errors) = parse_definition E v index;
          duplicate = (if sd_key d \<in> sd_key ` set settings then
            [mk_error (index_path (Q ''$.settings'') index @ Q ''.key'') ''settings-schema.duplicate-key''
              ''Setting keys must be unique.''] else []);
          (d1, condition_errors) = resolve_condition E settings index d
      in case parse_definitions E (Suc index) (settings @ [d1]) vs of (final, rest) \<Rightarrow>
        (final, errors @ duplicate @ condition_errors @ rest))"

definition parse_schema_root :: "qt_env \<Rightarrow> json qmap \<Rightarrow> settings_schema validation_result" where
  "parse_schema_root E ob =
     (let unknown = unknown_fields ob [''schemaVersion'', ''settings''] (Q ''$'');
          (version, version_errors) = required_integer ob ''schemaVersion'' (Q ''$'') 1 1;
          settings = map_of ob (Q ''settings'')
      in if \<not> is_array settings \<or> maximum_setting_count < length (to_array settings) then
           vr_reject (unknown @ version_errors @ [mk_error (Q ''$.settings'') ''settings-schema.invalid-settings-array''
             ''settings must be an array of at most 128 definitions.''])
         else case parse_definitions E 0 [] (to_array settings) of (definitions, errors) \<Rightarrow>
           if unknown @ version_errors @ errors = [] then
             vr_accept \<lparr>ss_version = (case version of None \<Rightarrow> 1 | Some n \<Rightarrow> word_of_int n), ss_settings = definitions\<rparr>
           else vr_reject (unknown @ version_errors @ errors))"

definition parse_settings_schema :: "qt_env \<Rightarrow> bytes \<Rightarrow> settings_schema validation_result" where
  "parse_settings_schema E bs =
     (let parsed = parse_object E maximum_schema_bytes maximum_schema_depth bs
      in if \<not> vr_ok parsed then vr_reject (vr_errors parsed)
         else parse_schema_root E (the (vr_value parsed)))"

section \<open>Settings of a component or an instance\<close>

definition foreign_keys :: "settings_schema \<Rightarrow> setting_scope \<Rightarrow> json qmap \<Rightarrow> qstring list" where
  "foreign_keys sc scope settings = filter (\<lambda>k. case schema_find sc k of
     None \<Rightarrow> True | Some d \<Rightarrow> sd_scope d \<noteq> scope) (om_keys settings)"

fun normalize_definitions ::
  "qt_env \<Rightarrow> setting_scope \<Rightarrow> json qmap \<Rightarrow> bool \<Rightarrow> setting_definition list \<Rightarrow> json qmap \<Rightarrow> json qmap \<times> verror list" where
  "normalize_definitions E scope settings defaults [] normalized = (normalized, [])"
| "normalize_definitions E scope settings defaults (d # ds) normalized =
     (if sd_scope d \<noteq> scope \<or> (\<not> om_contains settings (sd_key d) \<and> \<not> defaults) then
        normalize_definitions E scope settings defaults ds normalized
      else
        let v = (if om_contains settings (sd_key d) then map_of settings (sd_key d) else sd_default d);
            r = normalize_setting_value E d v (child_path (Q ''$'') (sd_key d))
        in if \<not> vr_ok r then
             (case normalize_definitions E scope settings defaults ds normalized of (m, es) \<Rightarrow> (m, vr_errors r @ es))
           else normalize_definitions E scope settings defaults ds
             (om_insert (sd_key d) (the (vr_value r)) normalized))"

definition normalize_settings ::
  "qt_env \<Rightarrow> settings_schema \<Rightarrow> setting_scope \<Rightarrow> json qmap \<Rightarrow> bool \<Rightarrow> json qmap validation_result" where
  "normalize_settings E sc scope settings defaults =
     (let foreign = map (\<lambda>k. mk_error (child_path (Q ''$'') k) ''settings-value.unknown-or-wrong-scope''
            ''The setting key is unknown or belongs to another scope.'') (foreign_keys sc scope settings)
      in case normalize_definitions E scope settings defaults (ss_settings sc) [] of (m, es) \<Rightarrow>
        if foreign @ es = [] then vr_accept m else vr_reject (foreign @ es))"

end
