(* ===== verification/Declarative.thy ===== *)
theory Declarative
  imports Settings_Schema
begin

text \<open>
  src/src/component/declarative_document.{h,cpp}: the only third-party content that the shell
  renders, a text pill whose text is a literal or a component setting. The errors are collected
  in the order of the code.
\<close>

section \<open>Documents\<close>

datatype text_source_kind = LiteralText | ComponentSetting

record text_source =
  ts_kind :: text_source_kind
  ts_value :: qstring

record declarative_document =
  dd_version :: "32 word"
  dd_text :: text_source
  dd_tooltip :: "qstring option"
  dd_maximum_width :: "32 word option"

definition empty_document :: declarative_document where
  "empty_document = \<lparr>dd_version = 1, dd_text = \<lparr>ts_kind = LiteralText, ts_value = []\<rparr>,
     dd_tooltip = None, dd_maximum_width = None\<rparr>"

definition maximum_document_bytes :: int where
  "maximum_document_bytes = 16 * 1024"

definition maximum_resolved_text_length :: nat where
  "maximum_resolved_text_length = 128"

definition maximum_tooltip_length :: nat where
  "maximum_tooltip_length = 256"

definition minimum_maximum_width :: int where
  "minimum_maximum_width = 48"

definition maximum_maximum_width :: int where
  "maximum_maximum_width = 512"

section \<open>Parsing\<close>

definition reject_unknown_fields :: "json qmap \<Rightarrow> string list \<Rightarrow> qstring \<Rightarrow> verror list" where
  "reject_unknown_fields ob allowed path =
     map (\<lambda>k. mk_error (path @ Q ''.'' @ k) ''declarative.unknown-field''
       ''The declarative document contains an unknown field.'')
     (filter (\<lambda>k. k \<notin> set (map Q allowed)) (om_keys ob))"

text \<open>The text that \<open>boundedText\<close> accepts, and the errors it appends.\<close>

definition bounded_text :: "qt_env \<Rightarrow> json option \<Rightarrow> qstring \<Rightarrow> nat \<Rightarrow> qstring option \<times> verror list" where
  "bounded_text E v path maximum_length =
     (if \<not> is_string v then
        (None, [mk_error path ''declarative.string-required'' ''A string value is required.''])
      else
        let t = qt_normal_c E (to_string v)
        in if t = [] \<or> maximum_length < length t \<or> t \<noteq> qt_trimmed E t \<or> qt_disallowed E t then
             (None, [mk_error path ''declarative.invalid-string''
               ''The string is empty, padded, too long, or contains disallowed characters.''])
           else (Some t, []))"

definition is_valid_resolved_text :: "qt_env \<Rightarrow> qstring \<Rightarrow> bool" where
  "is_valid_resolved_text E v \<longleftrightarrow> v \<noteq> [] \<and> length v \<le> maximum_resolved_text_length
     \<and> v = qt_normal_c E v \<and> v = qt_trimmed E v \<and> \<not> qt_disallowed E v"

text \<open>The checks of a text bound to a setting: the first that fails, if one does.\<close>

definition setting_source_errors :: "qt_env \<Rightarrow> settings_schema option \<Rightarrow> qstring \<Rightarrow> verror list" where
  "setting_source_errors E schema key =
     (let path = Q ''$.text.setting''
      in if \<not> is_setting_key key then
           [mk_error path ''declarative.invalid-setting-key'' ''The component setting key is malformed.'']
         else case (case schema of None \<Rightarrow> None | Some sc \<Rightarrow> schema_find sc key) of
             None \<Rightarrow> [mk_error path ''declarative.unknown-setting''
               ''The text source does not resolve to a declared setting.'']
           | Some d \<Rightarrow>
               if sd_scope d \<noteq> ComponentScope \<or> sd_type d \<noteq> StringSetting \<and> sd_type d \<noteq> EnumerationSetting then
                 [mk_error path ''declarative.unsupported-setting''
                   ''Text may bind only to a component-scoped string or enumeration setting.'']
               else if sd_type d = StringSetting
                   \<and> (case sd_minimum_length d of None \<Rightarrow> True | Some n \<Rightarrow> n < 1
                     \<or> (case sd_maximum_length d of None \<Rightarrow> True
                         | Some k \<Rightarrow> int maximum_resolved_text_length < k)) then
                 [mk_error path ''declarative.invalid-setting-text-bounds''
                   ''A bound string setting must require one through 128 characters.'']
               else if \<not> is_string (sd_default d) \<or> \<not> is_valid_resolved_text E (to_string (sd_default d)) then
                 [mk_error path ''declarative.invalid-setting-default''
                   ''The bound setting default must be valid normalized renderer text.'']
               else if sd_type d = EnumerationSetting
                   \<and> list_ex (\<lambda>opt. \<not> is_valid_resolved_text E (eo_value opt)) (sd_options d) then
                 [mk_error path ''declarative.invalid-setting-options''
                   ''Every bound enumeration value must be valid normalized renderer text.'']
               else [])"

definition parse_text_source ::
  "qt_env \<Rightarrow> settings_schema option \<Rightarrow> json option \<Rightarrow> text_source \<times> verror list" where
  "parse_text_source E schema v =
     (let none = dd_text empty_document
      in if \<not> is_object v then
           (none, [mk_error (Q ''$.text'') ''declarative.text-object-required''
             ''text must be a literal or component-setting source object.''])
         else
           let ob = to_object v;
               unknown = reject_unknown_fields ob [''literal'', ''setting''] (Q ''$.text'');
               has_literal = om_contains ob (Q ''literal''); has_setting = om_contains ob (Q ''setting'')
           in if has_literal = has_setting then
                (none, unknown @ [mk_error (Q ''$.text'') ''declarative.exactly-one-text-source''
                  ''text must contain exactly one of literal or setting.''])
              else if has_literal then
                (case bounded_text E (map_of ob (Q ''literal'')) (Q ''$.text.literal'') maximum_resolved_text_length of
                   (Some t, es) \<Rightarrow> (\<lparr>ts_kind = LiteralText, ts_value = t\<rparr>, unknown @ es)
                 | (None, es) \<Rightarrow> (none, unknown @ es))
              else
                (case bounded_text E (map_of ob (Q ''setting'')) (Q ''$.text.setting'') 64 of
                   (Some t, es) \<Rightarrow> (\<lparr>ts_kind = ComponentSetting, ts_value = t\<rparr>,
                     unknown @ es @ setting_source_errors E schema t)
                 | (None, es) \<Rightarrow> (none, unknown @ es)))"

definition parse_tooltip :: "qt_env \<Rightarrow> json qmap \<Rightarrow> qstring option \<times> verror list" where
  "parse_tooltip E doc =
     (if om_contains doc (Q ''tooltip'') then
        bounded_text E (map_of doc (Q ''tooltip'')) (Q ''$.tooltip'') maximum_tooltip_length
      else (None, []))"

definition parse_maximum_width :: "json qmap \<Rightarrow> 32 word option \<times> verror list" where
  "parse_maximum_width doc =
     (if om_contains doc (Q ''maximumWidth'') then
        let width = map_of doc (Q ''maximumWidth'')
        in if \<not> is_double width \<or> of_int \<lfloor>to_double width\<rfloor> \<noteq> to_double width
             \<or> to_double width < of_int minimum_maximum_width \<or> of_int maximum_maximum_width < to_double width then
             (None, [mk_error (Q ''$.maximumWidth'') ''declarative.invalid-maximum-width''
               ''maximumWidth must be an integer from 48 through 512.''])
           else (Some (word_of_int \<lfloor>to_double width\<rfloor>), [])
      else (None, []))"

definition parse_document_root ::
  "qt_env \<Rightarrow> settings_schema option \<Rightarrow> json qmap \<Rightarrow> declarative_document validation_result" where
  "parse_document_root E schema doc =
     (let unknown = reject_unknown_fields doc
            [''documentVersion'', ''type'', ''text'', ''tooltip'', ''maximumWidth''] (Q ''$'');
          version = map_of doc (Q ''documentVersion'');
          version_errors = (if \<not> is_double version \<or> to_double version \<noteq> 1 then
            [mk_error (Q ''$.documentVersion'') ''declarative.unsupported-version''
              ''documentVersion must be exactly 1.''] else []);
          kind = map_of doc (Q ''type'');
          kind_errors = (if \<not> is_string kind \<or> to_string kind \<noteq> Q ''text-pill'' then
            [mk_error (Q ''$.type'') ''declarative.unsupported-type''
              ''Version one supports only the text-pill primitive.''] else []);
          (source, source_errors) = parse_text_source E schema (map_of doc (Q ''text''));
          (tooltip, tooltip_errors) = parse_tooltip E doc;
          (width, width_errors) = parse_maximum_width doc;
          errors = unknown @ version_errors @ kind_errors @ source_errors @ tooltip_errors @ width_errors
      in if errors = [] then
           vr_accept (empty_document\<lparr>dd_text := source, dd_tooltip := tooltip, dd_maximum_width := width\<rparr>)
         else vr_reject errors)"

definition parse_declarative_document ::
  "qt_env \<Rightarrow> bytes \<Rightarrow> settings_schema option \<Rightarrow> declarative_document validation_result" where
  "parse_declarative_document E bs schema =
     (let parsed = parse_object E maximum_document_bytes 8 bs
      in if \<not> vr_ok parsed then vr_reject (vr_errors parsed)
         else parse_document_root E schema (the (vr_value parsed)))"

section \<open>Serialisation\<close>

definition document_object :: "declarative_document \<Rightarrow> json qmap" where
  "document_object d =
     (let source = (if ts_kind (dd_text d) = LiteralText
            then json_object [(''literal'', JStr (ts_value (dd_text d)))]
            else json_object [(''setting'', JStr (ts_value (dd_text d)))]);
          base = json_object [(''documentVersion'', json_int 1), (''type'', JStr (Q ''text-pill'')),
            (''text'', JObj source)];
          with_tooltip = (case dd_tooltip d of None \<Rightarrow> base | Some t \<Rightarrow> om_insert (Q ''tooltip'') (JStr t) base)
      in case dd_maximum_width d of
          None \<Rightarrow> with_tooltip
        | Some w \<Rightarrow> om_insert (Q ''maximumWidth'') (json_int (uint w)) with_tooltip)"

definition serialize_declarative_document :: "qt_env \<Rightarrow> declarative_document \<Rightarrow> bytes" where
  "serialize_declarative_document E d = qt_compact E (JObj (document_object d))"

section \<open>The documents a parse can return\<close>

definition text_ok :: "qt_env \<Rightarrow> nat \<Rightarrow> qstring \<Rightarrow> bool" where
  "text_ok E n v \<longleftrightarrow> v \<noteq> [] \<and> length v \<le> n \<and> v = qt_normal_c E v \<and> v = qt_trimmed E v \<and> \<not> qt_disallowed E v"

definition document_ok :: "qt_env \<Rightarrow> settings_schema option \<Rightarrow> declarative_document \<Rightarrow> bool" where
  "document_ok E schema d \<longleftrightarrow> dd_version d = 1
     \<and> (case ts_kind (dd_text d) of
          LiteralText \<Rightarrow> text_ok E maximum_resolved_text_length (ts_value (dd_text d))
        | ComponentSetting \<Rightarrow> text_ok E 64 (ts_value (dd_text d))
            \<and> setting_source_errors E schema (ts_value (dd_text d)) = [])
     \<and> (case dd_tooltip d of None \<Rightarrow> True | Some t \<Rightarrow> text_ok E maximum_tooltip_length t)
     \<and> (case dd_maximum_width d of None \<Rightarrow> True
        | Some w \<Rightarrow> minimum_maximum_width \<le> uint w \<and> uint w \<le> maximum_maximum_width)"

lemma bounded_text_ok:
  "normal_idempotent E \<Longrightarrow> bounded_text E v p n = (Some t, es) \<Longrightarrow> text_ok E n t \<and> es = []"
  by (auto simp: bounded_text_def text_ok_def normal_idempotent_def Let_def split: if_splits)

lemma bounded_text_accepts: "text_ok E n t \<Longrightarrow> bounded_text E (Some (JStr t)) p n = (Some t, [])"
  by (auto simp: bounded_text_def text_ok_def Let_def)

lemma bounded_text_fails: "bounded_text E v p n = (None, es) \<Longrightarrow> es \<noteq> []"
  by (auto simp: bounded_text_def Let_def split: if_splits)

lemma parse_text_source_ok:
  assumes "normal_idempotent E" "parse_text_source E schema v = (src, [])"
  shows "case ts_kind src of
      LiteralText \<Rightarrow> text_ok E maximum_resolved_text_length (ts_value src)
    | ComponentSetting \<Rightarrow> text_ok E 64 (ts_value src) \<and> setting_source_errors E schema (ts_value src) = []"
  using assms(2) bounded_text_ok [OF assms(1)]
  by (auto simp: parse_text_source_def Let_def split: if_splits prod.splits option.splits
      dest: bounded_text_fails)

lemma parse_maximum_width_ok:
  assumes "parse_maximum_width doc = (Some w, es)"
  shows "minimum_maximum_width \<le> uint w \<and> uint w \<le> maximum_maximum_width"
proof -
  let ?x = "to_double (map_of doc (Q ''maximumWidth''))"
  from assms have w: "w = word_of_int \<lfloor>?x\<rfloor>" and i: "of_int \<lfloor>?x\<rfloor> = ?x"
    and b: "of_int minimum_maximum_width \<le> ?x" "?x \<le> of_int maximum_maximum_width"
    by (auto simp: parse_maximum_width_def Let_def split: if_splits)
  from i b have "minimum_maximum_width \<le> \<lfloor>?x\<rfloor>" "\<lfloor>?x\<rfloor> \<le> maximum_maximum_width"
    by (metis of_int_le_iff)+
  then show ?thesis
    by (simp add: w uint_word_of_int minimum_maximum_width_def maximum_maximum_width_def)
qed

lemma parse_document_root_ok:
  assumes idem: "normal_idempotent E" and "vr_ok (parse_document_root E schema doc)"
  obtains d where "parse_document_root E schema doc = vr_accept d" "document_ok E schema d"
proof -
  obtain src e1 where src: "parse_text_source E schema (map_of doc (Q ''text'')) = (src, e1)" by force
  obtain tip e2 where tip: "parse_tooltip E doc = (tip, e2)" by force
  obtain w e3 where w: "parse_maximum_width doc = (w, e3)" by force
  from assms(2) src tip w have e: "e1 = []" "e2 = []" "e3 = []"
    and d: "parse_document_root E schema doc
      = vr_accept (empty_document\<lparr>dd_text := src, dd_tooltip := tip, dd_maximum_width := w\<rparr>)"
    by (auto simp: parse_document_root_def Let_def split: if_splits)
  have "case tip of None \<Rightarrow> True | Some t \<Rightarrow> text_ok E maximum_tooltip_length t"
    using tip bounded_text_ok [OF idem] by (auto simp: parse_tooltip_def split: option.split if_splits)
  moreover have "case w of None \<Rightarrow> True | Some w \<Rightarrow> minimum_maximum_width \<le> uint w \<and> uint w \<le> maximum_maximum_width"
    using w parse_maximum_width_ok by (auto split: option.split)
  ultimately show thesis
    using that [OF d] parse_text_source_ok [OF idem src [unfolded e(1)]]
    by (cases "ts_kind src") (simp_all add: document_ok_def empty_document_def)
qed

section \<open>The serialiser and the parser\<close>

lemma om_keys_document: "set (om_keys (document_object d)) \<subseteq>
    {Q ''documentVersion'', Q ''type'', Q ''text'', Q ''tooltip'', Q ''maximumWidth''}"
  by (auto simp: document_object_def json_object_def Let_def split: option.splits)

lemma document_lookup:
  "map_of (document_object d) (Q ''documentVersion'') = Some (json_int 1)"
  "map_of (document_object d) (Q ''type'') = Some (JStr (Q ''text-pill''))"
  "map_of (document_object d) (Q ''text'') = Some (JObj (if ts_kind (dd_text d) = LiteralText
     then [(Q ''literal'', JStr (ts_value (dd_text d)))] else [(Q ''setting'', JStr (ts_value (dd_text d)))]))"
  "map_of (document_object d) (Q ''tooltip'') = map_option JStr (dd_tooltip d)"
  "map_of (document_object d) (Q ''maximumWidth'') = map_option (\<lambda>w. json_int (uint w)) (dd_maximum_width d)"
  by (simp_all add: document_object_def json_object_def Let_def split: option.split)

lemma parse_document_object:
  assumes ok: "document_ok E schema d"
  shows "parse_document_root E schema (document_object d) = vr_accept d"
proof -
  have "reject_unknown_fields (document_object d)
      [''documentVersion'', ''type'', ''text'', ''tooltip'', ''maximumWidth''] (Q ''$'') = []"
    using om_keys_document [of d] by (force simp: reject_unknown_fields_def filter_empty_conv)
  moreover have "parse_text_source E schema (map_of (document_object d) (Q ''text'')) = (dd_text d, [])"
    using ok
    by (cases "ts_kind (dd_text d)"; cases "dd_text d")
      (auto simp: document_lookup document_ok_def parse_text_source_def reject_unknown_fields_def
        om_contains_def bounded_text_accepts Let_def)
  moreover have "parse_tooltip E (document_object d) = (dd_tooltip d, [])"
    using ok by (auto simp: parse_tooltip_def document_lookup om_contains_def document_ok_def
        bounded_text_accepts split: option.splits)
  moreover have "parse_maximum_width (document_object d) = (dd_maximum_width d, [])"
  proof (cases "dd_maximum_width d")
    case None
    then show ?thesis by (simp add: parse_maximum_width_def document_lookup om_contains_def)
  next
    case (Some w)
    define i where "i = uint w"
    have "map_of (document_object d) (Q ''maximumWidth'') = Some (json_int i)"
      by (simp add: document_lookup Some i_def)
    moreover have "minimum_maximum_width \<le> i" "i \<le> maximum_maximum_width"
      using ok by (simp_all add: document_ok_def Some i_def)
    ultimately have "parse_maximum_width (document_object d) = (Some (word_of_int i), [])"
      by (simp add: parse_maximum_width_def om_contains_def Let_def)
    then show ?thesis by (simp add: Some i_def)
  qed
  moreover have "dd_version d = 1" using ok by (simp add: document_ok_def)
  ultimately show ?thesis
    by (simp add: parse_document_root_def document_lookup empty_document_def Let_def)
qed

end
