(* ===== verification/Surface_Plan.thy ===== *)
theory Surface_Plan
  imports Declarative
begin

text \<open>
  src/src/component/surface_plan.{h,cpp}: the document that the coordinator publishes and the
  surface daemon renders. A plan is only ever published as an artifact, and an artifact is made
  by serialising the plan and parsing the bytes back with the parser of the renderer, so the
  checks of \<open>parseSurfacePlan\<close> hold of every published plan.

  The two \<open>QHash\<close> fields of a plan are ordered maps here: the code reads them by key or in
  the order of the sorted keys, and compares them as sets of entries.
\<close>

section \<open>State\<close>

record surface_instance =
  si_component_id :: qstring
  si_component_type :: qstring
  si_package_digest :: qstring
  si_runtime_kind :: qstring
  si_factory :: qstring
  si_declarative_text :: qstring
  si_declarative_tooltip :: qstring
  si_maximum_width :: "32 word"
  si_settings :: "json qmap"

record surface_bar_layout =
  bl_output_mode :: qstring
  bl_start :: "qstring list"
  bl_center :: "qstring list"
  bl_end :: "qstring list"

record surface_plan =
  sp_catalog_digest :: qstring
  sp_configuration_revision :: "64 word"
  sp_instances :: "surface_instance qmap"
  sp_bar_layouts :: "surface_bar_layout qmap"

record surface_plan_artifact =
  art_plan :: surface_plan
  art_bytes :: bytes
  art_digest :: qstring
  art_revision :: "64 word"

definition empty_plan :: surface_plan where
  "empty_plan = \<lparr>sp_catalog_digest = [], sp_configuration_revision = 0, sp_instances = [], sp_bar_layouts = []\<rparr>"

definition maximum_plan_bytes :: int where
  "maximum_plan_bytes = 4 * 1024 * 1024"

definition maximum_plan_instances :: nat where
  "maximum_plan_instances = 512"

definition maximum_plan_bar_layouts :: nat where
  "maximum_plan_bar_layouts = 64"

definition surface_plan_format_version :: int where
  "surface_plan_format_version = 2"

definition workspace_switcher_id :: qstring where
  "workspace_switcher_id = Q ''io.github.coastlinesec.hyprshelld.workspace-switcher''"

definition workspace_switcher_factory :: qstring where
  "workspace_switcher_factory = Q ''workspace-switcher''"

abbreviation builtin_kind :: qstring where
  "builtin_kind \<equiv> Q ''builtin-v1''"

abbreviation declarative_kind :: qstring where
  "declarative_kind \<equiv> Q ''declarative-v1''"

section \<open>Grammar helpers\<close>

definition require_exact_keys :: "json qmap \<Rightarrow> string list \<Rightarrow> qstring \<Rightarrow> verror option" where
  "require_exact_keys ob expected path =
     (if exact_keys ob expected then None
      else Some (mk_error path ''surface-plan.closed-object''
        ''The object contains missing or unsupported fields.''))"

definition parse_unsigned_revision :: "qstring \<Rightarrow> 64 word option" where
  "parse_unsigned_revision s = parse_revision s"

fun parse_id_array :: "json list \<Rightarrow> qstring \<Rightarrow> nat \<Rightarrow> verror + qstring list" where
  "parse_id_array [] path i = Inr []"
| "parse_id_array (v # vs) path i =
     (if \<not> is_string (Some v) \<or> \<not> is_lowercase_uuid_v4 (to_string (Some v)) then
        Inl (mk_error (index_path path i) ''surface-plan.invalid-instance-id''
          ''The instance ID must be a canonical lowercase UUIDv4.'')
      else case parse_id_array vs path (Suc i) of
          Inl e \<Rightarrow> Inl e | Inr ids \<Rightarrow> Inr (to_string (Some v) # ids))"

definition parse_string_array :: "json option \<Rightarrow> qstring \<Rightarrow> verror + qstring list" where
  "parse_string_array v path =
     (if \<not> is_array v then
        Inl (mk_error path ''surface-plan.array-required'' ''Expected an array of instance IDs.'')
      else if maximum_plan_instances < length (to_array v) then
        Inl (mk_error path ''surface-plan.instance-limit'' ''The region contains too many instances.'')
      else parse_id_array (to_array v) path 0)"

section \<open>Instances\<close>

text \<open>The document that the declarative branch serialises and parses again.\<close>

definition resolved_document :: "qstring \<Rightarrow> qstring \<Rightarrow> int \<Rightarrow> declarative_document" where
  "resolved_document content tooltip width =
     empty_document\<lparr>dd_text := \<lparr>ts_kind = LiteralText, ts_value = content\<rparr>,
       dd_tooltip := (if tooltip = [] then None else Some tooltip),
       dd_maximum_width := Some (word_of_int width)\<rparr>"

text \<open>The fields of an instance that depend on its runtime.\<close>

record resolved_runtime =
  rr_factory :: qstring
  rr_text :: qstring
  rr_tooltip :: qstring
  rr_width :: "32 word"

definition parse_builtin_runtime ::
  "qstring \<Rightarrow> qstring \<Rightarrow> json qmap \<Rightarrow> json qmap \<Rightarrow> verror + resolved_runtime" where
  "parse_builtin_runtime path component_id runtime settings =
     (let runtime_path = child_path path (Q ''runtime'')
      in case require_exact_keys runtime [''kind'', ''factory''] runtime_path of
          Some e \<Rightarrow> Inl e
        | None \<Rightarrow>
            let factory = map_of runtime (Q ''factory'')
            in if \<not> is_string factory \<or> 64 < length (to_string factory) \<or> \<not> match_kebab (to_string factory) then
                 Inl (mk_error (child_path runtime_path (Q ''factory'')) ''surface-plan.invalid-factory''
                   ''The built-in factory key is invalid.'')
               else if component_id \<noteq> workspace_switcher_id \<or> to_string factory \<noteq> workspace_switcher_factory
                   \<or> \<not> is_valid_workspace_switcher_settings settings then
                 Inl (mk_error path ''surface-plan.unsupported-factory-instance''
                   ''The built-in instance is not supported by this host.'')
               else Inr \<lparr>rr_factory = to_string factory, rr_text = [], rr_tooltip = [], rr_width = 0\<rparr>)"

definition parse_declarative_runtime ::
  "qt_env \<Rightarrow> qstring \<Rightarrow> json qmap \<Rightarrow> json qmap \<Rightarrow> verror + resolved_runtime" where
  "parse_declarative_runtime E path runtime settings =
     (let runtime_path = child_path path (Q ''runtime'')
      in case require_exact_keys runtime [''kind'', ''text'', ''tooltip'', ''maximumWidth''] runtime_path of
          Some e \<Rightarrow> Inl e
        | None \<Rightarrow>
            let content = map_of runtime (Q ''text''); tooltip = map_of runtime (Q ''tooltip'');
                maximum_width = map_of runtime (Q ''maximumWidth''); width = to_integer (-1) maximum_width
            in if \<not> is_string content \<or> \<not> is_valid_resolved_text E (to_string content)
                 \<or> \<not> is_string tooltip \<or> maximum_tooltip_length < length (to_string tooltip)
                 \<or> \<not> is_double maximum_width \<or> to_double maximum_width \<noteq> of_int width
                 \<or> width < minimum_maximum_width \<or> maximum_maximum_width < width
                 \<or> settings \<noteq> [] then
                 Inl (mk_error runtime_path ''surface-plan.invalid-declarative-runtime''
                   ''The resolved declarative runtime is invalid.'')
               else if \<not> vr_ok (parse_declarative_document E (serialize_declarative_document E
                   (resolved_document (to_string content) (to_string tooltip) width)) None) then
                 Inl (mk_error runtime_path ''surface-plan.invalid-declarative-runtime''
                   ''The resolved declarative text is invalid.'')
               else Inr \<lparr>rr_factory = [], rr_text = to_string content, rr_tooltip = to_string tooltip,
                         rr_width = word_of_int width\<rparr>)"

definition parse_runtime ::
  "qt_env \<Rightarrow> qstring \<Rightarrow> qstring \<Rightarrow> json qmap \<Rightarrow> json qmap \<Rightarrow> verror + resolved_runtime" where
  "parse_runtime E path component_id runtime settings =
     (let kind = to_string (map_of runtime (Q ''kind''))
      in if kind = builtin_kind then parse_builtin_runtime path component_id runtime settings
         else if kind = declarative_kind then parse_declarative_runtime E path runtime settings
         else Inl (mk_error (child_path (child_path path (Q ''runtime'')) (Q ''kind''))
           ''surface-plan.unsupported-runtime''
           ''Only trusted built-in and declarative runtimes are supported.''))"

definition parse_instance :: "qt_env \<Rightarrow> json qmap \<Rightarrow> qstring \<Rightarrow> verror + surface_instance" where
  "parse_instance E ob path =
     (case require_exact_keys ob
         [''componentId'', ''componentType'', ''packageDigest'', ''runtime'', ''settings''] path of
        Some e \<Rightarrow> Inl e
      | None \<Rightarrow>
          let component_id = map_of ob (Q ''componentId''); component_type = map_of ob (Q ''componentType'');
              package_digest = map_of ob (Q ''packageDigest'');
              runtime = map_of ob (Q ''runtime''); settings = map_of ob (Q ''settings'');
              kind = map_of (to_object runtime) (Q ''kind'')
          in if \<not> is_string component_id \<or> \<not> is_valid_component_id (to_string component_id) then
               Inl (mk_error (child_path path (Q ''componentId'')) ''surface-plan.invalid-component-id''
                 ''The component ID is invalid.'')
             else if \<not> is_string component_type \<or> to_string component_type \<noteq> Q ''bar-widget'' then
               Inl (mk_error (child_path path (Q ''componentType'')) ''surface-plan.unsupported-component-type''
                 ''Only bar-widget instances are supported.'')
             else if \<not> is_string package_digest \<or> \<not> is_full_sha256_digest (to_string package_digest) then
               Inl (mk_error (child_path path (Q ''packageDigest'')) ''surface-plan.invalid-package-digest''
                 ''The package digest must be lowercase SHA-256.'')
             else if \<not> is_object runtime then
               Inl (mk_error (child_path path (Q ''runtime'')) ''surface-plan.runtime-object-required''
                 ''The runtime must be an object.'')
             else if \<not> is_string kind then
               Inl (mk_error (child_path (child_path path (Q ''runtime'')) (Q ''kind''))
                 ''surface-plan.unsupported-runtime'' ''The trusted runtime kind is invalid.'')
             else if \<not> is_object settings \<or> 128 < length (to_object settings) then
               Inl (mk_error (child_path path (Q ''settings'')) ''surface-plan.invalid-settings''
                 ''The instance settings object is invalid.'')
             else (case parse_runtime E path (to_string component_id) (to_object runtime) (to_object settings) of
                 Inl e \<Rightarrow> Inl e
               | Inr rt \<Rightarrow> Inr \<lparr>si_component_id = to_string component_id,
                   si_component_type = to_string component_type,
                   si_package_digest = to_string package_digest, si_runtime_kind = to_string kind,
                   si_factory = rr_factory rt, si_declarative_text = rr_text rt,
                   si_declarative_tooltip = rr_tooltip rt, si_maximum_width = rr_width rt,
                   si_settings = to_object settings\<rparr>))"

section \<open>Bar layouts\<close>

definition parse_regions :: "json qmap \<Rightarrow> qstring \<Rightarrow> qstring \<Rightarrow> verror + surface_bar_layout" where
  "parse_regions regions path mode =
     (case parse_string_array (map_of regions (Q ''start'')) (child_path path (Q ''start'')) of
        Inl e \<Rightarrow> Inl e
      | Inr start_ids \<Rightarrow>
          (case parse_string_array (map_of regions (Q ''center'')) (child_path path (Q ''center'')) of
             Inl e \<Rightarrow> Inl e
           | Inr center_ids \<Rightarrow>
               (case parse_string_array (map_of regions (Q ''end'')) (child_path path (Q ''end'')) of
                  Inl e \<Rightarrow> Inl e
                | Inr end_ids \<Rightarrow> Inr \<lparr>bl_output_mode = mode, bl_start = start_ids,
                    bl_center = center_ids, bl_end = end_ids\<rparr>)))"

definition parse_bar_layout :: "json qmap \<Rightarrow> qstring \<Rightarrow> verror + surface_bar_layout" where
  "parse_bar_layout ob path =
     (case require_exact_keys ob [''outputs'', ''regions''] path of
        Some e \<Rightarrow> Inl e
      | None \<Rightarrow>
          let outputs = map_of ob (Q ''outputs''); regions = map_of ob (Q ''regions'');
              outputs_path = child_path path (Q ''outputs''); regions_path = child_path path (Q ''regions'')
          in if \<not> is_object outputs \<or> \<not> is_object regions then
               Inl (mk_error path ''surface-plan.layout-object-required''
                 ''The output selector and regions must be objects.'')
             else case require_exact_keys (to_object outputs) [''mode''] outputs_path of
                 Some e \<Rightarrow> Inl e
               | None \<Rightarrow>
                   let mode = map_of (to_object outputs) (Q ''mode'')
                   in if \<not> is_string mode \<or> to_string mode \<noteq> Q ''all'' then
                        Inl (mk_error (child_path outputs_path (Q ''mode'')) ''surface-plan.unsupported-output-selector''
                          ''Only the all-output selector is supported.'')
                      else case require_exact_keys (to_object regions) [''start'', ''center'', ''end''] regions_path of
                          Some e \<Rightarrow> Inl e
                        | None \<Rightarrow> parse_regions (to_object regions) regions_path (to_string mode))"

section \<open>Relationships\<close>

definition region_path :: "string \<Rightarrow> qstring \<Rightarrow> string \<Rightarrow> nat \<Rightarrow> qstring" where
  "region_path prefix layout_id region i =
     Q prefix @ layout_id @ Q ''.regions.'' @ Q region @ Q ''['' @ qnumber i @ Q '']''"

definition region_placements :: "qstring \<Rightarrow> string \<Rightarrow> qstring list \<Rightarrow> (qstring \<times> qstring) list" where
  "region_placements layout_id region ids =
     map (\<lambda>(i, x). (region_path ''$.layouts.bars.'' layout_id region i, x)) (enumerate 0 ids)"

text \<open>The placed identifiers with their paths, in the order of the loops.\<close>

definition layout_placements :: "qstring \<times> surface_bar_layout \<Rightarrow> (qstring \<times> qstring) list" where
  "layout_placements p =
     region_placements (fst p) ''start'' (bl_start (snd p))
     @ region_placements (fst p) ''center'' (bl_center (snd p))
     @ region_placements (fst p) ''end'' (bl_end (snd p))"

fun check_placements :: "surface_instance qmap \<Rightarrow> qstring list \<Rightarrow> (qstring \<times> qstring) list \<Rightarrow>
    qstring list \<times> verror list" where
  "check_placements instances placed [] = (placed, [])"
| "check_placements instances placed ((path, x) # ps) =
     (if \<not> om_contains instances x then
        (case check_placements instances placed ps of (placed', es) \<Rightarrow>
          (placed', mk_error path ''surface-plan.dangling-instance'' ''The placed instance does not exist.'' # es))
      else if x \<in> set placed then
        (case check_placements instances placed ps of (placed', es) \<Rightarrow>
          (placed', mk_error path ''surface-plan.duplicate-placement''
            ''A visual instance may be placed only once.'' # es))
      else check_placements instances (x # placed) ps)"

definition validate_relationships :: "surface_plan \<Rightarrow> verror list" where
  "validate_relationships p =
     (let (placed, errors) = check_placements (sp_instances p) [] (concat (map layout_placements (sp_bar_layouts p)))
      in errors @ map (\<lambda>x. mk_error (Q ''$.instances.'' @ x) ''surface-plan.unplaced-instance''
           ''Every effective visual instance must be placed.'')
         (filter (\<lambda>x. x \<notin> set placed) (om_keys (sp_instances p))))"

section \<open>The plan document\<close>

fun parse_instances :: "qt_env \<Rightarrow> json qmap \<Rightarrow> surface_instance qmap \<Rightarrow> verror + surface_instance qmap" where
  "parse_instances E [] acc = Inr acc"
| "parse_instances E ((k, v) # rest) acc =
     (if \<not> is_lowercase_uuid_v4 k \<or> \<not> is_object (Some v) then
        Inl (mk_error (Q ''$.instances.'' @ k) ''surface-plan.invalid-instance''
          ''The instance key or value is invalid.'')
      else case parse_instance E (to_object (Some v)) (Q ''$.instances.'' @ k) of
          Inl e \<Rightarrow> Inl e
        | Inr inst \<Rightarrow> parse_instances E rest (om_insert k inst acc))"

fun parse_bars :: "json qmap \<Rightarrow> surface_bar_layout qmap \<Rightarrow> verror + surface_bar_layout qmap" where
  "parse_bars [] acc = Inr acc"
| "parse_bars ((k, v) # rest) acc =
     (if \<not> match_kebab k \<or> \<not> is_object (Some v) then
        Inl (mk_error (Q ''$.layouts.bars.'' @ k) ''surface-plan.invalid-layout''
          ''The bar layout key or value is invalid.'')
      else case parse_bar_layout (to_object (Some v)) (Q ''$.layouts.bars.'' @ k) of
          Inl e \<Rightarrow> Inl e
        | Inr layout \<Rightarrow> parse_bars rest (om_insert k layout acc))"

definition parse_layouts :: "json qmap \<Rightarrow> verror + surface_bar_layout qmap" where
  "parse_layouts layouts =
     (case require_exact_keys layouts [''bars''] (Q ''$.layouts'') of
        Some e \<Rightarrow> Inl e
      | None \<Rightarrow>
          let bars = map_of layouts (Q ''bars'')
          in if \<not> is_object bars then
               Inl (mk_error (Q ''$.layouts.bars'') ''surface-plan.object-required'' ''Bar layouts must be an object.'')
             else if maximum_plan_bar_layouts < length (to_object bars) then
               Inl (mk_error (Q ''$.layouts.bars'') ''surface-plan.layout-limit''
                 ''The plan contains too many bar layouts.'')
             else parse_bars (to_object bars) [])"

text \<open>The checks of the header: the error, or the digest, the revision and the two containers.\<close>

definition parse_plan_header ::
  "json qmap \<Rightarrow> verror + (qstring \<times> 64 word) \<times> (json qmap \<times> json qmap)" where
  "parse_plan_header doc =
     (case require_exact_keys doc
         [''formatVersion'', ''catalogDigest'', ''configurationRevision'', ''instances'', ''layouts''] (Q ''$'') of
        Some e \<Rightarrow> Inl e
      | None \<Rightarrow>
          let version = map_of doc (Q ''formatVersion''); digest = map_of doc (Q ''catalogDigest'');
              revision = map_of doc (Q ''configurationRevision'');
              instances = map_of doc (Q ''instances''); layouts = map_of doc (Q ''layouts'')
          in if \<not> is_double version \<or> to_integer (-1) version \<noteq> surface_plan_format_version
               \<or> to_double version \<noteq> of_int surface_plan_format_version then
               Inl (mk_error (Q ''$.formatVersion'') ''surface-plan.unsupported-format''
                 ''Only surface plan format version 2 is supported.'')
             else if \<not> is_string digest \<or> \<not> is_full_sha256_digest (to_string digest) then
               Inl (mk_error (Q ''$.catalogDigest'') ''surface-plan.invalid-catalog-digest''
                 ''The catalog digest must be lowercase SHA-256.'')
             else if \<not> is_string revision \<or> parse_unsigned_revision (to_string revision) = None then
               Inl (mk_error (Q ''$.configurationRevision'') ''surface-plan.invalid-configuration-revision''
                 ''The configuration revision is not canonical unsigned-64 text.'')
             else if \<not> is_object instances \<or> \<not> is_object layouts then
               Inl (mk_error (Q ''$'') ''surface-plan.object-required'' ''Instances and layouts must be objects.'')
             else if maximum_plan_instances < length (to_object instances) then
               Inl (mk_error (Q ''$.instances'') ''surface-plan.instance-limit''
                 ''The plan contains too many instances.'')
             else Inr ((to_string digest, the (parse_unsigned_revision (to_string revision))),
               (to_object instances, to_object layouts)))"

definition parse_plan_root :: "qt_env \<Rightarrow> json qmap \<Rightarrow> surface_plan validation_result" where
  "parse_plan_root E doc =
     (case parse_plan_header doc of
        Inl e \<Rightarrow> vr_reject [e]
      | Inr ((digest, revision), (instances, layouts)) \<Rightarrow>
          (case parse_instances E instances [] of
             Inl e \<Rightarrow> vr_reject [e]
           | Inr insts \<Rightarrow>
               (case parse_layouts layouts of
                  Inl e \<Rightarrow> vr_reject [e]
                | Inr bars \<Rightarrow>
                    let plan = \<lparr>sp_catalog_digest = digest, sp_configuration_revision = revision,
                          sp_instances = insts, sp_bar_layouts = bars\<rparr>;
                        errors = validate_relationships plan
                    in if errors = [] then vr_accept plan else vr_reject errors)))"

definition parse_surface_plan :: "qt_env \<Rightarrow> bytes \<Rightarrow> surface_plan validation_result" where
  "parse_surface_plan E bs =
     (let parsed = parse_object E maximum_plan_bytes 32 bs
      in if \<not> vr_ok parsed then vr_reject (vr_errors parsed)
         else parse_plan_root E (the (vr_value parsed)))"

section \<open>Artifacts\<close>

definition string_array :: "qstring list \<Rightarrow> json" where
  "string_array values = JArr (map JStr values)"

definition instance_object :: "surface_instance \<Rightarrow> json qmap" where
  "instance_object i =
     (let kind = json_object [(''kind'', JStr (si_runtime_kind i))];
          runtime = (if si_runtime_kind i = builtin_kind then om_insert (Q ''factory'') (JStr (si_factory i)) kind
            else om_insert (Q ''maximumWidth'') (json_int (uint (si_maximum_width i)))
              (om_insert (Q ''tooltip'') (JStr (si_declarative_tooltip i))
                (om_insert (Q ''text'') (JStr (si_declarative_text i)) kind)))
      in json_object
        [(''componentId'', JStr (si_component_id i)), (''componentType'', JStr (si_component_type i)),
         (''packageDigest'', JStr (si_package_digest i)), (''runtime'', JObj runtime),
         (''settings'', JObj (si_settings i))])"

definition layout_object :: "surface_bar_layout \<Rightarrow> json qmap" where
  "layout_object l = json_object
     [(''outputs'', JObj (json_object [(''mode'', JStr (bl_output_mode l))])),
      (''regions'', JObj (json_object [(''start'', string_array (bl_start l)),
         (''center'', string_array (bl_center l)), (''end'', string_array (bl_end l))]))]"

definition plan_object :: "surface_plan \<Rightarrow> json qmap" where
  "plan_object p =
     (let instances = fold (\<lambda>(k, i). om_insert k (JObj (instance_object i))) (sp_instances p) [];
          bars = fold (\<lambda>(k, l). om_insert k (JObj (layout_object l))) (sp_bar_layouts p) []
      in json_object
        [(''formatVersion'', json_int surface_plan_format_version),
         (''catalogDigest'', JStr (sp_catalog_digest p)),
         (''configurationRevision'', JStr (qnumber (unat (sp_configuration_revision p)))),
         (''instances'', JObj instances), (''layouts'', JObj (json_object [(''bars'', JObj bars)]))])"

definition serialize_plan :: "qt_env \<Rightarrow> surface_plan \<Rightarrow> bytes" where
  "serialize_plan E p = qt_compact E (JObj (plan_object p)) @ [10]"

text \<open>\<open>QByteArray::toHex\<close>.\<close>

definition hex_char :: "nat \<Rightarrow> qchar" where
  "hex_char d = (if d < 10 then word_of_nat (48 + d) else word_of_nat (87 + d))"

definition to_hex :: "bytes \<Rightarrow> qstring" where
  "to_hex bs = concat (map (\<lambda>b. [hex_char (unat b div 16), hex_char (unat b mod 16)]) bs)"

text \<open>
  \<open>QByteArray::fromHex\<close>: characters that are no digits are skipped; an odd number of digits
  leaves the first byte with one digit.
\<close>

fun pair_nibbles :: "qchar list \<Rightarrow> bytes" where
  "pair_nibbles (h # l # ds) = ucast (or (push_bit 4 h) l) # pair_nibbles ds"
| "pair_nibbles ds = []"

definition from_hex :: "qstring \<Rightarrow> bytes" where
  "from_hex s = (let ds = List.map_filter hex_digit s
     in if even (length ds) then pair_nibbles ds else pair_nibbles (0 # ds))"

definition surface_plan_digest :: "qt_env \<Rightarrow> bytes \<Rightarrow> qstring" where
  "surface_plan_digest E bs = to_hex (qt_sha256 E bs)"

definition big_endian :: "bytes \<Rightarrow> 64 word" where
  "big_endian bs = foldl (\<lambda>n b. or (push_bit 8 n) (ucast b)) 0 bs"

definition surface_plan_revision :: "qstring \<Rightarrow> 64 word" where
  "surface_plan_revision digest =
     (let bs = from_hex digest
      in if length bs \<noteq> 32 then 0
         else let revision = big_endian (take 8 bs) in if revision = 0 then 1 else revision)"

definition make_surface_plan_artifact :: "qt_env \<Rightarrow> surface_plan \<Rightarrow> surface_plan_artifact validation_result" where
  "make_surface_plan_artifact E p =
     (let bs = serialize_plan E p; parsed = parse_surface_plan E bs
      in if \<not> vr_ok parsed then vr_reject (vr_errors parsed)
         else let digest = surface_plan_digest E bs
              in vr_accept \<lparr>art_plan = the (vr_value parsed), art_bytes = bs, art_digest = digest,
                   art_revision = surface_plan_revision digest\<rparr>)"

end
