(* ===== verification/Plan_Builder.thy ===== *)
theory Plan_Builder
  imports Plan_Format
begin

text \<open>
  src/src/coordinator/components/component_plan_builder.{h,cpp}: the effective surface plan of
  a catalog snapshot and a configuration snapshot. The \<open>QHash\<close> fields of the snapshots are
  association lists with distinct keys; the list order of the catalog entries is the iteration
  order of the hash, which Qt leaves open, so every theorem holds for every order.
\<close>

section \<open>Snapshots\<close>

record catalog_entry =
  ce_component_id :: qstring
  ce_component_type :: qstring
  ce_package_digest :: qstring
  ce_origin :: qstring
  ce_removable :: bool
  ce_api_version :: qstring
  ce_runtime_kind :: qstring
  ce_factory :: qstring
  ce_entry_point :: qstring
  ce_arguments :: "qstring list"
  ce_declarative_runtime :: bytes
  ce_declarative_document :: "declarative_document option"
  ce_capability_ids :: "qstring list"
  ce_dependency_ids :: "qstring list"

record catalog_snapshot =
  cs_digest :: qstring
  cs_listed_ids :: "qstring list"
  cs_entries :: "(qstring \<times> catalog_entry) list"

record desired_component =
  dc_enabled :: bool
  dc_package_digest :: qstring
  dc_granted_capabilities :: "qstring list"
  dc_settings :: "json qmap"

record desired_instance =
  di_component_id :: qstring
  di_enabled :: bool
  di_settings :: "json qmap"

record desired_bar_layout =
  dl_output_mode :: qstring
  dl_start :: "qstring list"
  dl_center :: "qstring list"
  dl_end :: "qstring list"

record configuration_snapshot =
  cf_catalog_digest :: qstring
  cf_revision :: "64 word"
  cf_components :: "(qstring \<times> desired_component) list"
  cf_instances :: "(qstring \<times> desired_instance) list"
  cf_bar_layouts :: "(qstring \<times> desired_bar_layout) list"

definition current_api_version :: qstring where
  "current_api_version = Q ''1.0''"

definition default_bar_layout_id :: qstring where
  "default_bar_layout_id = Q ''main''"

definition default_maximum_width :: "32 word" where
  "default_maximum_width = 240"

section \<open>Entries the host trusts\<close>

definition is_exact_workspace_entry :: "catalog_entry \<Rightarrow> bool" where
  "is_exact_workspace_entry e \<longleftrightarrow>
     ce_component_id e = workspace_switcher_id
     \<and> ce_component_type e = Q ''bar-widget''
     \<and> is_full_sha256_digest (ce_package_digest e)
     \<and> ce_origin e = Q ''system''
     \<and> \<not> ce_removable e
     \<and> ce_api_version e = current_api_version
     \<and> ce_runtime_kind e = builtin_kind
     \<and> ce_factory e = workspace_switcher_factory
     \<and> ce_entry_point e = [] \<and> ce_arguments e = [] \<and> ce_dependency_ids e = []
     \<and> sort (ce_capability_ids e) = [Q ''shell.workspaces.activate'', Q ''shell.workspaces.read'']"

definition is_exact_declarative_entry :: "qt_env \<Rightarrow> catalog_entry \<Rightarrow> bool" where
  "is_exact_declarative_entry E e \<longleftrightarrow>
     ce_component_type e = Q ''bar-widget''
     \<and> is_full_sha256_digest (ce_package_digest e)
     \<and> ce_origin e = Q ''user''
     \<and> ce_removable e
     \<and> ce_api_version e = current_api_version
     \<and> ce_runtime_kind e = declarative_kind
     \<and> ce_factory e = [] \<and> ce_entry_point e \<noteq> [] \<and> ce_arguments e = []
     \<and> ce_capability_ids e = [] \<and> ce_dependency_ids e = []
     \<and> ce_declarative_runtime e \<noteq> []
     \<and> (case ce_declarative_document e of None \<Rightarrow> False
         | Some d \<Rightarrow> serialize_declarative_document E d = ce_declarative_runtime e)"

definition resolve_declarative_text :: "qt_env \<Rightarrow> catalog_entry \<Rightarrow> desired_component \<Rightarrow> qstring option" where
  "resolve_declarative_text E e dc =
     (case ce_declarative_document e of
        None \<Rightarrow> None
      | Some d \<Rightarrow>
          let source = dd_text d;
              resolved = (if ts_kind source = LiteralText then Some (ts_value source)
                else let v = map_of (dc_settings dc) (ts_value source)
                     in if \<not> is_string v then None else Some (to_string v))
          in (case resolved of
                None \<Rightarrow> None
              | Some t \<Rightarrow> if \<not> is_valid_resolved_text E t then None else Some t))"

section \<open>One placement\<close>

text \<open>
  The body of the innermost loop after the test for a duplicate: an error, nothing for an inert
  placement, or the effective instance.
\<close>

definition effective_instance ::
  "qt_env \<Rightarrow> catalog_snapshot \<Rightarrow> configuration_snapshot \<Rightarrow> qstring \<Rightarrow> qstring \<Rightarrow> qstring \<Rightarrow>
    verror + surface_instance option" where
  "effective_instance E cat conf layout_id path x =
     (case map_of (cf_instances conf) x of
        None \<Rightarrow> Inl (mk_error path ''component-runtime.dangling-instance''
          ''The placement references an unknown instance.'')
      | Some di \<Rightarrow>
          if \<not> di_enabled di then Inr None
          else (case (map_of (cf_components conf) (di_component_id di), map_of (cs_entries cat) (di_component_id di)) of
              (Some dc, Some e) \<Rightarrow>
                if \<not> dc_enabled dc \<or> dc_package_digest dc \<noteq> ce_package_digest e then Inr None
                else
                  let builtin_valid = (di_component_id di = workspace_switcher_id \<and> is_exact_workspace_entry e
                        \<and> dc_granted_capabilities dc = []
                        \<and> is_valid_workspace_switcher_settings (di_settings di));
                      resolved = resolve_declarative_text E e dc;
                      declarative_valid = (is_exact_declarative_entry E e
                        \<and> layout_id = default_bar_layout_id
                        \<and> dc_granted_capabilities dc = [] \<and> di_settings di = []
                        \<and> resolved \<noteq> None)
                  in if \<not> builtin_valid \<and> \<not> declarative_valid then
                       Inl (mk_error (Q ''$.instances.'' @ x) ''component-runtime.invalid-effective-instance''
                         ''The desired trusted instance is invalid.'')
                     else Inr (Some
                       \<lparr>si_component_id = ce_component_id e, si_component_type = ce_component_type e,
                        si_package_digest = ce_package_digest e, si_runtime_kind = ce_runtime_kind e,
                        si_factory = ce_factory e,
                        si_declarative_text = (if declarative_valid then the resolved else []),
                        si_declarative_tooltip =
                          (if declarative_valid then (case ce_declarative_document e of None \<Rightarrow> []
                             | Some d \<Rightarrow> (case dd_tooltip d of None \<Rightarrow> [] | Some t \<Rightarrow> t)) else []),
                        si_maximum_width =
                          (if declarative_valid then (case ce_declarative_document e of None \<Rightarrow> 0
                             | Some d \<Rightarrow> (case dd_maximum_width d of None \<Rightarrow> default_maximum_width | Some w \<Rightarrow> w)) else 0),
                        si_settings = (if builtin_valid then di_settings di else [])\<rparr>)
            | _ \<Rightarrow> Inr None))"

section \<open>The loops\<close>

text \<open>What the loops accumulate: the placed identifiers and the effective instances.\<close>

record build_state =
  bs_placed :: "qstring list"
  bs_instances :: "surface_instance qmap"

fun build_region ::
  "qt_env \<Rightarrow> catalog_snapshot \<Rightarrow> configuration_snapshot \<Rightarrow> qstring \<Rightarrow> string \<Rightarrow> nat \<Rightarrow> qstring list \<Rightarrow>
    build_state \<Rightarrow> verror + qstring list \<times> build_state" where
  "build_region E cat conf layout_id region i [] s = Inr ([], s)"
| "build_region E cat conf layout_id region i (x # xs) s =
     (let path = region_path ''$.layouts.bars.'' layout_id region i
      in if x \<in> set (bs_placed s) then
           Inl (mk_error path ''component-runtime.duplicate-placement''
             ''A visual instance may be placed only once.'')
         else
           let s1 = s\<lparr>bs_placed := x # bs_placed s\<rparr>
           in case effective_instance E cat conf layout_id path x of
               Inl e \<Rightarrow> Inl e
             | Inr None \<Rightarrow> build_region E cat conf layout_id region (Suc i) xs s1
             | Inr (Some inst) \<Rightarrow>
                 (case build_region E cat conf layout_id region (Suc i) xs
                     (s1\<lparr>bs_instances := om_insert x inst (bs_instances s1)\<rparr>) of
                    Inl e \<Rightarrow> Inl e
                  | Inr (ids, s2) \<Rightarrow> Inr (x # ids, s2)))"

definition build_layout ::
  "qt_env \<Rightarrow> catalog_snapshot \<Rightarrow> configuration_snapshot \<Rightarrow> qstring \<Rightarrow> desired_bar_layout \<Rightarrow>
    build_state \<Rightarrow> verror + surface_bar_layout \<times> build_state" where
  "build_layout E cat conf layout_id dl s =
     (if dl_output_mode dl \<noteq> Q ''all'' then
        Inl (mk_error (Q ''$.layouts.bars.'' @ layout_id @ Q ''.outputs.mode'')
          ''component-runtime.unsupported-output-selector'' ''Only the all-output selector is supported.'')
      else case build_region E cat conf layout_id ''start'' 0 (dl_start dl) s of
          Inl e \<Rightarrow> Inl e
        | Inr (start_ids, s1) \<Rightarrow>
            (case build_region E cat conf layout_id ''center'' 0 (dl_center dl) s1 of
               Inl e \<Rightarrow> Inl e
             | Inr (center_ids, s2) \<Rightarrow>
                 (case build_region E cat conf layout_id ''end'' 0 (dl_end dl) s2 of
                    Inl e \<Rightarrow> Inl e
                  | Inr (end_ids, s3) \<Rightarrow> Inr (\<lparr>bl_output_mode = dl_output_mode dl, bl_start = start_ids,
                      bl_center = center_ids, bl_end = end_ids\<rparr>, s3))))"

fun build_layouts ::
  "qt_env \<Rightarrow> catalog_snapshot \<Rightarrow> configuration_snapshot \<Rightarrow> qstring list \<Rightarrow>
    build_state \<Rightarrow> surface_bar_layout qmap \<Rightarrow> verror + surface_bar_layout qmap \<times> build_state" where
  "build_layouts E cat conf [] s bars = Inr (bars, s)"
| "build_layouts E cat conf (k # ks) s bars =
     (case build_layout E cat conf k (the (map_of (cf_bar_layouts conf) k)) s of
        Inl e \<Rightarrow> Inl e
      | Inr (l, s1) \<Rightarrow> build_layouts E cat conf ks s1 (om_insert k l bars))"

section \<open>The checks of the snapshots\<close>

fun check_listed_ids :: "qstring list \<Rightarrow> nat \<Rightarrow> qstring list \<Rightarrow> verror option" where
  "check_listed_ids seen i [] = None"
| "check_listed_ids seen i (x # xs) =
     (if \<not> is_valid_component_id x \<or> x \<in> set seen then
        Some (mk_error (Q ''$.catalog.componentIds['' @ qnumber i @ Q '']'')
          ''component-runtime.invalid-catalog-id-set'' ''The catalog ID set contains an invalid or duplicate ID.'')
      else check_listed_ids (x # seen) (Suc i) xs)"

fun check_entries :: "qstring list \<Rightarrow> (qstring \<times> catalog_entry) list \<Rightarrow> verror option" where
  "check_entries listed [] = None"
| "check_entries listed ((k, e) # es) =
     (if k \<notin> set listed \<or> ce_component_id e \<noteq> k then
        Some (mk_error (Q ''$.catalog.'' @ k) ''component-runtime.incomplete-catalog''
          ''A hydrated catalog entry does not match its listed ID.'')
      else check_entries listed es)"

definition check_snapshots :: "catalog_snapshot \<Rightarrow> configuration_snapshot \<Rightarrow> verror option" where
  "check_snapshots cat conf =
     (if \<not> is_full_sha256_digest (cs_digest cat) then
        Some (mk_error (Q ''$.catalogDigest'') ''component-runtime.invalid-catalog-digest''
          ''The catalog digest is invalid.'')
      else if cf_catalog_digest conf \<noteq> cs_digest cat then
        Some (mk_error (Q ''$.catalogDigest'') ''component-runtime.catalog-mismatch''
          ''The component configuration was validated against another catalog.'')
      else case check_listed_ids [] 0 (cs_listed_ids cat) of
          Some e \<Rightarrow> Some e
        | None \<Rightarrow>
            if length (cs_listed_ids cat) \<noteq> length (cs_entries cat) then
              Some (mk_error (Q ''$.catalog'') ''component-runtime.incomplete-catalog''
                ''The hydrated catalog entries do not match the listed ID set.'')
            else case check_entries (cs_listed_ids cat) (cs_entries cat) of
                Some e \<Rightarrow> Some e
              | None \<Rightarrow>
                  if (case map_of (cs_entries cat) workspace_switcher_id of
                        None \<Rightarrow> True | Some e \<Rightarrow> \<not> is_exact_workspace_entry e) then
                    Some (mk_error (Q ''$.catalog.'' @ workspace_switcher_id)
                      ''component-runtime.invalid-builtin-factory''
                      ''The protected workspace factory declaration is missing or invalid.'')
                  else if maximum_plan_instances < length (cf_instances conf)
                      \<or> maximum_plan_bar_layouts < length (cf_bar_layouts conf) then
                    Some (mk_error (Q ''$'') ''component-runtime.plan-limit''
                      ''The desired visual configuration exceeds the runtime limits.'')
                  else None)"

definition build_surface_plan ::
  "qt_env \<Rightarrow> catalog_snapshot \<Rightarrow> configuration_snapshot \<Rightarrow> surface_plan validation_result" where
  "build_surface_plan E cat conf =
     (case check_snapshots cat conf of
        Some e \<Rightarrow> vr_reject [e]
      | None \<Rightarrow>
          (case build_layouts E cat conf (sort (map fst (cf_bar_layouts conf)))
              \<lparr>bs_placed = [], bs_instances = []\<rparr> [] of
             Inl e \<Rightarrow> vr_reject [e]
           | Inr (bars, s) \<Rightarrow> vr_accept \<lparr>sp_catalog_digest = cs_digest cat,
               sp_configuration_revision = cf_revision conf,
               sp_instances = bs_instances s, sp_bar_layouts = bars\<rparr>))"

section \<open>What the builder lets through\<close>

text \<open>
  An effective instance is backed by an enabled desired instance of an enabled component whose
  recorded digest is the one in the catalog, without granted capabilities, and its entry is the
  protected workspace switcher or an exact declarative package.
\<close>

definition backed ::
  "qt_env \<Rightarrow> catalog_snapshot \<Rightarrow> configuration_snapshot \<Rightarrow> qstring \<Rightarrow> surface_instance \<Rightarrow> bool" where
  "backed E cat conf x i \<longleftrightarrow>
     (case map_of (cf_instances conf) x of
        None \<Rightarrow> False
      | Some di \<Rightarrow> di_enabled di \<and>
          (case (map_of (cf_components conf) (di_component_id di), map_of (cs_entries cat) (di_component_id di)) of
             (Some dc, Some e) \<Rightarrow> dc_enabled dc \<and> dc_package_digest dc = ce_package_digest e
               \<and> dc_granted_capabilities dc = []
               \<and> si_component_id i = ce_component_id e \<and> si_package_digest i = ce_package_digest e
               \<and> (is_exact_workspace_entry e \<and> si_runtime_kind i = builtin_kind
                    \<and> si_settings i = di_settings di \<and> is_valid_workspace_switcher_settings (di_settings di)
                  \<or> is_exact_declarative_entry E e \<and> si_runtime_kind i = declarative_kind
                    \<and> si_settings i = [] \<and> is_valid_resolved_text E (si_declarative_text i))
           | _ \<Rightarrow> False))"

text \<open>The fields that the serialiser drops are empty.\<close>

definition canonical_instance :: "surface_instance \<Rightarrow> bool" where
  "canonical_instance i \<longleftrightarrow>
     (if si_runtime_kind i = builtin_kind
      then si_declarative_text i = [] \<and> si_declarative_tooltip i = [] \<and> si_maximum_width i = 0
      else si_factory i = [])"

lemma exact_kinds_differ: "is_exact_workspace_entry e \<Longrightarrow> \<not> is_exact_declarative_entry E e"
  by (simp add: is_exact_workspace_entry_def is_exact_declarative_entry_def)

lemma resolve_declarative_text_valid:
  "resolve_declarative_text E e dc = Some t \<Longrightarrow> is_valid_resolved_text E t"
  by (auto simp: resolve_declarative_text_def Let_def split: option.splits if_splits)

lemma effective_instance_backed:
  assumes "effective_instance E cat conf lid path x = Inr (Some i)"
  shows "backed E cat conf x i \<and> canonical_instance i"
proof -
  from assms obtain di where di: "map_of (cf_instances conf) x = Some di" "di_enabled di"
    by (auto simp: effective_instance_def split: option.splits if_splits)
  with assms obtain dc e where dc: "map_of (cf_components conf) (di_component_id di) = Some dc"
    and e: "map_of (cs_entries cat) (di_component_id di) = Some e"
    by (auto simp: effective_instance_def split: option.splits)
  define bv where "bv \<longleftrightarrow> di_component_id di = workspace_switcher_id \<and> is_exact_workspace_entry e
    \<and> dc_granted_capabilities dc = [] \<and> is_valid_workspace_switcher_settings (di_settings di)"
  define dv where "dv \<longleftrightarrow> is_exact_declarative_entry E e \<and> lid = default_bar_layout_id
    \<and> dc_granted_capabilities dc = [] \<and> di_settings di = [] \<and> resolve_declarative_text E e dc \<noteq> None"
  have eq: "effective_instance E cat conf lid path x =
      (if \<not> dc_enabled dc \<or> dc_package_digest dc \<noteq> ce_package_digest e then Inr None
       else if \<not> bv \<and> \<not> dv then Inl (mk_error (Q ''$.instances.'' @ x)
         ''component-runtime.invalid-effective-instance'' ''The desired trusted instance is invalid.'')
       else Inr (Some \<lparr>si_component_id = ce_component_id e, si_component_type = ce_component_type e,
         si_package_digest = ce_package_digest e, si_runtime_kind = ce_runtime_kind e, si_factory = ce_factory e,
         si_declarative_text = (if dv then the (resolve_declarative_text E e dc) else []),
         si_declarative_tooltip = (if dv then (case ce_declarative_document e of None \<Rightarrow> []
           | Some d \<Rightarrow> (case dd_tooltip d of None \<Rightarrow> [] | Some t \<Rightarrow> t)) else []),
         si_maximum_width = (if dv then (case ce_declarative_document e of None \<Rightarrow> 0
           | Some d \<Rightarrow> (case dd_maximum_width d of None \<Rightarrow> default_maximum_width | Some w \<Rightarrow> w)) else 0),
         si_settings = (if bv then di_settings di else [])\<rparr>))"
    unfolding effective_instance_def Let_def bv_def dv_def by (simp only: di dc e option.case prod.case simp_thms if_False)
  have i: "dc_enabled dc" "dc_package_digest dc = ce_package_digest e" "bv \<or> dv"
    "si_component_id i = ce_component_id e" "si_package_digest i = ce_package_digest e"
    "si_runtime_kind i = ce_runtime_kind e" "si_factory i = ce_factory e"
    "si_settings i = (if bv then di_settings di else [])"
    "si_declarative_text i = (if dv then the (resolve_declarative_text E e dc) else [])"
    "\<not> dv \<Longrightarrow> si_declarative_tooltip i = [] \<and> si_maximum_width i = 0"
    using eq [unfolded assms] by (auto split: if_splits)
  have excl: "bv \<Longrightarrow> \<not> dv" using exact_kinds_differ by (auto simp: bv_def dv_def)
  show ?thesis
  proof (cases bv)
    case True
    with i excl di dc e show ?thesis
      by (simp add: backed_def canonical_instance_def bv_def is_exact_workspace_entry_def)
  next
    case False
    with i have dv by blast
    then have "is_valid_resolved_text E (the (resolve_declarative_text E e dc))"
      using resolve_declarative_text_valid by (auto simp: dv_def)
    with i False \<open>dv\<close> di dc e show ?thesis
      by (simp add: backed_def canonical_instance_def dv_def is_exact_declarative_entry_def)
  qed
qed

definition build_inv :: "qt_env \<Rightarrow> catalog_snapshot \<Rightarrow> configuration_snapshot \<Rightarrow> build_state \<Rightarrow> bool" where
  "build_inv E cat conf s \<longleftrightarrow> om_inv (bs_instances s) \<and> fst ` set (bs_instances s) \<subseteq> set (bs_placed s)
     \<and> list_all (\<lambda>e. backed E cat conf (fst e) (snd e) \<and> canonical_instance (snd e)) (bs_instances s)"

text \<open>One stretch of the loops: it places \<open>ids\<close>, all new and distinct.\<close>

definition extends :: "build_state \<Rightarrow> qstring list \<Rightarrow> build_state \<Rightarrow> bool" where
  "extends s ids s' \<longleftrightarrow> distinct ids \<and> set ids \<inter> set (bs_placed s) = {}
     \<and> set (bs_placed s) \<union> set ids \<subseteq> set (bs_placed s')
     \<and> fst ` set (bs_instances s') = fst ` set (bs_instances s) \<union> set ids"

lemma extends_trans:
  assumes "extends s a s1" "extends s1 b s2"
  shows "extends s (a @ b) s2"
proof -
  have "set a \<inter> set b = {}" "set b \<inter> set (bs_placed s) = {}"
    using assms unfolding extends_def by blast+
  then show ?thesis using assms unfolding extends_def by auto
qed

lemma build_region_extends:
  "build_region E cat conf lid r i xs s = Inr (ids, s') \<Longrightarrow> build_inv E cat conf s \<Longrightarrow>
   build_inv E cat conf s' \<and> extends s ids s' \<and> set ids \<subseteq> set xs"
proof (induction xs arbitrary: i s ids)
  case Nil
  then show ?case by (simp add: extends_def)
next
  case (Cons x xs)
  let ?s1 = "s\<lparr>bs_placed := x # bs_placed s\<rparr>"
  let ?path = "region_path ''$.layouts.bars.'' lid r i"
  have new: "x \<notin> set (bs_placed s)" using Cons.prems(1) by (auto simp: Let_def split: if_splits)
  have inv1: "build_inv E cat conf ?s1" using Cons.prems(2) by (auto simp: build_inv_def)
  obtain o1 where o1: "effective_instance E cat conf lid ?path x = Inr o1"
    using Cons.prems(1) new by (auto simp: Let_def split: sum.splits)
  show ?case
  proof (cases o1)
    case None
    with Cons.prems(1) new o1 have "build_region E cat conf lid r (Suc i) xs ?s1 = Inr (ids, s')"
      by (simp add: Let_def)
    from Cons.IH [OF this inv1] show ?thesis by (auto simp: extends_def)
  next
    case (Some inst)
    let ?s2 = "?s1\<lparr>bs_instances := om_insert x inst (bs_instances s)\<rparr>"
    from Some Cons.prems(1) new o1 obtain ids2 where
      rest: "build_region E cat conf lid r (Suc i) xs ?s2 = Inr (ids2, s')" and ids: "ids = x # ids2"
      by (auto simp: Let_def split: sum.splits)
    have ok: "backed E cat conf x inst \<and> canonical_instance inst"
      using effective_instance_backed o1 Some by blast
    have "build_inv E cat conf ?s2"
      using Cons.prems(2) ok by (auto simp: build_inv_def om_insert_keys list_all_om_insert simp del: image_iff)
    from Cons.IH [OF rest this] new show ?thesis
      by (auto simp: extends_def ids om_insert_keys simp del: image_iff)
  qed
qed

lemma build_layout_extends:
  assumes "build_layout E cat conf lid dl s = Inr (l, s')" "build_inv E cat conf s"
  shows "build_inv E cat conf s' \<and> extends s (layout_ids l) s' \<and> bl_output_mode l = Q ''all''"
proof -
  from assms(1) obtain a s1 b s2 c where
    r: "build_region E cat conf lid ''start'' 0 (dl_start dl) s = Inr (a, s1)"
      "build_region E cat conf lid ''center'' 0 (dl_center dl) s1 = Inr (b, s2)"
      "build_region E cat conf lid ''end'' 0 (dl_end dl) s2 = Inr (c, s')"
    and l: "l = \<lparr>bl_output_mode = Q ''all'', bl_start = a, bl_center = b, bl_end = c\<rparr>"
    by (auto simp: build_layout_def split: if_splits sum.splits)
  note 1 = build_region_extends [OF r(1) assms(2)]
  note 2 = build_region_extends [OF r(2)]
  note 3 = build_region_extends [OF r(3)]
  show ?thesis using 1 2 3 extends_trans by (simp add: l layout_ids_def) blast
qed

lemma build_layouts_extends:
  assumes "build_layouts E cat conf ks s bars = Inr (bars', s')" "build_inv E cat conf s"
    and "sorted_wrt (<) (om_keys bars @ ks)"
  shows "\<exists>new. bars' = bars @ new \<and> om_keys new = ks \<and> build_inv E cat conf s'
    \<and> extends s (concat (map (\<lambda>e. layout_ids (snd e)) new)) s'
    \<and> list_all (\<lambda>e. bl_output_mode (snd e) = Q ''all'') new"
  using assms
proof (induction ks arbitrary: s bars)
  case Nil
  then show ?case by (simp add: extends_def build_inv_def)
next
  case (Cons k ks)
  obtain l s1 where l: "build_layout E cat conf k (the (map_of (cf_bar_layouts conf) k)) s = Inr (l, s1)"
    and rest: "build_layouts E cat conf ks s1 (om_insert k l bars) = Inr (bars', s')"
    using Cons.prems(1) by (auto split: sum.splits)
  note step = build_layout_extends [OF l Cons.prems(2)]
  have "om_insert k l bars = bars @ [(k, l)]"
    using Cons.prems(3) by (intro om_insert_last) (auto simp: sorted_wrt_append)
  with Cons.IH [of s1 "bars @ [(k, l)]"] rest step Cons.prems(3) obtain new where
    new: "bars' = (bars @ [(k, l)]) @ new" "om_keys new = ks" "build_inv E cat conf s'"
      "extends s1 (concat (map (\<lambda>e. layout_ids (snd e)) new)) s'"
      "list_all (\<lambda>e. bl_output_mode (snd e) = Q ''all'') new" by auto
  show ?case
    using new step extends_trans [of s "layout_ids l" s1 _ s']
    by (intro exI [of _ "(k, l) # new"]) auto
qed

lemma build_surface_plan_ok:
  assumes b: "build_surface_plan E cat conf = vr_accept p"
    and d: "distinct (map fst (cf_bar_layouts conf))"
  shows "placement_ok p" "om_inv (sp_instances p)" "om_inv (sp_bar_layouts p)"
    "list_all (\<lambda>e. backed E cat conf (fst e) (snd e) \<and> canonical_instance (snd e)) (sp_instances p)"
    "check_snapshots cat conf = None"
proof -
  let ?s0 = "\<lparr>bs_placed = [], bs_instances = []\<rparr>"
  from b obtain bars s where bars: "build_layouts E cat conf (sort (map fst (cf_bar_layouts conf))) ?s0 [] = Inr (bars, s)"
    and p: "sp_instances p = bs_instances s" "sp_bar_layouts p = bars" and c: "check_snapshots cat conf = None"
    by (auto simp: build_surface_plan_def split: option.splits sum.splits)
  have sorted: "sorted_wrt (<) (sort (map fst (cf_bar_layouts conf)))"
    using d by (simp add: strict_sorted_iff)
  have "build_inv E cat conf ?s0" by (simp add: build_inv_def)
  with build_layouts_extends [OF bars] sorted have *: "om_keys bars = sort (map fst (cf_bar_layouts conf))"
    "build_inv E cat conf s" "extends ?s0 (concat (map (\<lambda>e. layout_ids (snd e)) bars)) s" by auto
  show "placement_ok p" "om_inv (sp_instances p)" "om_inv (sp_bar_layouts p)"
    "list_all (\<lambda>e. backed E cat conf (fst e) (snd e) \<and> canonical_instance (snd e)) (sp_instances p)"
    using * sorted by (auto simp: p placement_ok_def placed_ids_def extends_def build_inv_def om_inv_def)
  show "check_snapshots cat conf = None" by (rule c)
qed

section \<open>The layouts are the desired ones without their inert placements\<close>

definition wanted :: "catalog_snapshot \<Rightarrow> configuration_snapshot \<Rightarrow> qstring \<Rightarrow> bool" where
  "wanted cat conf x \<longleftrightarrow>
     (case map_of (cf_instances conf) x of
        None \<Rightarrow> False
      | Some di \<Rightarrow> di_enabled di \<and>
          (case (map_of (cf_components conf) (di_component_id di), map_of (cs_entries cat) (di_component_id di)) of
             (Some dc, Some e) \<Rightarrow> dc_enabled dc \<and> dc_package_digest dc = ce_package_digest e
           | _ \<Rightarrow> False))"

definition effective_layout :: "catalog_snapshot \<Rightarrow> configuration_snapshot \<Rightarrow> desired_bar_layout \<Rightarrow> surface_bar_layout" where
  "effective_layout cat conf dl = \<lparr>bl_output_mode = Q ''all'', bl_start = filter (wanted cat conf) (dl_start dl),
     bl_center = filter (wanted cat conf) (dl_center dl), bl_end = filter (wanted cat conf) (dl_end dl)\<rparr>"

lemma effective_instance_wanted:
  "effective_instance E cat conf lid path x = Inr o1 \<Longrightarrow> wanted cat conf x \<longleftrightarrow> o1 \<noteq> None"
  by (auto simp: effective_instance_def wanted_def Let_def split: option.splits if_splits)

lemma build_region_filter:
  "build_region E cat conf lid r i xs s = Inr (ids, s') \<Longrightarrow> ids = filter (wanted cat conf) xs"
proof (induction xs arbitrary: i s ids)
  case (Cons x xs)
  then obtain o1 where o1: "effective_instance E cat conf lid (region_path ''$.layouts.bars.'' lid r i) x = Inr o1"
    by (auto simp: Let_def split: sum.splits if_splits)
  with Cons effective_instance_wanted [OF o1] show ?case
    by (cases o1) (auto simp: Let_def split: sum.splits if_splits)
qed simp

lemma build_layout_filter:
  "build_layout E cat conf lid dl s = Inr (l, s') \<Longrightarrow> l = effective_layout cat conf dl"
  by (auto simp: build_layout_def effective_layout_def dest!: build_region_filter split: if_splits sum.splits)

lemma build_layouts_filter:
  "build_layouts E cat conf ks s bars = Inr (bars', s') \<Longrightarrow> sorted_wrt (<) (om_keys bars @ ks) \<Longrightarrow>
   bars' = bars @ map (\<lambda>k. (k, effective_layout cat conf (the (map_of (cf_bar_layouts conf) k)))) ks"
proof (induction ks arbitrary: s bars)
  case (Cons k ks)
  then obtain l s1 where l: "build_layout E cat conf k (the (map_of (cf_bar_layouts conf) k)) s = Inr (l, s1)"
    and rest: "build_layouts E cat conf ks s1 (om_insert k l bars) = Inr (bars', s')"
    by (auto split: sum.splits)
  have "om_insert k l bars = bars @ [(k, l)]"
    using Cons.prems(2) by (intro om_insert_last) (auto simp: sorted_wrt_append)
  with Cons.IH [of s1 "bars @ [(k, l)]"] rest Cons.prems(2) build_layout_filter [OF l] show ?case by simp
qed simp

end
