(* ===== verification/Plan_Controller.thy ===== *)
theory Plan_Controller
  imports Plan_Builder Durable_Store
begin

text \<open>
  src/src/coordinator/components/component_plan_controller.{h,cpp}: the state machine that
  publishes the surface plan and decides which third-party packages run. One definition per
  member function; the file system under the health store is part of the state, the probation
  timer is the flag that says whether it runs, and emitted signals are recorded in order. The
  error out-parameter of a handler is a component of its result.
\<close>

section \<open>State\<close>

datatype plan_state = Hydrating | Authoritative | Retained | Unavailable

datatype plan_signal = RuntimeChanged | RuntimeHealthChanged

record controller =
  pc_state :: plan_state
  pc_artifact :: "surface_plan_artifact option"
  pc_catalog :: "catalog_snapshot option"
  pc_configuration :: "configuration_snapshot option"
  pc_store :: "(health_paths \<times> fault_injector) option"
  pc_fs :: fs
  pc_health :: health_state
  pc_probation :: bool
  pc_health_initialized :: bool
  pc_last_error :: qstring
  pc_signals :: "plan_signal list"

text \<open>The constructors: without a store the health state is initialised and empty.\<close>

definition new_controller :: "(health_paths \<times> fault_injector) option \<Rightarrow> fs \<Rightarrow> controller" where
  "new_controller store d =
     \<lparr>pc_state = Hydrating, pc_artifact = None, pc_catalog = None, pc_configuration = None,
      pc_store = store, pc_fs = d, pc_health = empty_health, pc_probation = False,
      pc_health_initialized = (store = None), pc_last_error = [], pc_signals = []\<rparr>"

definition emit_signal :: "plan_signal \<Rightarrow> controller \<Rightarrow> controller" where
  "emit_signal x c = c\<lparr>pc_signals := pc_signals c @ [x]\<rparr>"

section \<open>Accessors\<close>

fun state_name :: "plan_state \<Rightarrow> qstring" where
  "state_name Hydrating = Q ''hydrating''"
| "state_name Authoritative = Q ''authoritative''"
| "state_name Retained = Q ''retained''"
| "state_name Unavailable = Q ''unavailable''"

definition plan_revision :: "controller \<Rightarrow> 64 word" where
  "plan_revision c = (case pc_artifact c of None \<Rightarrow> 0 | Some a \<Rightarrow> art_revision a)"

definition plan_digest :: "controller \<Rightarrow> qstring" where
  "plan_digest c = (case pc_artifact c of None \<Rightarrow> [] | Some a \<Rightarrow> art_digest a)"

definition third_party_safe_mode :: "controller \<Rightarrow> bool" where
  "third_party_safe_mode c \<longleftrightarrow> hs_safe_mode (pc_health c) \<or> \<not> pc_health_initialized c"

text \<open>The pending activations that no record represents, once per package.\<close>

fun probation_records :: "qstring list \<Rightarrow> pending_activation list \<Rightarrow> health_record list" where
  "probation_records seen [] = []"
| "probation_records seen (a # as) =
     (let key = record_key (pa_component_id a) (pa_package_digest a)
      in if key \<in> set seen then probation_records seen as
         else \<lparr>hr_component_id = pa_component_id a, hr_package_digest = pa_package_digest a,
                hr_state = Q ''probation'', hr_reason = [], hr_failure_count = 0\<rparr>
              # probation_records (key # seen) as)"

definition runtime_health_records :: "controller \<Rightarrow> health_record list" where
  "runtime_health_records c =
     (let records = om_values (hs_records (pc_health c));
          represented = map (\<lambda>r. record_key (hr_component_id r) (hr_package_digest r)) records
      in sort_key (\<lambda>r. [hr_component_id r, hr_package_digest r])
           (records @ probation_records represented (om_values (hs_pending (pc_health c)))))"

section \<open>Helpers of the file\<close>

definition join_with :: "qstring \<Rightarrow> qstring list \<Rightarrow> qstring" where
  "join_with sep xs = (case xs of [] \<Rightarrow> [] | x # r \<Rightarrow> x @ concat (map (\<lambda>y. sep @ y) r))"

definition describe_errors :: "verror list \<Rightarrow> qstring" where
  "describe_errors es = join_with (Q ''; '')
     (map (\<lambda>e. ve_path e @ Q '' ['' @ ve_code e @ Q '']: '' @ ve_message e) es)"

definition filter_layout :: "qstring list \<Rightarrow> surface_bar_layout \<Rightarrow> surface_bar_layout" where
  "filter_layout removed l =
     l\<lparr>bl_start := filter (\<lambda>x. x \<notin> set removed) (bl_start l),
       bl_center := filter (\<lambda>x. x \<notin> set removed) (bl_center l),
       bl_end := filter (\<lambda>x. x \<notin> set removed) (bl_end l)\<rparr>"

definition remove_instances :: "surface_plan \<Rightarrow> qstring list \<Rightarrow> surface_plan" where
  "remove_instances p removed =
     (if removed = [] then p
      else p\<lparr>sp_instances := fold om_remove removed (sp_instances p),
             sp_bar_layouts := map (\<lambda>(k, l). (k, filter_layout removed l)) (sp_bar_layouts p)\<rparr>)"

definition strip_third_party :: "surface_plan \<Rightarrow> surface_plan" where
  "strip_third_party p = remove_instances p
     (map fst (filter (\<lambda>(k, i). si_runtime_kind i \<noteq> builtin_kind) (sp_instances p)))"

definition is_quarantined :: "health_state \<Rightarrow> qstring \<Rightarrow> qstring \<Rightarrow> bool" where
  "is_quarantined h component_id package_digest \<longleftrightarrow>
     (case map_of (hs_records h) (record_key component_id package_digest) of
        None \<Rightarrow> False | Some r \<Rightarrow> hr_state r = Q ''quarantined'')"

definition filter_quarantined :: "health_state \<Rightarrow> surface_plan \<Rightarrow> surface_plan" where
  "filter_quarantined h p = remove_instances p
     (map fst (filter (\<lambda>(k, i). si_runtime_kind i \<noteq> builtin_kind
        \<and> is_quarantined h (si_component_id i) (si_package_digest i)) (sp_instances p)))"

section \<open>Health\<close>

definition fail_safe :: "controller \<Rightarrow> controller" where
  "fail_safe c = emit_signal RuntimeHealthChanged
     (c\<lparr>pc_health := (pc_health c)\<lparr>hs_safe_mode := True\<rparr>, pc_probation := False\<rparr>)"

definition commit_health :: "qt_env \<Rightarrow> health_state \<Rightarrow> controller \<Rightarrow> bool \<times> qstring \<times> controller" where
  "commit_health E next_health c =
     (if hs_revision (pc_health c) = - 1
         \<or> 512 < length (hs_records next_health) \<or> 512 < length (hs_pending next_health)
         \<or> 512 < length (package_states next_health) then
        (False, Q ''Runtime health storage bounds are exhausted'', fail_safe c)
      else
        let numbered = next_health\<lparr>hs_revision := hs_revision (pc_health c) + 1\<rparr>
        in case pc_store c of
            None \<Rightarrow> (True, [], emit_signal RuntimeHealthChanged (c\<lparr>pc_health := numbered\<rparr>))
          | Some (P, inject) \<Rightarrow>
              let (r, d) = persist E P inject numbered (pc_fs c); c1 = c\<lparr>pc_fs := d\<rparr>
              in if \<not> durable r then (False, pr_error r, fail_safe c1)
                 else (True, [], emit_signal RuntimeHealthChanged (c1\<lparr>pc_health := numbered\<rparr>)))"

text \<open>The record of a package after one more failure; the count wraps at 32 bits to one.\<close>

definition quarantine_record :: "health_state \<Rightarrow> qstring \<Rightarrow> qstring \<Rightarrow> qstring \<Rightarrow> health_record" where
  "quarantine_record h component_id package_digest reason =
     (let previous = (case map_of (hs_records h) (record_key component_id package_digest) of
            None \<Rightarrow> 0 | Some r \<Rightarrow> hr_failure_count r)
      in \<lparr>hr_component_id = component_id, hr_package_digest = package_digest,
          hr_state = Q ''quarantined'', hr_reason = reason, hr_failure_count = max 1 (previous + 1)\<rparr>)"

definition quarantine :: "qstring \<Rightarrow> qstring \<Rightarrow> qstring \<Rightarrow> health_state \<Rightarrow> health_state" where
  "quarantine component_id package_digest reason h =
     h\<lparr>hs_records := om_insert (record_key component_id package_digest)
       (quarantine_record h component_id package_digest reason) (hs_records h)\<rparr>"

text \<open>Every pending activation is quarantined, in the order of the instance identifiers.\<close>

definition quarantine_all :: "qstring \<Rightarrow> health_state \<Rightarrow> health_state" where
  "quarantine_all reason h =
     (fold (\<lambda>a. quarantine (pa_component_id a) (pa_package_digest a) reason) (om_values (hs_pending h)) h)
       \<lparr>hs_pending := []\<rparr>"

definition initialize_runtime_health :: "qt_env \<Rightarrow> controller \<Rightarrow> bool \<times> qstring \<times> controller" where
  "initialize_runtime_health E c =
     (if pc_health_initialized c then (True, [], c)
      else case pc_store c of
          None \<Rightarrow> (True, [], c)
        | Some (P, inject) \<Rightarrow>
            let (loaded, d) = load E P (pc_fs c);
                c1 = c\<lparr>pc_fs := d, pc_health := lr_state loaded, pc_health_initialized := True\<rparr>
            in if \<not> lr_success loaded then
                 (False, lr_error loaded, emit_signal RuntimeHealthChanged
                   (c1\<lparr>pc_health := (pc_health c1)\<lparr>hs_safe_mode := True\<rparr>\<rparr>))
               else if hs_pending (pc_health c1) \<noteq> [] then
                 (case commit_health E (quarantine_all (Q ''incomplete-startup'') (pc_health c1)) c1 of
                    (ok, e, c2) \<Rightarrow> if ok then (True, [], c2) else (False, e, c2))
               else (True, [], emit_signal RuntimeHealthChanged c1))"

text \<open>The pending activations that the plan still shows, unless another plan replaces it.\<close>

definition matches_pending :: "surface_plan \<Rightarrow> qstring \<Rightarrow> pending_activation \<Rightarrow> bool" where
  "matches_pending p x a \<longleftrightarrow>
     (case map_of (sp_instances p) x of
        None \<Rightarrow> False
      | Some i \<Rightarrow> si_runtime_kind i = declarative_kind \<and> si_component_id i = pa_component_id a
          \<and> si_package_digest i = pa_package_digest a)"

definition remaining_pending :: "surface_plan \<Rightarrow> controller \<Rightarrow> pending_activation qmap" where
  "remaining_pending p c =
     filter (\<lambda>(x, a). matches_pending p x a)
       (if (case pc_artifact c of None \<Rightarrow> False | Some a \<Rightarrow> art_plan a \<noteq> p) then []
        else hs_pending (pc_health c))"

definition prepare_pending :: "qt_env \<Rightarrow> surface_plan \<Rightarrow> controller \<Rightarrow> bool \<times> qstring \<times> controller" where
  "prepare_pending E p c =
     (let next_health = (pc_health c)\<lparr>hs_pending := remaining_pending p c\<rparr>
      in if next_health = pc_health c then
           (True, [], c\<lparr>pc_probation := hs_pending (pc_health c) \<noteq> []\<rparr>)
         else case commit_health E next_health c of (ok, e, c1) \<Rightarrow>
           if \<not> ok then (False, e, c1\<lparr>pc_probation := False\<rparr>)
           else (True, [], c1\<lparr>pc_probation := hs_pending (pc_health c1) \<noteq> []\<rparr>))"

section \<open>Publishing\<close>

text \<open>The plan after the filters at the start of \<open>publishPlan\<close>.\<close>

definition shown_plan :: "bool \<Rightarrow> controller \<Rightarrow> surface_plan \<Rightarrow> surface_plan" where
  "shown_plan allow_third_party c p =
     (if \<not> allow_third_party \<or> third_party_safe_mode c then strip_third_party p
      else filter_quarantined (pc_health c) p)"

text \<open>
  The second half of \<open>publishPlan\<close>: the description of the errors of the artifact, or the
  result of the publication.
\<close>

definition publish_artifact ::
  "qt_env \<Rightarrow> surface_plan \<Rightarrow> plan_state \<Rightarrow> qstring \<Rightarrow> qstring \<Rightarrow> controller \<Rightarrow>
    (qstring \<times> controller) + (bool \<times> controller)" where
  "publish_artifact E p st err health_error c =
     (let made = make_surface_plan_artifact E p
      in if \<not> vr_ok made then Inl (describe_errors (vr_errors made), c)
         else
           let art = the (vr_value made);
               changed = ((case pc_artifact c of None \<Rightarrow> True | Some a \<Rightarrow> art_digest a \<noteq> art_digest art)
                 \<or> pc_state c \<noteq> st \<or> pc_last_error c \<noteq> err);
               c1 = c\<lparr>pc_artifact := Some art, pc_state := st,
                 pc_last_error := (if health_error \<noteq> [] then health_error else err)\<rparr>
           in Inr (health_error = [],
                if changed \<or> health_error \<noteq> [] then emit_signal RuntimeChanged c1 else c1))"

definition publish_core ::
  "qt_env \<Rightarrow> surface_plan \<Rightarrow> plan_state \<Rightarrow> bool \<Rightarrow> qstring \<Rightarrow> controller \<Rightarrow>
    (qstring \<times> controller) + (bool \<times> controller)" where
  "publish_core E p st allow_third_party err c =
     (let p1 = shown_plan allow_third_party c p
      in case prepare_pending E p1 c of (ready, health_error, c1) \<Rightarrow>
           publish_artifact E (if ready then p1 else strip_third_party p1) st err health_error c1)"

definition set_failed_state :: "qt_env \<Rightarrow> qstring \<Rightarrow> controller \<Rightarrow> controller" where
  "set_failed_state E err c =
     (case pc_artifact c of
        Some a \<Rightarrow> (case publish_core E (art_plan a) Retained False err c of
            Inl (e, c1) \<Rightarrow> c1 | Inr (ok, c1) \<Rightarrow> c1)
      | None \<Rightarrow>
          (case prepare_pending E empty_plan c of (ready, health_error, c1) \<Rightarrow>
             let changed = (pc_state c1 \<noteq> Unavailable \<or> pc_last_error c1 \<noteq> err);
                 c2 = c1\<lparr>pc_state := Unavailable,
                   pc_last_error := (if health_error \<noteq> [] then health_error else err)\<rparr>
             in if changed \<or> health_error \<noteq> [] then emit_signal RuntimeChanged c2 else c2))"

definition publish_plan ::
  "qt_env \<Rightarrow> surface_plan \<Rightarrow> plan_state \<Rightarrow> bool \<Rightarrow> qstring \<Rightarrow> controller \<Rightarrow> bool \<times> controller" where
  "publish_plan E p st allow_third_party err c =
     (case publish_core E p st allow_third_party err c of
        Inr r \<Rightarrow> r
      | Inl (e, c1) \<Rightarrow> (False, if st = Authoritative then set_failed_state E e c1 else c1))"

definition rebuild_authoritative_plan :: "qt_env \<Rightarrow> controller \<Rightarrow> controller" where
  "rebuild_authoritative_plan E c =
     (case (pc_catalog c, pc_configuration c) of
        (Some cat, Some conf) \<Rightarrow>
          let built = build_surface_plan E cat conf
          in if \<not> vr_ok built then set_failed_state E (describe_errors (vr_errors built)) c
             else snd (publish_plan E (the (vr_value built)) Authoritative True [] c)
      | _ \<Rightarrow> c)"

section \<open>The source of plans\<close>

definition begin_hydration :: "qt_env \<Rightarrow> controller \<Rightarrow> controller" where
  "begin_hydration E c =
     (case pc_artifact c of
        Some a \<Rightarrow> snd (publish_plan E (art_plan a) Retained False [] c)
      | None \<Rightarrow>
          let changed = (pc_state c \<noteq> Hydrating \<or> pc_last_error c \<noteq> []);
              c1 = c\<lparr>pc_state := Hydrating, pc_last_error := []\<rparr>
          in if changed then emit_signal RuntimeChanged c1 else c1)"

definition accept_snapshots ::
  "qt_env \<Rightarrow> catalog_snapshot \<Rightarrow> configuration_snapshot \<Rightarrow> controller \<Rightarrow> bool \<times> controller" where
  "accept_snapshots E cat conf c =
     (let built = build_surface_plan E cat conf
      in if \<not> vr_ok built then (False, set_failed_state E (describe_errors (vr_errors built)) c)
         else publish_plan E (the (vr_value built)) Authoritative True []
           (c\<lparr>pc_catalog := Some cat, pc_configuration := Some conf\<rparr>))"

definition hydration_failed :: "qt_env \<Rightarrow> qstring \<Rightarrow> controller \<Rightarrow> controller" where
  "hydration_failed E err c = set_failed_state E err c"

definition source_unavailable :: "qt_env \<Rightarrow> qstring \<Rightarrow> controller \<Rightarrow> controller" where
  "source_unavailable E err c = set_failed_state E err c"

section \<open>The renderer\<close>

text \<open>The instances of the main bar, with duplicates; the code iterates over their set.\<close>

definition renderable_ids :: "surface_plan \<Rightarrow> qstring list" where
  "renderable_ids p = (case map_of (sp_bar_layouts p) default_bar_layout_id of
     None \<Rightarrow> [] | Some l \<Rightarrow> layout_ids l)"

fun authorize_instances ::
  "health_state \<Rightarrow> surface_plan \<Rightarrow> qstring list \<Rightarrow> pending_activation qmap \<Rightarrow>
    qstring + pending_activation qmap" where
  "authorize_instances h p [] pending = Inr pending"
| "authorize_instances h p (x # xs) pending =
     (case map_of (sp_instances p) x of
        None \<Rightarrow> Inl (Q ''The main surface plan is inconsistent'')
      | Some i \<Rightarrow>
          if si_runtime_kind i \<noteq> declarative_kind then authorize_instances h p xs pending
          else if is_quarantined h (si_component_id i) (si_package_digest i) then
            Inl (Q ''The surface plan contains a quarantined package'')
          else if (case map_of pending x of None \<Rightarrow> False
              | Some a \<Rightarrow> pa_component_id a \<noteq> si_component_id i \<or> pa_package_digest a \<noteq> si_package_digest i) then
            Inl (Q ''A pending activation belongs to another package'')
          else authorize_instances h p xs (om_insert x
            \<lparr>pa_instance_id = x, pa_component_id = si_component_id i, pa_package_digest = si_package_digest i\<rparr>
            pending))"

text \<open>
  \<open>order\<close> is the iteration order of the set \<open>renderableIds\<close>, which Qt leaves open: a
  duplicate-free list of \<open>renderable_ids\<close>.
\<close>

definition authorize_surface_plan ::
  "qt_env \<Rightarrow> qstring list \<Rightarrow> 64 word \<Rightarrow> controller \<Rightarrow> bool \<times> qstring \<times> controller" where
  "authorize_surface_plan E order revision c =
     (let stale = (False, Q ''The surface plan is stale or unavailable'', c)
      in case pc_artifact c of
          None \<Rightarrow> stale
        | Some a \<Rightarrow>
            if third_party_safe_mode c \<or> pc_state c \<noteq> Authoritative \<or> art_revision a \<noteq> revision then stale
            else case authorize_instances (pc_health c) (art_plan a) order (hs_pending (pc_health c)) of
                Inl e \<Rightarrow> (False, e, c)
              | Inr pending \<Rightarrow>
                  let next_health = (pc_health c)\<lparr>hs_pending := pending\<rparr>
                  in if next_health = pc_health c then
                       (True, [], c\<lparr>pc_probation := pc_probation c \<or> hs_pending (pc_health c) \<noteq> []\<rparr>)
                     else case commit_health E next_health c of (ok, e, c1) \<Rightarrow>
                       if \<not> ok then (False, e, rebuild_authoritative_plan E c1)
                       else (True, [], c1\<lparr>pc_probation := True\<rparr>))"

definition cancel_surface_plan_authorization ::
  "qt_env \<Rightarrow> 64 word \<Rightarrow> controller \<Rightarrow> bool \<times> qstring \<times> controller" where
  "cancel_surface_plan_authorization E revision c =
     (if pc_state c \<noteq> Authoritative
         \<or> (case pc_artifact c of None \<Rightarrow> True | Some a \<Rightarrow> art_revision a \<noteq> revision) then
        (False, Q ''The surface plan is stale or unavailable'', c)
      else if hs_pending (pc_health c) = [] then (True, [], c)
      else case commit_health E ((pc_health c)\<lparr>hs_pending := []\<rparr>) c of (ok, e, c1) \<Rightarrow>
        if \<not> ok then (False, e, rebuild_authoritative_plan E c1)
        else (True, [], c1\<lparr>pc_probation := False\<rparr>))"

definition matching_instance ::
  "qstring \<Rightarrow> qstring \<Rightarrow> qstring \<Rightarrow> 64 word \<Rightarrow> controller \<Rightarrow> surface_instance option" where
  "matching_instance x component_id package_digest revision c =
     (case pc_artifact c of
        None \<Rightarrow> None
      | Some a \<Rightarrow>
          if pc_state c \<noteq> Authoritative \<or> art_revision a \<noteq> revision then None
          else (case map_of (sp_instances (art_plan a)) x of
              None \<Rightarrow> None
            | Some i \<Rightarrow>
                if si_runtime_kind i \<noteq> declarative_kind \<or> si_component_id i \<noteq> component_id
                  \<or> si_package_digest i \<noteq> package_digest
                then None else Some i))"

definition activation_stable ::
  "qt_env \<Rightarrow> qstring \<Rightarrow> qstring \<Rightarrow> qstring \<Rightarrow> 64 word \<Rightarrow> controller \<Rightarrow> bool \<times> qstring \<times> controller" where
  "activation_stable E x component_id package_digest revision c =
     (if matching_instance x component_id package_digest revision c = None then
        (False, Q ''The activation tuple is stale or invalid'', c)
      else case map_of (hs_pending (pc_health c)) x of
          None \<Rightarrow> (False, Q ''The activation is not in probation'', c)
        | Some a \<Rightarrow>
            if pa_component_id a \<noteq> component_id \<or> pa_package_digest a \<noteq> package_digest then
              (False, Q ''The activation tuple does not match probation'', c)
            else case commit_health E ((pc_health c)\<lparr>hs_pending := om_remove x (hs_pending (pc_health c))\<rparr>) c of
                (ok, e, c1) \<Rightarrow>
                  if \<not> ok then (False, e, rebuild_authoritative_plan E c1)
                  else (True, [], if hs_pending (pc_health c1) = [] then c1\<lparr>pc_probation := False\<rparr> else c1))"

definition drop_package :: "qstring \<Rightarrow> qstring \<Rightarrow> pending_activation qmap \<Rightarrow> pending_activation qmap" where
  "drop_package component_id package_digest m =
     filter (\<lambda>(x, a). \<not> (pa_component_id a = component_id \<and> pa_package_digest a = package_digest)) m"

definition activation_failed ::
  "qt_env \<Rightarrow> qstring \<Rightarrow> qstring \<Rightarrow> qstring \<Rightarrow> 64 word \<Rightarrow> qstring \<Rightarrow> controller \<Rightarrow>
    bool \<times> qstring \<times> controller" where
  "activation_failed E x component_id package_digest revision reason c =
     (if reason \<noteq> Q ''render-failed'' \<and> reason \<noteq> Q ''protocol-invalid'' then
        (False, Q ''The activation failure reason is invalid'', c)
      else if matching_instance x component_id package_digest revision c = None then
        (False, Q ''The activation tuple is stale or invalid'', c)
      else
        let next_health = (quarantine component_id package_digest reason (pc_health c))
              \<lparr>hs_pending := drop_package component_id package_digest (hs_pending (pc_health c))\<rparr>
        in case commit_health E next_health c of (ok, e, c1) \<Rightarrow>
          if \<not> ok then (False, e, rebuild_authoritative_plan E c1)
          else (True, [], rebuild_authoritative_plan E c1))"

definition retry_component ::
  "qt_env \<Rightarrow> qstring \<Rightarrow> qstring \<Rightarrow> 64 word \<Rightarrow> controller \<Rightarrow> bool \<times> qstring \<times> controller" where
  "retry_component E component_id package_digest expected_revision c =
     (if expected_revision \<noteq> hs_revision (pc_health c) then
        (False, Q ''The runtime health state changed'', c)
      else if \<not> is_quarantined (pc_health c) component_id package_digest then
        (False, Q ''The exact component package is not quarantined'', c)
      else
        let next_health = (pc_health c)\<lparr>hs_records :=
              om_remove (record_key component_id package_digest) (hs_records (pc_health c))\<rparr>
        in case commit_health E next_health c of (ok, e, c1) \<Rightarrow>
          if \<not> ok then (False, e, rebuild_authoritative_plan E c1)
          else (True, [], rebuild_authoritative_plan E c1))"

definition quarantine_pending :: "qt_env \<Rightarrow> qstring \<Rightarrow> controller \<Rightarrow> controller" where
  "quarantine_pending E reason c =
     (if hs_pending (pc_health c) = [] then c
      else case commit_health E (quarantine_all reason (pc_health c)) c of (ok, e, c1) \<Rightarrow>
        rebuild_authoritative_plan E c1)"

text \<open>The single-shot probation timer fires: it is inactive when its handler runs.\<close>

definition probation_timeout :: "qt_env \<Rightarrow> controller \<Rightarrow> controller" where
  "probation_timeout E c = quarantine_pending E (Q ''timeout'') (c\<lparr>pc_probation := False\<rparr>)"

end
