(* ===== verification/Plan_Codec.thy ===== *)
theory Plan_Codec
  imports Plan_Controller
begin

text \<open>
  The interface between the controller and the artifact. The controller publishes a plan only
  after its bytes were parsed back, so what it publishes depends on Qt's JSON writer. The
  locale \<open>json_codec\<close> states what is relied on of the writer; \<open>plan_codec\<close> is what follows for
  plans: an artifact carries exactly the plan it was made from, and a plan from which instances
  are removed can still be published.
\<close>

section \<open>Removing instances\<close>

lemma fold_om_remove: "fold om_remove ks m = filter (\<lambda>e. fst e \<notin> set ks) m"
  by (induction ks arbitrary: m) (auto simp: om_remove_def intro!: filter_cong)

lemma filter_layout_Nil: "filter_layout [] l = l"
  by (simp add: filter_layout_def)

lemma remove_instances_fields:
  "sp_instances (remove_instances p R) = filter (\<lambda>e. fst e \<notin> set R) (sp_instances p)"
  "sp_bar_layouts (remove_instances p R) = map (\<lambda>e. (fst e, filter_layout R (snd e))) (sp_bar_layouts p)"
  "sp_catalog_digest (remove_instances p R) = sp_catalog_digest p"
  "sp_configuration_revision (remove_instances p R) = sp_configuration_revision p"
  by (auto simp: remove_instances_def fold_om_remove filter_layout_Nil split_beta)

lemma layout_ids_filter: "layout_ids (filter_layout R l) = filter (\<lambda>x. x \<notin> set R) (layout_ids l)"
  by (simp add: layout_ids_def filter_layout_def)

lemma placed_ids_remove: "placed_ids (remove_instances p R) = filter (\<lambda>x. x \<notin> set R) (placed_ids p)"
  by (simp add: placed_ids_def remove_instances_fields comp_def layout_ids_filter filter_concat)

lemma ids_ok_filter: "ids_ok xs \<Longrightarrow> ids_ok (filter P xs)"
  by (auto simp: ids_ok_def list_all_iff intro: order_trans [OF length_filter_le])

lemma layout_ok_filter: "layout_ok l \<Longrightarrow> layout_ok (filter_layout R l)"
  by (simp add: layout_ok_def filter_layout_def ids_ok_filter)

lemma om_inv_map_snd: "om_inv m \<Longrightarrow> om_inv (map (\<lambda>e. (fst e, f (snd e))) m)"
  by (simp add: om_inv_def comp_def)

lemma plan_ok_remove: "plan_ok E p \<Longrightarrow> plan_ok E (remove_instances p R)"
  unfolding plan_ok_def placement_ok_def remove_instances_fields placed_ids_remove
  by (auto simp: list_all_iff om_inv_map_snd layout_ok_filter intro: order_trans [OF length_filter_le])

definition canonical_plan :: "surface_plan \<Rightarrow> bool" where
  "canonical_plan p \<longleftrightarrow> om_inv (sp_instances p) \<and> om_inv (sp_bar_layouts p)
     \<and> list_all (\<lambda>e. canonical_instance (snd e)) (sp_instances p)"

lemma canonical_remove: "canonical_plan p \<Longrightarrow> canonical_plan (remove_instances p R)"
  by (auto simp: canonical_plan_def remove_instances_fields list_all_iff om_inv_map_snd)

lemma canonical_empty: "canonical_plan empty_plan"
  by (simp add: canonical_plan_def empty_plan_def)

section \<open>The builder makes canonical plans\<close>

lemma build_layouts_inv:
  "build_layouts E cat conf ks s bars = Inr (bars', s') \<Longrightarrow> build_inv E cat conf s \<Longrightarrow> om_inv bars \<Longrightarrow>
   build_inv E cat conf s' \<and> om_inv bars'"
  by (induction ks arbitrary: s bars) (auto split: sum.splits dest: build_layout_extends)

lemma build_surface_plan_canonical:
  assumes "build_surface_plan E cat conf = vr_accept p"
  shows "canonical_plan p"
proof -
  let ?s0 = "\<lparr>bs_placed = [], bs_instances = []\<rparr>"
  from assms obtain bars s where
    b: "build_layouts E cat conf (sort (map fst (cf_bar_layouts conf))) ?s0 [] = Inr (bars, s)"
    and p: "sp_instances p = bs_instances s" "sp_bar_layouts p = bars"
    by (auto simp: build_surface_plan_def split: option.splits sum.splits)
  have "build_inv E cat conf ?s0" by (simp add: build_inv_def)
  from build_layouts_inv [OF b this] show ?thesis
    by (auto simp: canonical_plan_def p build_inv_def list_all_iff)
qed

lemma build_surface_plan_accepts:
  assumes "vr_ok (build_surface_plan E cat conf)"
  obtains p where "build_surface_plan E cat conf = vr_accept p" "canonical_plan p"
proof -
  from assms obtain p where "build_surface_plan E cat conf = vr_accept p"
    by (auto simp: build_surface_plan_def split: option.splits sum.splits)
  with build_surface_plan_canonical that show thesis by blast
qed

section \<open>Reading back a canonical plan\<close>

lemma parse_id_array_inverse:
  "parse_id_array vs path i = Inr ids \<Longrightarrow> vs = map JStr ids"
  by (induction vs arbitrary: i ids) (auto simp: is_string_iff split: if_splits sum.splits)

lemma parse_string_array_inverse:
  "parse_string_array (Some (string_array xs)) path = Inr ids \<Longrightarrow> ids = xs"
  using parse_id_array_inverse
  by (fastforce simp: parse_string_array_def string_array_def inj_map_eq_map inj_def split: if_splits)

lemma parse_layout_object_inverse:
  assumes "parse_bar_layout (layout_object l) path = Inr l'"
  shows "l' = l"
  using assms
  by (cases l)
    (auto simp: parse_bar_layout_def layout_object_def require_exact_keys_def exact_keys_def json_object_def
      parse_regions_def Let_def split: if_splits sum.splits dest!: parse_string_array_inverse)

lemma parse_runtime_inverse:
  assumes "canonical_instance i"
    and k: "si_runtime_kind i = builtin_kind \<or> si_runtime_kind i = declarative_kind"
    and r: "parse_runtime E path cid (if si_runtime_kind i = builtin_kind
      then json_object [(''kind'', JStr (si_runtime_kind i)), (''factory'', JStr (si_factory i))]
      else json_object [(''kind'', JStr (si_runtime_kind i)), (''text'', JStr (si_declarative_text i)),
        (''tooltip'', JStr (si_declarative_tooltip i)), (''maximumWidth'', json_int (uint (si_maximum_width i)))])
      settings = Inr rt"
  shows "rr_factory rt = si_factory i" "rr_text rt = si_declarative_text i"
    "rr_tooltip rt = si_declarative_tooltip i" "rr_width rt = si_maximum_width i"
proof -
  define w where "w = uint (si_maximum_width i)"
  have w: "word_of_int w = si_maximum_width i" by (simp add: w_def)
  have "rr_factory rt = si_factory i \<and> rr_text rt = si_declarative_text i
    \<and> rr_tooltip rt = si_declarative_tooltip i \<and> rr_width rt = si_maximum_width i"
  proof (cases "si_runtime_kind i = builtin_kind")
    case True
    with assms show ?thesis
      by (auto simp: parse_runtime_def json_object_def parse_builtin_runtime_def canonical_instance_def Let_def
          split: option.splits if_splits)
  next
    case False
    with k have d: "si_runtime_kind i = declarative_kind" by simp
    from r False show ?thesis
      using assms(1) unfolding w_def [symmetric]
      by (auto simp: d parse_runtime_def json_object_def parse_declarative_runtime_def canonical_instance_def w
          minimum_maximum_width_def Let_def
          split: option.splits if_splits)
  qed
  then show "rr_factory rt = si_factory i" "rr_text rt = si_declarative_text i"
    "rr_tooltip rt = si_declarative_tooltip i" "rr_width rt = si_maximum_width i" by simp_all
qed

lemma parse_instance_inverse:
  assumes c: "canonical_instance i" and r: "parse_instance E (instance_object i) path = Inr j"
  shows "j = i"
proof -
  define runtime where "runtime = (if si_runtime_kind i = builtin_kind
    then json_object [(''kind'', JStr (si_runtime_kind i)), (''factory'', JStr (si_factory i))]
    else json_object [(''kind'', JStr (si_runtime_kind i)), (''text'', JStr (si_declarative_text i)),
      (''tooltip'', JStr (si_declarative_tooltip i)), (''maximumWidth'', json_int (uint (si_maximum_width i)))])"
  have ob: "instance_object i = json_object
      [(''componentId'', JStr (si_component_id i)), (''componentType'', JStr (si_component_type i)),
       (''packageDigest'', JStr (si_package_digest i)), (''runtime'', JObj runtime),
       (''settings'', JObj (si_settings i))]"
    by (simp add: instance_object_def runtime_def json_object_def Let_def)
  have kind: "map_of runtime (Q ''kind'') = Some (JStr (si_runtime_kind i))"
    by (simp add: runtime_def json_object_def)
  from r obtain rt where rt: "parse_runtime E path (si_component_id i) runtime (si_settings i) = Inr rt"
    and j: "j = \<lparr>si_component_id = si_component_id i, si_component_type = si_component_type i,
      si_package_digest = si_package_digest i, si_runtime_kind = si_runtime_kind i,
      si_factory = rr_factory rt, si_declarative_text = rr_text rt,
      si_declarative_tooltip = rr_tooltip rt, si_maximum_width = rr_width rt, si_settings = si_settings i\<rparr>"
    by (auto simp: parse_instance_def ob json_object_def require_exact_keys_def exact_keys_def kind Let_def
        split: if_splits sum.splits)
  have "si_runtime_kind i = builtin_kind \<or> si_runtime_kind i = declarative_kind"
    using rt by (auto simp: parse_runtime_def kind Let_def split: if_splits)
  from parse_runtime_inverse [OF c this rt [unfolded runtime_def]] show ?thesis
    by (simp add: j)
qed

lemma parse_instances_inverse:
  "parse_instances E (map (\<lambda>(k, i). (k, JObj (instance_object i))) m) acc = Inr m' \<Longrightarrow>
   om_inv (acc @ m) \<Longrightarrow> list_all (\<lambda>e. canonical_instance (snd e)) m \<Longrightarrow> m' = acc @ m"
proof (induction m arbitrary: acc)
  case (Cons e m)
  obtain k i where e: "e = (k, i)" by force
  with Cons.prems obtain j where j: "parse_instance E (instance_object i) (Q ''$.instances.'' @ k) = Inr j"
    and rest: "parse_instances E (map (\<lambda>(k, i). (k, JObj (instance_object i))) m) (om_insert k j acc) = Inr m'"
    by (auto split: if_splits sum.splits)
  have ji: "j = i" using parse_instance_inverse [OF _ j] Cons.prems(3) e by simp
  have inv: "om_inv ((acc @ [(k, i)]) @ m)" using Cons.prems e by simp
  then have "om_inv (acc @ [(k, i)])" by (metis om_inv_def map_append sorted_wrt_append)
  then have "om_insert k i acc = acc @ [(k, i)]"
    by (intro om_insert_last) (simp add: om_inv_snoc)
  with Cons.IH [OF _ inv] rest ji Cons.prems(3) e show ?case by simp
qed simp

lemma parse_bars_inverse:
  "parse_bars (map (\<lambda>(k, l). (k, JObj (layout_object l))) m) acc = Inr m' \<Longrightarrow> om_inv (acc @ m) \<Longrightarrow> m' = acc @ m"
proof (induction m arbitrary: acc)
  case (Cons e m)
  obtain k l where e: "e = (k, l)" by force
  with Cons.prems obtain l' where l': "parse_bar_layout (layout_object l) (Q ''$.layouts.bars.'' @ k) = Inr l'"
    and rest: "parse_bars (map (\<lambda>(k, l). (k, JObj (layout_object l))) m) (om_insert k l' acc) = Inr m'"
    by (auto split: if_splits sum.splits)
  have inv: "om_inv ((acc @ [(k, l)]) @ m)" using Cons.prems e by simp
  then have "om_inv (acc @ [(k, l)])" by (metis om_inv_def map_append sorted_wrt_append)
  then have "om_insert k l acc = acc @ [(k, l)]"
    by (intro om_insert_last) (simp add: om_inv_snoc)
  with Cons.IH [OF _ inv] rest parse_layout_object_inverse [OF l'] e show ?case by simp
qed simp

lemma plan_object_fields:
  assumes "canonical_plan p"
  shows "plan_object p = json_object
      [(''formatVersion'', json_int surface_plan_format_version),
       (''catalogDigest'', JStr (sp_catalog_digest p)),
       (''configurationRevision'', JStr (qnumber (unat (sp_configuration_revision p)))),
       (''instances'', JObj (map (\<lambda>(k, i). (k, JObj (instance_object i))) (sp_instances p))),
       (''layouts'', JObj (json_object [(''bars'',
         JObj (map (\<lambda>(k, l). (k, JObj (layout_object l))) (sp_bar_layouts p)))]))]"
  using assms fold_om_insert_map [of "[]" "\<lambda>i. JObj (instance_object i)" "sp_instances p"]
    fold_om_insert_map [of "[]" "\<lambda>l. JObj (layout_object l)" "sp_bar_layouts p"]
  by (simp add: plan_object_def canonical_plan_def om_inv_map)

lemma parse_plan_object_inverse:
  assumes c: "canonical_plan p" and r: "parse_plan_root E (plan_object p) = vr_accept q"
  shows "q = p"
proof -
  let ?insts = "map (\<lambda>(k, i). (k, JObj (instance_object i))) (sp_instances p)"
  let ?bars = "map (\<lambda>(k, l). (k, JObj (layout_object l))) (sp_bar_layouts p)"
  have rev: "parse_unsigned_revision (qnumber (unat (sp_configuration_revision p))) = Some (sp_configuration_revision p)"
    by (simp add: parse_unsigned_revision_def parse_revision_iff)
  have head: "parse_plan_header (plan_object p) = Inr z \<Longrightarrow>
      z = ((sp_catalog_digest p, sp_configuration_revision p), (?insts, json_object [(''bars'', JObj ?bars)]))" for z
    by (auto simp: parse_plan_header_def plan_object_fields [OF c] json_object_def require_exact_keys_def
        exact_keys_def rev Let_def split: if_splits)
  have bars: "parse_layouts (json_object [(''bars'', JObj ?bars)]) = Inr b \<Longrightarrow> b = sp_bar_layouts p" for b
    using parse_bars_inverse [of "sp_bar_layouts p" "[]" b] c
    by (auto simp: parse_layouts_def json_object_def require_exact_keys_def exact_keys_def canonical_plan_def Let_def
        split: if_splits)
  have insts: "parse_instances E ?insts [] = Inr m \<Longrightarrow> m = sp_instances p" for m
    using parse_instances_inverse [of E "sp_instances p" "[]" m] c by (simp add: canonical_plan_def)
  from r obtain z m b where z: "parse_plan_header (plan_object p) = Inr z"
    by (auto simp: parse_plan_root_def split: sum.splits)
  from r [unfolded parse_plan_root_def z head [OF z]] show ?thesis
    by (auto simp: Let_def split: sum.splits if_splits dest!: bars insts)
qed

section \<open>What is relied on of the JSON writer\<close>

text \<open>\<open>w\<close> is \<open>v\<close> with some members of objects and elements of arrays removed.\<close>

inductive json_part :: "json \<Rightarrow> json \<Rightarrow> bool"
  and elements_part :: "json list \<Rightarrow> json list \<Rightarrow> bool"
  and members_part :: "json qmap \<Rightarrow> json qmap \<Rightarrow> bool" where
  part_same: "json_part v v"
| part_array: "elements_part vs ws \<Longrightarrow> json_part (JArr vs) (JArr ws)"
| part_object: "members_part m m' \<Longrightarrow> json_part (JObj m) (JObj m')"
| elements_none: "elements_part [] []"
| elements_drop: "elements_part vs ws \<Longrightarrow> elements_part (v # vs) ws"
| elements_keep: "json_part v w \<Longrightarrow> elements_part vs ws \<Longrightarrow> elements_part (v # vs) (w # ws)"
| members_none: "members_part [] []"
| members_drop: "members_part m m' \<Longrightarrow> members_part ((k, v) # m) m'"
| members_keep: "json_part v w \<Longrightarrow> members_part m m' \<Longrightarrow> members_part ((k, v) # m) ((k, w) # m')"

inductive_cases json_part_objectE: "json_part (JObj m) w"

lemmas part_intros = part_same part_array part_object elements_none elements_keep members_none members_keep

lemma elements_part_filter: "elements_part (map f xs) (map f (filter P xs))"
  by (induction xs) (auto intro: part_intros elements_drop)

lemma members_part_filter: "members_part (map (\<lambda>(k, v). (k, f v)) m) (map (\<lambda>(k, v). (k, f v)) (filter P m))"
  by (induction m) (auto intro: part_intros members_drop)

lemma members_part_map:
  "(\<And>k v. (k, v) \<in> set m \<Longrightarrow> json_part (f v) (g v)) \<Longrightarrow>
   members_part (map (\<lambda>(k, v). (k, f v)) m) (map (\<lambda>(k, v). (k, g v)) m)"
  by (induction m) (auto intro: part_intros)

locale json_codec =
  fixes E :: qt_env
  assumes faithful: "parse_object E B D (qt_compact E (JObj m) @ [10]) = vr_accept m' \<Longrightarrow> m' = m"
    and removal: "json_part (JObj m) (JObj m') \<Longrightarrow> vr_ok (parse_object E B D (qt_compact E (JObj m) @ [10])) \<Longrightarrow>
      vr_ok (parse_object E B D (qt_compact E (JObj m') @ [10]))"

locale plan_codec =
  fixes E :: qt_env
  assumes carries: "canonical_plan p \<Longrightarrow> make_surface_plan_artifact E p = vr_accept a \<Longrightarrow> art_plan a = p"
    and removes: "canonical_plan p \<Longrightarrow> make_surface_plan_artifact E p = vr_accept a \<Longrightarrow>
      vr_ok (make_surface_plan_artifact E (remove_instances p R))"

section \<open>From the writer to the plans\<close>

lemma layout_object_part: "json_part (JObj (layout_object l)) (JObj (layout_object (filter_layout R l)))"
  by (auto simp: layout_object_def json_object_def filter_layout_def string_array_def
      intro!: part_intros elements_part_filter)

lemma plan_object_part:
  assumes c: "canonical_plan p"
  shows "json_part (JObj (plan_object p)) (JObj (plan_object (remove_instances p R)))"
proof -
  have "members_part (map (\<lambda>(k, i). (k, JObj (instance_object i))) (sp_instances p))
      (map (\<lambda>(k, i). (k, JObj (instance_object i))) (sp_instances (remove_instances p R)))"
    unfolding remove_instances_fields by (rule members_part_filter [of "\<lambda>i. JObj (instance_object i)"])
  moreover have "members_part (map (\<lambda>(k, l). (k, JObj (layout_object l))) (sp_bar_layouts p))
      (map (\<lambda>(k, l). (k, JObj (layout_object l))) (sp_bar_layouts (remove_instances p R)))"
    using members_part_map [of "sp_bar_layouts p" "\<lambda>l. JObj (layout_object l)"
        "\<lambda>l. JObj (layout_object (filter_layout R l))"] layout_object_part
    by (simp add: remove_instances_fields case_prod_unfold comp_def)
  ultimately show ?thesis
    unfolding plan_object_fields [OF c] plan_object_fields [OF canonical_remove [OF c]]
    by (auto simp: json_object_def remove_instances_fields(3,4) intro!: part_intros)
qed

lemma make_surface_plan_artifact_cases:
  obtains m a where "make_surface_plan_artifact E p = vr_accept a"
    "parse_object E maximum_plan_bytes 32 (serialize_plan E p) = vr_accept m"
    "parse_plan_root E m = vr_accept (art_plan a)" "plan_ok E (art_plan a)"
    "art_bytes a = serialize_plan E p" "art_digest a = surface_plan_digest E (art_bytes a)"
    "art_revision a = surface_plan_revision (art_digest a)"
  | es where "make_surface_plan_artifact E p = vr_reject es"
proof (cases "vr_ok (parse_surface_plan E (serialize_plan E p))")
  case True
  then have "vr_ok (parse_object E maximum_plan_bytes 32 (serialize_plan E p))"
    by (auto simp: parse_surface_plan_def Let_def split: if_splits)
  then obtain m where m: "parse_object E maximum_plan_bytes 32 (serialize_plan E p) = vr_accept m"
    by (rule parse_object_ok)
  then have "vr_ok (parse_plan_root E m)" using True by (simp add: parse_surface_plan_def)
  then obtain q where q: "parse_plan_root E m = vr_accept q" "plan_ok E q" by (rule parse_plan_root_ok)
  show thesis
  proof (rule that(1))
    show "make_surface_plan_artifact E p = vr_accept \<lparr>art_plan = q, art_bytes = serialize_plan E p,
        art_digest = surface_plan_digest E (serialize_plan E p),
        art_revision = surface_plan_revision (surface_plan_digest E (serialize_plan E p))\<rparr>"
      using m q
      by (simp add: make_surface_plan_artifact_def parse_surface_plan_def Let_def)
  qed (use m q in simp_all)
next
  case False
  then show thesis by (intro that(2)) (simp add: make_surface_plan_artifact_def Let_def)
qed

context json_codec
begin

lemma plan_carried:
  assumes c: "canonical_plan p" and a: "make_surface_plan_artifact E p = vr_accept a"
  shows "art_plan a = p"
proof (cases rule: make_surface_plan_artifact_cases [of E p])
  case (1 m b)
  then have "m = plan_object p" using faithful by (metis serialize_plan_def)
  with 1 a parse_plan_object_inverse [OF c] show ?thesis by simp
next
  case (2 es)
  with a show ?thesis by simp
qed

lemma plan_removed:
  assumes c: "canonical_plan p" and a: "make_surface_plan_artifact E p = vr_accept a"
  shows "vr_ok (make_surface_plan_artifact E (remove_instances p R))"
proof (cases rule: make_surface_plan_artifact_cases [of E p])
  case (1 m b)
  let ?q = "remove_instances p R"
  have ap: "art_plan a = p" using c a by (rule plan_carried)
  with 1 a have "plan_ok E p" by simp
  then have q: "plan_ok E ?q" by (rule plan_ok_remove)
  have "vr_ok (parse_object E maximum_plan_bytes 32 (serialize_plan E ?q))"
    using removal [OF plan_object_part [OF c]] 1(2) by (simp add: serialize_plan_def)
  then obtain m' where m': "parse_object E maximum_plan_bytes 32 (serialize_plan E ?q) = vr_accept m'"
    by (rule parse_object_ok)
  then have "m' = plan_object ?q" using faithful by (metis serialize_plan_def)
  with m' parse_plan_object [OF q] have "vr_ok (parse_surface_plan E (serialize_plan E ?q))"
    by (simp add: parse_surface_plan_def)
  then show ?thesis by (simp add: make_surface_plan_artifact_def Let_def)
next
  case (2 es)
  with a show ?thesis by simp
qed

end

sublocale json_codec \<subseteq> plan_codec
  by unfold_locales (erule (1) plan_carried, erule (1) plan_removed)

lemma plan_codec_of_json: "json_codec E \<Longrightarrow> plan_codec E"
  by (rule plan_codec.intro) (erule (2) json_codec.plan_carried json_codec.plan_removed)+

end
