(* ===== verification/Plan_Lifecycle.thy ===== *)
theory Plan_Lifecycle
  imports Plan_Codec
begin

text \<open>
  The invariant of the plan controller and its preservation by every member function. The
  lemmas about publishing are proved in the locale \<open>plan_codec\<close>: they rest on an artifact
  carrying its plan and on a plan with fewer instances being publishable.
\<close>

section \<open>Predicates\<close>

definition builtin_only :: "surface_plan \<Rightarrow> bool" where
  "builtin_only p \<longleftrightarrow> list_all (\<lambda>e. si_runtime_kind (snd e) = builtin_kind) (sp_instances p)"

definition no_quarantined :: "health_state \<Rightarrow> surface_plan \<Rightarrow> bool" where
  "no_quarantined h p \<longleftrightarrow> list_all (\<lambda>e. si_runtime_kind (snd e) = builtin_kind
     \<or> \<not> is_quarantined h (si_component_id (snd e)) (si_package_digest (snd e))) (sp_instances p)"

definition health_wf :: "health_state \<Rightarrow> bool" where
  "health_wf h \<longleftrightarrow> om_inv (hs_records h) \<and> om_inv (hs_pending h)
     \<and> list_all (\<lambda>e. hr_state (snd e) = Q ''quarantined''
         \<and> fst e = record_key (hr_component_id (snd e)) (hr_package_digest (snd e))) (hs_records h)
     \<and> list_all (\<lambda>e. pa_instance_id (snd e) = fst e) (hs_pending h)"

definition published :: "qt_env \<Rightarrow> surface_plan_artifact \<Rightarrow> bool" where
  "published E a \<longleftrightarrow> canonical_plan (art_plan a) \<and> make_surface_plan_artifact E (art_plan a) = vr_accept a"

text \<open>
  Outside safe mode every pending activation belongs to an instance of the published plan and
  the probation timer runs.
\<close>

definition pending_watched :: "controller \<Rightarrow> bool" where
  "pending_watched c \<longleftrightarrow> third_party_safe_mode c \<or> hs_pending (pc_health c) = []
     \<or> pc_probation c \<and> (case pc_artifact c of None \<Rightarrow> False
         | Some a \<Rightarrow> list_all (\<lambda>e. matches_pending (art_plan a) (fst e) (snd e)) (hs_pending (pc_health c)))"

text \<open>What every handler keeps, also between the two halves of a publication.\<close>

definition core_inv :: "qt_env \<Rightarrow> controller \<Rightarrow> bool" where
  "core_inv E c \<longleftrightarrow> health_wf (pc_health c)
     \<and> (case pc_artifact c of None \<Rightarrow> True | Some a \<Rightarrow> published E a)
     \<and> (pc_catalog c = None \<longleftrightarrow> pc_configuration c = None)
     \<and> (case (pc_catalog c, pc_configuration c) of
          (Some cat, Some conf) \<Rightarrow> vr_ok (build_surface_plan E cat conf) | _ \<Rightarrow> True)
     \<and> (pc_health_initialized c \<or> pc_health c = empty_health)"

definition artifact_inv :: "controller \<Rightarrow> bool" where
  "artifact_inv c \<longleftrightarrow>
     (case pc_artifact c of
        None \<Rightarrow> pc_state c \<in> {Hydrating, Unavailable}
      | Some a \<Rightarrow> pc_state c \<in> {Authoritative, Retained} \<and> no_quarantined (pc_health c) (art_plan a)
          \<and> (third_party_safe_mode c \<or> pc_state c = Retained \<longrightarrow> builtin_only (art_plan a)))
     \<and> (pc_state c = Authoritative \<longrightarrow> pc_catalog c \<noteq> None)"

definition controller_inv :: "qt_env \<Rightarrow> controller \<Rightarrow> bool" where
  "controller_inv E c \<longleftrightarrow> core_inv E c \<and> artifact_inv c \<and> pending_watched c"

section \<open>Filters\<close>

lemma builtin_only_strip: "builtin_only (strip_third_party p)"
  by (force simp: builtin_only_def strip_third_party_def remove_instances_fields list_all_iff)

lemma no_quarantined_builtin: "builtin_only p \<Longrightarrow> no_quarantined h p"
  by (auto simp: builtin_only_def no_quarantined_def list_all_iff)

lemma no_quarantined_filter: "no_quarantined h (filter_quarantined h p)"
  by (force simp: no_quarantined_def filter_quarantined_def remove_instances_fields list_all_iff)

lemma is_quarantined_records: "hs_records h = hs_records h' \<Longrightarrow> is_quarantined h = is_quarantined h'"
  by (intro ext) (simp add: is_quarantined_def)

lemma no_quarantined_records: "hs_records h = hs_records h' \<Longrightarrow> no_quarantined h p = no_quarantined h' p"
  by (simp add: no_quarantined_def is_quarantined_records [of h h'])

lemma canonical_filters:
  "canonical_plan p \<Longrightarrow> canonical_plan (strip_third_party p)"
  "canonical_plan p \<Longrightarrow> canonical_plan (filter_quarantined h p)"
  by (simp_all add: strip_third_party_def filter_quarantined_def canonical_remove)

section \<open>Committing health\<close>

text \<open>Everything but the health state, the file system, the timer and the signals.\<close>

definition same_plan :: "controller \<Rightarrow> controller \<Rightarrow> bool" where
  "same_plan c c' \<longleftrightarrow> pc_state c' = pc_state c \<and> pc_artifact c' = pc_artifact c \<and> pc_catalog c' = pc_catalog c
     \<and> pc_configuration c' = pc_configuration c \<and> pc_store c' = pc_store c
     \<and> pc_health_initialized c' = pc_health_initialized c \<and> pc_last_error c' = pc_last_error c"

lemma same_plan_refl [simp]: "same_plan c c"
  by (simp add: same_plan_def)

lemma commit_health_effect:
  assumes "commit_health E n c = (ok, e, c')"
  shows "same_plan c c'"
    "ok \<Longrightarrow> e = [] \<and> pc_health c' = n\<lparr>hs_revision := hs_revision (pc_health c) + 1\<rparr> \<and> pc_probation c' = pc_probation c"
    "\<not> ok \<Longrightarrow> pc_health c' = (pc_health c)\<lparr>hs_safe_mode := True\<rparr> \<and> \<not> pc_probation c'"
  using assms
  by (auto simp: commit_health_def same_plan_def fail_safe_def emit_signal_def Let_def
      split: if_splits option.splits prod.splits)

lemma health_wf_safe [simp]: "health_wf (h\<lparr>hs_safe_mode := b\<rparr>) = health_wf h"
  by (simp add: health_wf_def)

lemma health_wf_revision [simp]: "health_wf (h\<lparr>hs_revision := n\<rparr>) = health_wf h"
  by (simp add: health_wf_def)

lemma health_wf_pending_filter: "health_wf h \<Longrightarrow> health_wf (h\<lparr>hs_pending := filter P (hs_pending h)\<rparr>)"
  by (auto simp: health_wf_def list_all_iff)

lemma health_wf_pending_none: "health_wf h \<Longrightarrow> health_wf (h\<lparr>hs_pending := []\<rparr>)"
  by (simp add: health_wf_def)

lemma health_wf_quarantine: "health_wf h \<Longrightarrow> health_wf (quarantine cid dg reason h)"
  by (simp add: health_wf_def quarantine_def quarantine_record_def list_all_om_insert Let_def)

lemma quarantine_fields [simp]:
  "hs_pending (quarantine cid dg reason h) = hs_pending h"
  "hs_safe_mode (quarantine cid dg reason h) = hs_safe_mode h"
  by (simp_all add: quarantine_def)

lemma fold_quarantine_fields:
  "hs_safe_mode (fold (\<lambda>a. quarantine (pa_component_id a) (pa_package_digest a) reason) xs h) = hs_safe_mode h"
  "health_wf h \<Longrightarrow> health_wf (fold (\<lambda>a. quarantine (pa_component_id a) (pa_package_digest a) reason) xs h)"
  by (induction xs arbitrary: h) (simp_all add: health_wf_quarantine)

lemma quarantine_all_fields [simp]:
  "hs_pending (quarantine_all reason h) = []"
  "hs_safe_mode (quarantine_all reason h) = hs_safe_mode h"
  "health_wf h \<Longrightarrow> health_wf (quarantine_all reason h)"
  by (simp_all add: quarantine_all_def fold_quarantine_fields health_wf_pending_none)

lemma health_wf_drop: "health_wf h \<Longrightarrow> health_wf (h\<lparr>hs_records := om_remove k (hs_records h)\<rparr>)"
  by (auto simp: health_wf_def om_remove_def list_all_iff)

lemma remaining_pending_filter:
  "remaining_pending p c = [] \<or> remaining_pending p c = filter (\<lambda>(x, a). matches_pending p x a) (hs_pending (pc_health c))"
  by (simp add: remaining_pending_def)

lemma remaining_pending_matches:
  "list_all (\<lambda>e. matches_pending p (fst e) (snd e)) (remaining_pending p c)"
  by (auto simp: remaining_pending_def list_all_iff)

lemma prepare_pending_effect:
  assumes p: "prepare_pending E p c = (ok, e, c')" and wf: "health_wf (pc_health c)"
  shows "same_plan c c'" "health_wf (pc_health c')" "hs_records (pc_health c') = hs_records (pc_health c)"
    "ok \<Longrightarrow> e = [] \<and> hs_pending (pc_health c') = remaining_pending p c
      \<and> pc_probation c' = (hs_pending (pc_health c') \<noteq> []) \<and> hs_safe_mode (pc_health c') = hs_safe_mode (pc_health c)"
    "\<not> ok \<Longrightarrow> hs_safe_mode (pc_health c')"
    "pc_health c = empty_health \<Longrightarrow> pc_health c' = empty_health"
proof -
  let ?n = "(pc_health c)\<lparr>hs_pending := remaining_pending p c\<rparr>"
  have wfn: "health_wf ?n"
    using remaining_pending_filter [of p c] wf health_wf_pending_none health_wf_pending_filter by metis
  have "same_plan c c' \<and> health_wf (pc_health c') \<and> hs_records (pc_health c') = hs_records (pc_health c)
    \<and> (ok \<longrightarrow> e = [] \<and> hs_pending (pc_health c') = remaining_pending p c
      \<and> pc_probation c' = (hs_pending (pc_health c') \<noteq> []) \<and> hs_safe_mode (pc_health c') = hs_safe_mode (pc_health c))
    \<and> (\<not> ok \<longrightarrow> hs_safe_mode (pc_health c')) \<and> (pc_health c = empty_health \<longrightarrow> pc_health c' = empty_health)"
  proof (cases "?n = pc_health c")
    case True
    then have "hs_pending (pc_health c) = remaining_pending p c" by (metis health_state.select_convs(4) health_state.surjective health_state.update_convs(4))
    with True p wf show ?thesis by (auto simp: prepare_pending_def same_plan_def)
  next
    case False
    then have "pc_health c \<noteq> empty_health" by (auto simp: remaining_pending_def empty_health_def split: if_splits)
    obtain k f d where d: "commit_health E ?n c = (k, f, d)" by (metis prod_cases3)
    note effect = commit_health_effect [OF d]
    show ?thesis
      using p False d effect wf wfn \<open>pc_health c \<noteq> empty_health\<close>
      by (cases k) (auto simp: prepare_pending_def same_plan_def)
  qed
  then show "same_plan c c'" "health_wf (pc_health c')" "hs_records (pc_health c') = hs_records (pc_health c)"
    "ok \<Longrightarrow> e = [] \<and> hs_pending (pc_health c') = remaining_pending p c
      \<and> pc_probation c' = (hs_pending (pc_health c') \<noteq> []) \<and> hs_safe_mode (pc_health c') = hs_safe_mode (pc_health c)"
    "\<not> ok \<Longrightarrow> hs_safe_mode (pc_health c')"
    "pc_health c = empty_health \<Longrightarrow> pc_health c' = empty_health"
    by blast+
qed

section \<open>Publishing\<close>

lemma same_plan_safe:
  "same_plan c c' \<Longrightarrow> third_party_safe_mode c' = (hs_safe_mode (pc_health c') \<or> \<not> pc_health_initialized c)"
  by (simp add: third_party_safe_mode_def same_plan_def)

lemma core_inv_same_plan:
  assumes "core_inv E c" "same_plan c c'" "health_wf (pc_health c')"
    and "\<not> pc_health_initialized c \<Longrightarrow> pc_health c' = empty_health"
  shows "core_inv E c'"
  using assms by (auto simp: core_inv_def same_plan_def)

lemma emit_signal_fields [simp]:
  "pc_state (emit_signal x c) = pc_state c" "pc_artifact (emit_signal x c) = pc_artifact c"
  "pc_catalog (emit_signal x c) = pc_catalog c" "pc_configuration (emit_signal x c) = pc_configuration c"
  "pc_store (emit_signal x c) = pc_store c" "pc_fs (emit_signal x c) = pc_fs c"
  "pc_health (emit_signal x c) = pc_health c" "pc_probation (emit_signal x c) = pc_probation c"
  "pc_health_initialized (emit_signal x c) = pc_health_initialized c"
  "third_party_safe_mode (emit_signal x c) = third_party_safe_mode c"
  by (simp_all add: emit_signal_def third_party_safe_mode_def)

lemma controller_inv_emit [simp]: "controller_inv E (emit_signal x c) = controller_inv E c"
  by (cases "pc_artifact c")
    (simp_all add: controller_inv_def core_inv_def artifact_inv_def pending_watched_def)

lemma controller_inv_fs [simp]: "controller_inv E (c\<lparr>pc_fs := d\<rparr>) = controller_inv E c"
proof -
  have "core_inv E (c\<lparr>pc_fs := d\<rparr>) = core_inv E c" by (simp add: core_inv_def)
  moreover have "artifact_inv (c\<lparr>pc_fs := d\<rparr>) = artifact_inv c"
    by (simp add: artifact_inv_def third_party_safe_mode_def split: option.split)
  moreover have "pending_watched (c\<lparr>pc_fs := d\<rparr>) = pending_watched c"
    by (simp add: pending_watched_def third_party_safe_mode_def split: option.split)
  ultimately show ?thesis by (simp add: controller_inv_def)
qed

lemma load_health_wf:
  assumes "load E P d = (r, d')"
  shows "health_wf (lr_state r)"
proof (cases "lr_success r")
  case False
  then show ?thesis using load_sound(2) [OF assms] by (simp add: health_wf_def safe_mode_health_def)
next
  case True
  then have "snapshot E P d = Some (lr_state r)" by (rule load_sound(1) [OF assms])
  then have "health_ok (lr_state r)" by (rule snapshot_health_ok)
  then show ?thesis
    by (auto simp: health_wf_def health_ok_def list_all_iff record_entry_ok_def record_ok_def pending_entry_ok_def)
qed

context plan_codec
begin

lemma publishedI: "canonical_plan p \<Longrightarrow> make_surface_plan_artifact E p = vr_accept a \<Longrightarrow> published E a"
  using carries by (simp add: published_def)

lemma make_ok: "vr_ok (make_surface_plan_artifact E p) \<Longrightarrow> \<exists>a. make_surface_plan_artifact E p = vr_accept a"
  by (rule make_surface_plan_artifact_cases [of E p]) simp_all

text \<open>A successful publication.\<close>

lemma publish_core_done:
  assumes pub: "publish_core E p st allow err c = Inr (done, c')"
    and core: "core_inv E c" and canon: "canonical_plan p" and st: "st \<in> {Authoritative, Retained}"
    and src: "st = Authoritative \<Longrightarrow> pc_catalog c \<noteq> None" and retained: "st = Retained \<Longrightarrow> \<not> allow"
  shows "controller_inv E c'" "pc_state c' = st" "pc_artifact c' \<noteq> None"
proof -
  define p1 where "p1 = shown_plan allow c p"
  obtain ready herr c1 where prep: "prepare_pending E p1 c = (ready, herr, c1)" by (metis prod_cases3)
  define p2 where "p2 = (if ready then p1 else strip_third_party p1)"
  have wf: "health_wf (pc_health c)" using core by (simp add: core_inv_def)
  note effect = prepare_pending_effect [OF prep wf]
  have art: "publish_artifact E p2 st err herr c1 = Inr (done, c')"
    using pub by (simp add: publish_core_def p1_def [symmetric] prep p2_def [symmetric])
  obtain a where a: "make_surface_plan_artifact E p2 = vr_accept a"
    using art make_ok [of p2] by (cases "vr_ok (make_surface_plan_artifact E p2)") (auto simp: publish_artifact_def Let_def)
  define c2 where "c2 = c1\<lparr>pc_artifact := Some a, pc_state := st, pc_last_error := if herr \<noteq> [] then herr else err\<rparr>"
  have c': "c' = c2 \<or> c' = emit_signal RuntimeChanged c2"
    using art by (auto simp: publish_artifact_def a c2_def Let_def split: if_splits)
  have canon2: "canonical_plan p2" using canon by (simp add: p2_def p1_def shown_plan_def canonical_filters)
  then have a2: "art_plan a = p2" using a by (rule carries)
  have safe1: "third_party_safe_mode c1 \<longleftrightarrow> hs_safe_mode (pc_health c1) \<or> \<not> pc_health_initialized c"
    by (rule same_plan_safe [OF effect(1)])
  have builtin: "builtin_only p2" if "third_party_safe_mode c1 \<or> \<not> allow"
  proof (cases ready)
    case True
    then have "third_party_safe_mode c \<or> \<not> allow"
      using that effect(4) safe1 by (auto simp: third_party_safe_mode_def)
    with True show ?thesis by (auto simp: p2_def p1_def shown_plan_def builtin_only_strip)
  qed (simp add: p2_def builtin_only_strip)
  have noq: "no_quarantined (pc_health c1) p2"
  proof (cases "third_party_safe_mode c1 \<or> \<not> allow")
    case False
    then have "ready" "p2 = filter_quarantined (pc_health c) p"
      using effect(4,5) safe1 by (auto simp: p2_def p1_def shown_plan_def third_party_safe_mode_def)
    then show ?thesis using no_quarantined_filter no_quarantined_records [OF effect(3)] by metis
  qed (simp add: builtin no_quarantined_builtin)
  have watched: "third_party_safe_mode c1 \<or> hs_pending (pc_health c1) = []
    \<or> pc_probation c1 \<and> list_all (\<lambda>e. matches_pending p2 (fst e) (snd e)) (hs_pending (pc_health c1))"
  proof (cases "third_party_safe_mode c1")
    case False
    then have ready using effect(5) safe1 by blast
    then show ?thesis using effect(4) remaining_pending_matches [of p1 c] by (auto simp: p2_def)
  qed simp
  have core1: "core_inv E c1"
    using core_inv_same_plan [OF core effect(1,2)] effect(6) core by (auto simp: core_inv_def)
  have same: "pc_health c2 = pc_health c1" "pc_probation c2 = pc_probation c1" "pc_artifact c2 = Some a"
    "pc_state c2 = st" "pc_catalog c2 = pc_catalog c1" "pc_configuration c2 = pc_configuration c1"
    "pc_health_initialized c2 = pc_health_initialized c1" "third_party_safe_mode c2 = third_party_safe_mode c1"
    "pc_catalog c1 = pc_catalog c"
    using effect(1) by (simp_all add: c2_def third_party_safe_mode_def same_plan_def)
  have inv2: "controller_inv E c2"
    using core1 publishedI [OF canon2 a] noq builtin watched st src retained
    by (auto simp: controller_inv_def core_inv_def artifact_inv_def pending_watched_def same a2)
  from c' inv2 show "controller_inv E c'" by auto
  show "pc_state c' = st" "pc_artifact c' \<noteq> None"
    using c' same by auto
qed

text \<open>A publication whose artifact is refused: only the health state may have changed.\<close>

lemma publish_core_refused:
  assumes pub: "publish_core E p st allow err c = Inl (e, c')" and core: "core_inv E c"
  shows "core_inv E c'" "same_plan c c'"
proof -
  obtain ready herr c1 where prep: "prepare_pending E (shown_plan allow c p) c = (ready, herr, c1)" by (metis prod_cases3)
  have wf: "health_wf (pc_health c)" using core by (simp add: core_inv_def)
  note effect = prepare_pending_effect [OF prep wf]
  have "c' = c1" using pub by (simp add: publish_core_def prep publish_artifact_def Let_def split: if_splits)
  then show "same_plan c c'" "core_inv E c'"
    using effect core_inv_same_plan [OF core effect(1,2)] core by (auto simp: core_inv_def)
qed

text \<open>A published plan can always be published again without its third-party instances.\<close>

lemma retained_not_refused:
  assumes "published E a"
  shows "\<exists>r. publish_core E (art_plan a) Retained False err c = Inr r"
proof -
  let ?p = "art_plan a"
  obtain ready herr c1 where prep: "prepare_pending E (strip_third_party ?p) c = (ready, herr, c1)" by (metis prod_cases3)
  have c: "canonical_plan ?p" and m: "make_surface_plan_artifact E ?p = vr_accept a"
    using assms by (simp_all add: published_def)
  have ok1: "vr_ok (make_surface_plan_artifact E (strip_third_party ?p))"
    using removes [OF c m] by (simp add: strip_third_party_def)
  then obtain b where b: "make_surface_plan_artifact E (strip_third_party ?p) = vr_accept b"
    using make_ok by blast
  have "vr_ok (make_surface_plan_artifact E (strip_third_party (strip_third_party ?p)))"
    using removes [OF canonical_filters(1) [OF c] b] by (simp add: strip_third_party_def)
  with ok1 show ?thesis by (simp add: publish_core_def shown_plan_def prep publish_artifact_def Let_def)
qed

lemma set_failed_state_inv:
  assumes core: "core_inv E c"
  shows "controller_inv E (set_failed_state E err c)"
proof (cases "pc_artifact c")
  case None
  have wf: "health_wf (pc_health c)" using core by (simp add: core_inv_def)
  obtain ready herr c1 where prep: "prepare_pending E empty_plan c = (ready, herr, c1)" by (metis prod_cases3)
  note effect = prepare_pending_effect [OF prep wf]
  have none: "remaining_pending empty_plan c = []"
    by (simp add: remaining_pending_def matches_pending_def empty_plan_def)
  have core1: "core_inv E c1"
    using core_inv_same_plan [OF core effect(1,2)] effect(6) core by (auto simp: core_inv_def)
  have "pending_watched c1"
    using effect(4,5) none by (cases ready) (auto simp: pending_watched_def third_party_safe_mode_def)
  with core1 effect(1) None show ?thesis
    by (auto simp: set_failed_state_def prep Let_def controller_inv_def core_inv_def artifact_inv_def
        pending_watched_def third_party_safe_mode_def same_plan_def emit_signal_def)
next
  case (Some a)
  then have pub: "published E a" using core by (simp add: core_inv_def)
  then obtain r where r: "publish_core E (art_plan a) Retained False err c = Inr r"
    using retained_not_refused by blast
  obtain k c1 where "r = (k, c1)" by force
  with publish_core_done [OF r [unfolded this] core] pub Some r show ?thesis
    by (simp add: set_failed_state_def published_def)
qed

lemma publish_plan_inv:
  assumes core: "core_inv E c" and canon: "canonical_plan p" and src: "pc_catalog c \<noteq> None"
  shows "controller_inv E (snd (publish_plan E p Authoritative True err c))"
proof (cases "publish_core E p Authoritative True err c")
  case (Inl x)
  obtain e c1 where "x = (e, c1)" by force
  with Inl publish_core_refused(1) [OF Inl [unfolded this] core] set_failed_state_inv show ?thesis
    by (simp add: publish_plan_def)
next
  case (Inr x)
  obtain k c1 where "x = (k, c1)" by force
  with Inr publish_core_done(1) [OF Inr [unfolded this] core canon] src show ?thesis
    by (simp add: publish_plan_def)
qed

lemma rebuild_inv:
  assumes core: "core_inv E c" and src: "pc_catalog c \<noteq> None"
  shows "controller_inv E (rebuild_authoritative_plan E c)"
proof -
  from core src obtain cat conf where sc: "pc_catalog c = Some cat" "pc_configuration c = Some conf"
    and ok: "vr_ok (build_surface_plan E cat conf)"
    by (auto simp: core_inv_def split: option.splits)
  from ok obtain p where p: "build_surface_plan E cat conf = vr_accept p" "canonical_plan p"
    by (rule build_surface_plan_accepts)
  show ?thesis
    using publish_plan_inv [OF core p(2) src, of "[]"] by (simp add: rebuild_authoritative_plan_def sc p)
qed

section \<open>The handlers keep the invariant\<close>

text \<open>A commit while no third-party instance is published.\<close>

lemma commit_inv:
  assumes core: "core_inv E c" and art: "artifact_inv c" and commit: "commit_health E n c = (ok, e, c')"
    and st: "pc_state c \<noteq> Authoritative \<or> third_party_safe_mode c" and init: "pc_health_initialized c"
    and wf: "health_wf n" and safe: "hs_safe_mode n = hs_safe_mode (pc_health c)"
    and pend: "pending_watched c \<and> hs_pending n = hs_pending (pc_health c) \<or> hs_pending n = []"
  shows "controller_inv E c'"
proof -
  note effect = commit_health_effect [OF commit]
  have core': "core_inv E c'"
    using core_inv_same_plan [OF core effect(1)] effect(2,3) core wf init by (cases ok) (auto simp: core_inv_def)
  have bo: "\<And>a. pc_artifact c = Some a \<Longrightarrow> builtin_only (art_plan a)"
    using art st by (auto simp: artifact_inv_def)
  have art': "artifact_inv c'"
    using art effect(1) bo by (auto simp: artifact_inv_def same_plan_def no_quarantined_builtin split: option.split)
  have "pending_watched c'"
  proof (cases ok)
    case True
    with effect(1,2) safe pend show ?thesis
      by (cases "pc_artifact c") (auto simp: pending_watched_def third_party_safe_mode_def same_plan_def)
  next
    case False
    with effect(3) show ?thesis by (auto simp: pending_watched_def third_party_safe_mode_def)
  qed
  with core' art' show ?thesis by (simp add: controller_inv_def)
qed

text \<open>A commit keeps the core of the invariant.\<close>

lemma commit_core:
  assumes core: "core_inv E c" and commit: "commit_health E n c = (ok, e, c')" and wf: "health_wf n"
    and init: "pc_health_initialized c"
  shows "core_inv E c'" "same_plan c c'"
proof -
  note effect = commit_health_effect [OF commit]
  have "health_wf (pc_health c)" using core by (simp add: core_inv_def)
  then have "health_wf (pc_health c')" using effect(2,3) wf by (cases ok) simp_all
  then show "core_inv E c'" using core_inv_same_plan [OF core effect(1)] init by simp
  show "same_plan c c'" by (rule effect(1))
qed

lemma not_safe_initialized: "\<not> third_party_safe_mode c \<Longrightarrow> pc_health_initialized c"
  by (simp add: third_party_safe_mode_def)

lemma empty_health_uninitialized:
  "core_inv E c \<Longrightarrow> pc_health c \<noteq> empty_health \<Longrightarrow> pc_health_initialized c"
  by (auto simp: core_inv_def)

lemma initialize_inv:
  assumes inv: "controller_inv E c" and i: "initialize_runtime_health E c = (ok, e, c')"
  shows "controller_inv E c'"
proof (cases "pc_health_initialized c \<or> pc_store c = None")
  case True
  with i inv show ?thesis by (auto simp: initialize_runtime_health_def split: option.splits)
next
  case False
  then obtain P inject where store: "pc_store c = Some (P, inject)" and un: "\<not> pc_health_initialized c" by auto
  obtain loaded d where l: "load E P (pc_fs c) = (loaded, d)" by force
  define c1 where "c1 = c\<lparr>pc_fs := d, pc_health := lr_state loaded, pc_health_initialized := True\<rparr>"
  have bo: "pc_artifact c = Some a \<Longrightarrow> builtin_only (art_plan a)" for a
    using inv un by (auto simp: controller_inv_def artifact_inv_def third_party_safe_mode_def)
  have wf: "health_wf (lr_state loaded)" by (rule load_health_wf [OF l])
  have core1: "core_inv E c1" using inv wf by (auto simp: controller_inv_def core_inv_def c1_def)
  have art1: "artifact_inv c1"
    using inv bo by (auto simp: controller_inv_def artifact_inv_def c1_def no_quarantined_builtin split: option.splits)
  consider "\<not> lr_success loaded" | "lr_success loaded" "hs_pending (lr_state loaded) = []"
    | "lr_success loaded" "hs_pending (lr_state loaded) \<noteq> []" by blast
  then show ?thesis
  proof cases
    case 1
    then have c': "c' = emit_signal RuntimeHealthChanged (c1\<lparr>pc_health := (pc_health c1)\<lparr>hs_safe_mode := True\<rparr>\<rparr>)"
      using i un store l by (simp add: initialize_runtime_health_def c1_def Let_def)
    have "controller_inv E (c1\<lparr>pc_health := (pc_health c1)\<lparr>hs_safe_mode := True\<rparr>\<rparr>)"
      using core1 art1 bo
      by (cases "pc_artifact c")
        (auto simp: controller_inv_def core_inv_def artifact_inv_def pending_watched_def third_party_safe_mode_def
          c1_def no_quarantined_builtin)
    then show ?thesis by (simp add: c')
  next
    case 2
    then have c': "c' = emit_signal RuntimeHealthChanged c1"
      using i un store l by (simp add: initialize_runtime_health_def c1_def Let_def)
    have "pending_watched c1" using 2 by (simp add: pending_watched_def c1_def)
    with core1 art1 have "controller_inv E c1" by (simp add: controller_inv_def)
    then show ?thesis by (simp add: c')
  next
    case 3
    obtain k f c2 where cm: "commit_health E (quarantine_all (Q ''incomplete-startup'') (pc_health c1)) c1 = (k, f, c2)"
      by (metis prod_cases3)
    have c': "c' = c2"
      using i un store l 3 cm by (auto simp: initialize_runtime_health_def c1_def Let_def split: if_splits)
    note effect = commit_health_effect [OF cm]
    have core2: "core_inv E c2"
      using commit_core(1) [OF core1 cm] core1 by (simp add: core_inv_def c1_def)
    have "artifact_inv c2"
      using art1 bo effect(1)
      by (auto simp: artifact_inv_def c1_def same_plan_def no_quarantined_builtin split: option.splits)
    moreover have "pending_watched c2"
      using effect(2,3) by (cases k) (auto simp: pending_watched_def third_party_safe_mode_def)
    ultimately show ?thesis using core2 by (simp add: c' controller_inv_def)
  qed
qed

lemma begin_hydration_inv:
  assumes inv: "controller_inv E c"
  shows "controller_inv E (begin_hydration E c)"
proof (cases "pc_artifact c")
  case None
  have "controller_inv E (c\<lparr>pc_state := Hydrating, pc_last_error := []\<rparr>)"
    using inv None
    by (auto simp: controller_inv_def core_inv_def artifact_inv_def pending_watched_def third_party_safe_mode_def)
  with None show ?thesis by (simp add: begin_hydration_def Let_def)
next
  case (Some a)
  have core: "core_inv E c" and pub: "published E a"
    using inv Some by (auto simp: controller_inv_def core_inv_def)
  then obtain r where r: "publish_core E (art_plan a) Retained False [] c = Inr r"
    using retained_not_refused by blast
  obtain k c1 where k: "r = (k, c1)" by force
  with publish_core_done(1) [OF r [unfolded k] core] pub Some r show ?thesis
    by (simp add: begin_hydration_def publish_plan_def published_def)
qed

lemma accept_snapshots_inv:
  assumes inv: "controller_inv E c"
  shows "controller_inv E (snd (accept_snapshots E cat conf c))"
proof (cases "vr_ok (build_surface_plan E cat conf)")
  case False
  then show ?thesis
    using inv set_failed_state_inv by (simp add: accept_snapshots_def Let_def controller_inv_def)
next
  case True
  then obtain p where p: "build_surface_plan E cat conf = vr_accept p" "canonical_plan p"
    by (rule build_surface_plan_accepts)
  have "core_inv E (c\<lparr>pc_catalog := Some cat, pc_configuration := Some conf\<rparr>)"
    using inv True by (auto simp: controller_inv_def core_inv_def)
  from publish_plan_inv [OF this p(2)] show ?thesis by (simp add: accept_snapshots_def p)
qed

text \<open>After a commit in the authoritative state the plan is rebuilt or was left as it was.\<close>

lemma commit_rebuild_inv:
  assumes core: "core_inv E c" and commit: "commit_health E n c = (ok, e, c')"
    and wf: "health_wf n" and init: "pc_health_initialized c" and src: "pc_catalog c \<noteq> None"
  shows "controller_inv E (rebuild_authoritative_plan E c')"
proof -
  note core1 = commit_core [OF core commit wf init]
  show ?thesis using rebuild_inv [OF core1(1)] core1(2) src by (simp add: same_plan_def)
qed

lemma commit_rebuild_anywhere_inv:
  assumes core: "core_inv E c" and art: "artifact_inv c" and commit: "commit_health E n c = (ok, e, c')"
    and wf: "health_wf n" and init: "pc_health_initialized c"
    and safe: "hs_safe_mode n = hs_safe_mode (pc_health c)"
    and pend: "pending_watched c \<and> hs_pending n = hs_pending (pc_health c) \<or> hs_pending n = []"
  shows "controller_inv E (rebuild_authoritative_plan E c')"
proof (cases "pc_catalog c = None")
  case False
  then show ?thesis using commit_rebuild_inv [OF core commit wf init] by blast
next
  case True
  then have "pc_state c \<noteq> Authoritative" using art by (auto simp: artifact_inv_def)
  then have "controller_inv E c'" using commit_inv [OF core art commit _ init wf safe pend] by blast
  moreover have "pc_catalog c' = None" using commit_health_effect(1) [OF commit] True by (simp add: same_plan_def)
  ultimately show ?thesis by (simp add: rebuild_authoritative_plan_def)
qed

lemma retry_component_inv:
  assumes inv: "controller_inv E c" and r: "retry_component E cid dg revision c = (ok, e, c')"
  shows "controller_inv E c'"
proof (cases "revision = hs_revision (pc_health c) \<and> is_quarantined (pc_health c) cid dg")
  case False
  with r inv show ?thesis by (auto simp: retry_component_def split: if_splits)
next
  case True
  define n where "n = (pc_health c)\<lparr>hs_records := om_remove (record_key cid dg) (hs_records (pc_health c))\<rparr>"
  obtain k f c1 where cm: "commit_health E n c = (k, f, c1)" by (metis prod_cases3)
  have core: "core_inv E c" and art: "artifact_inv c" and watch: "pending_watched c"
    using inv by (simp_all add: controller_inv_def)
  have wf: "health_wf n" using core health_wf_drop by (simp add: n_def core_inv_def)
  have "pc_health c \<noteq> empty_health" using True by (auto simp: is_quarantined_def empty_health_def)
  then have init: "pc_health_initialized c" using core empty_health_uninitialized by blast
  have "controller_inv E (rebuild_authoritative_plan E c1)"
    by (rule commit_rebuild_anywhere_inv [OF core art cm wf init]) (simp_all add: n_def watch)
  moreover have "c' = rebuild_authoritative_plan E c1"
    using r True cm by (auto simp: retry_component_def n_def [symmetric] split: if_splits)
  ultimately show ?thesis by simp
qed

lemma quarantine_pending_inv:
  assumes core: "core_inv E c" and art: "artifact_inv c" and p: "hs_pending (pc_health c) \<noteq> []"
  shows "controller_inv E (quarantine_pending E reason c)"
proof -
  obtain k f c1 where cm: "commit_health E (quarantine_all reason (pc_health c)) c = (k, f, c1)" by (metis prod_cases3)
  have "pc_health c \<noteq> empty_health" using p by (auto simp: empty_health_def)
  then have init: "pc_health_initialized c" using core empty_health_uninitialized by blast
  have wf: "health_wf (quarantine_all reason (pc_health c))" using core by (simp add: core_inv_def)
  have "controller_inv E (rebuild_authoritative_plan E c1)"
    by (rule commit_rebuild_anywhere_inv [OF core art cm wf init]) simp_all
  then show ?thesis using p cm by (simp add: quarantine_pending_def)
qed

lemma probation_timeout_inv:
  assumes inv: "controller_inv E c"
  shows "controller_inv E (probation_timeout E c)"
proof -
  let ?c = "c\<lparr>pc_probation := False\<rparr>"
  have core: "core_inv E ?c" and art: "artifact_inv ?c"
    using inv by (cases "pc_artifact c"; auto simp: controller_inv_def core_inv_def artifact_inv_def third_party_safe_mode_def)+
  show ?thesis
  proof (cases "hs_pending (pc_health c) = []")
    case True
    then have "pending_watched ?c" by (simp add: pending_watched_def)
    with core art True show ?thesis by (simp add: probation_timeout_def quarantine_pending_def controller_inv_def)
  next
    case False
    then show ?thesis using quarantine_pending_inv [OF core art] by (simp add: probation_timeout_def)
  qed
qed

text \<open>A commit that keeps the records and leaves only activations that the published plan shows.\<close>

lemma commit_pending_inv:
  assumes inv: "controller_inv E c" and ok: "ok"
    and commit: "commit_health E ((pc_health c)\<lparr>hs_pending := m\<rparr>) c = (ok, e, c')"
    and wf: "health_wf ((pc_health c)\<lparr>hs_pending := m\<rparr>)" and init: "pc_health_initialized c"
    and a: "pc_artifact c = Some a"
    and shown: "third_party_safe_mode c \<or> m = [] \<or> t \<and> list_all (\<lambda>e. matches_pending (art_plan a) (fst e) (snd e)) m"
  shows "controller_inv E (c'\<lparr>pc_probation := t\<rparr>)"
proof -
  note effect = commit_health_effect(1) [OF commit] commit_health_effect(2) [OF commit ok]
  have core: "core_inv E c" and art: "artifact_inv c" using inv by (simp_all add: controller_inv_def)
  have safe: "third_party_safe_mode c' = third_party_safe_mode c"
    using effect by (simp add: third_party_safe_mode_def same_plan_def)
  have "core_inv E (c'\<lparr>pc_probation := t\<rparr>)"
    using commit_core(1) [OF core commit wf init] by (simp add: core_inv_def)
  moreover have "artifact_inv (c'\<lparr>pc_probation := t\<rparr>)"
    using art effect a safe no_quarantined_records [of "pc_health c'" "pc_health c"]
    by (simp add: artifact_inv_def same_plan_def third_party_safe_mode_def)
  moreover have "pending_watched (c'\<lparr>pc_probation := t\<rparr>)"
    using effect a safe shown by (auto simp: pending_watched_def same_plan_def third_party_safe_mode_def)
  ultimately show ?thesis by (simp add: controller_inv_def)
qed

end

end
