(* ===== verification/Plan_Machine.thy ===== *)
theory Plan_Machine
  imports Plan_Lifecycle
begin

text \<open>
  The messages of the renderer, and the plan controller as a transition system: every member
  function that the service, the hydrator or the probation timer calls is a step. The controller
  invariant holds in every reachable state, also when another process changes the health files
  between two steps.
\<close>

section \<open>Authorisation\<close>

lemma authorize_instances_ok:
  assumes "authorize_instances h p xs m = Inr m'" and "om_inv m" and "list_all P m"
    and "\<And>x i. map_of (sp_instances p) x = Some i \<Longrightarrow> si_runtime_kind i = declarative_kind \<Longrightarrow>
      P (x, \<lparr>pa_instance_id = x, pa_component_id = si_component_id i, pa_package_digest = si_package_digest i\<rparr>)"
  shows "om_inv m' \<and> list_all P m'"
  using assms
proof (induction h p xs m rule: authorize_instances.induct)
  case (1 h p m)
  then show ?case by simp
next
  case (2 h p x xs m)
  show ?case
  proof (cases "map_of (sp_instances p) x")
    case None
    with 2 show ?thesis by simp
  next
    case (Some i)
    show ?thesis
    proof (cases "si_runtime_kind i = declarative_kind")
      case False
      with 2 Some show ?thesis by simp
    next
      case True
      with 2 Some show ?thesis by (auto simp: list_all_om_insert split: if_splits)
    qed
  qed
qed

lemma health_wf_pending:
  "health_wf h \<Longrightarrow> om_inv m \<Longrightarrow> list_all (\<lambda>e. pa_instance_id (snd e) = fst e) m \<Longrightarrow> health_wf (h\<lparr>hs_pending := m\<rparr>)"
  by (simp add: health_wf_def)

context plan_codec
begin

lemma authorize_inv:
  assumes inv: "controller_inv E c" and r: "authorize_surface_plan E order revision c = (ok, e, c')"
  shows "controller_inv E c'"
proof (cases "\<exists>a. pc_artifact c = Some a \<and> \<not> third_party_safe_mode c \<and> pc_state c = Authoritative
    \<and> art_revision a = revision \<and> (\<exists>m. authorize_instances (pc_health c) (art_plan a) order (hs_pending (pc_health c)) = Inr m)")
  case False
  with r inv show ?thesis
    by (auto simp: authorize_surface_plan_def Let_def split: option.splits if_splits sum.splits)
next
  case True
  then obtain a m where a: "pc_artifact c = Some a" and safe: "\<not> third_party_safe_mode c"
    and st: "pc_state c = Authoritative" "art_revision a = revision"
    and m: "authorize_instances (pc_health c) (art_plan a) order (hs_pending (pc_health c)) = Inr m" by blast
  have core: "core_inv E c" and art: "artifact_inv c" and watch: "pending_watched c"
    using inv by (simp_all add: controller_inv_def)
  have src: "pc_catalog c \<noteq> None" using art st by (simp add: artifact_inv_def)
  have init: "pc_health_initialized c" by (rule not_safe_initialized [OF safe])
  have hwf: "health_wf (pc_health c)" using core by (simp add: core_inv_def)
  have "list_all (\<lambda>e. matches_pending (art_plan a) (fst e) (snd e)) (hs_pending (pc_health c))"
    using watch safe a by (auto simp: pending_watched_def)
  then have "list_all (\<lambda>e. pa_instance_id (snd e) = fst e \<and> matches_pending (art_plan a) (fst e) (snd e)) (hs_pending (pc_health c))"
    using hwf by (simp add: health_wf_def list_all_iff)
  moreover have "om_inv (hs_pending (pc_health c))" using hwf by (simp add: health_wf_def)
  ultimately have m_ok: "om_inv m \<and> list_all (\<lambda>e. pa_instance_id (snd e) = fst e \<and> matches_pending (art_plan a) (fst e) (snd e)) m"
    by (intro authorize_instances_ok [OF m]) (simp_all add: matches_pending_def)
  then have wf: "health_wf ((pc_health c)\<lparr>hs_pending := m\<rparr>)"
    and shown: "list_all (\<lambda>e. matches_pending (art_plan a) (fst e) (snd e)) m"
    using health_wf_pending [OF hwf] by (simp_all add: list_all_iff)
  show ?thesis
  proof (cases "(pc_health c)\<lparr>hs_pending := m\<rparr> = pc_health c")
    case True
    then have "c' = c\<lparr>pc_probation := pc_probation c \<or> hs_pending (pc_health c) \<noteq> []\<rparr>"
      using r a safe st m by (simp add: authorize_surface_plan_def)
    then show ?thesis
      using inv a by (auto simp: controller_inv_def core_inv_def artifact_inv_def pending_watched_def third_party_safe_mode_def)
  next
    case False
    obtain k f c1 where cm: "commit_health E ((pc_health c)\<lparr>hs_pending := m\<rparr>) c = (k, f, c1)" by (metis prod_cases3)
    have c': "c' = (if k then c1\<lparr>pc_probation := True\<rparr> else rebuild_authoritative_plan E c1)"
      using r a safe st m False cm by (auto simp: authorize_surface_plan_def split: if_splits)
    show ?thesis
    proof (cases k)
      case True
      then show ?thesis
        using commit_pending_inv [OF inv True cm wf init a, of True] shown c' by simp
    next
      case False
      then show ?thesis using commit_rebuild_inv [OF core cm wf init src] c' by simp
    qed
  qed
qed

lemma cancel_inv:
  assumes inv: "controller_inv E c" and r: "cancel_surface_plan_authorization E revision c = (ok, e, c')"
  shows "controller_inv E c'"
proof (cases "\<exists>a. pc_artifact c = Some a \<and> pc_state c = Authoritative \<and> art_revision a = revision
    \<and> hs_pending (pc_health c) \<noteq> []")
  case False
  with r inv show ?thesis
    by (auto simp: cancel_surface_plan_authorization_def split: option.splits if_splits)
next
  case True
  then obtain a where a: "pc_artifact c = Some a" and st: "pc_state c = Authoritative" "art_revision a = revision"
    and p: "hs_pending (pc_health c) \<noteq> []" by blast
  have core: "core_inv E c" and art: "artifact_inv c" using inv by (simp_all add: controller_inv_def)
  have src: "pc_catalog c \<noteq> None" using art st by (simp add: artifact_inv_def)
  have "pc_health c \<noteq> empty_health" using p by (auto simp: empty_health_def)
  then have init: "pc_health_initialized c" using core empty_health_uninitialized by blast
  have wf: "health_wf ((pc_health c)\<lparr>hs_pending := []\<rparr>)"
    using core by (simp add: core_inv_def health_wf_pending_none)
  obtain k f c1 where cm: "commit_health E ((pc_health c)\<lparr>hs_pending := []\<rparr>) c = (k, f, c1)" by (metis prod_cases3)
  have c': "c' = (if k then c1\<lparr>pc_probation := False\<rparr> else rebuild_authoritative_plan E c1)"
    using r a st p cm by (auto simp: cancel_surface_plan_authorization_def split: if_splits)
  show ?thesis
  proof (cases k)
    case True
    then show ?thesis
      using commit_pending_inv [OF inv True cm wf init a, of False] c' by simp
  next
    case False
    then show ?thesis using commit_rebuild_inv [OF core cm wf init src] c' by simp
  qed
qed

lemma matching_instance_some:
  "matching_instance x cid dg revision c = Some i \<Longrightarrow> \<exists>a. pc_artifact c = Some a \<and> pc_state c = Authoritative
     \<and> art_revision a = revision \<and> map_of (sp_instances (art_plan a)) x = Some i \<and> si_runtime_kind i = declarative_kind
     \<and> si_component_id i = cid \<and> si_package_digest i = dg"
  by (auto simp: matching_instance_def split: option.splits if_splits)

text \<open>A third-party instance is only published by an initialised controller outside safe mode.\<close>

lemma matching_instance_inv:
  assumes inv: "controller_inv E c" and mi: "matching_instance x cid dg revision c = Some i"
  shows "\<not> third_party_safe_mode c" "pc_health_initialized c" "pc_catalog c \<noteq> None"
proof -
  obtain a where a: "pc_artifact c = Some a" "pc_state c = Authoritative"
    and i: "map_of (sp_instances (art_plan a)) x = Some i" "si_runtime_kind i = declarative_kind"
    using matching_instance_some [OF mi] by blast
  have "\<not> builtin_only (art_plan a)"
    using map_of_SomeD [OF i(1)] i(2) by (force simp: builtin_only_def list_all_iff)
  then show "\<not> third_party_safe_mode c" "pc_catalog c \<noteq> None"
    using inv a by (auto simp: controller_inv_def artifact_inv_def)
  then show "pc_health_initialized c" by (intro not_safe_initialized)
qed

lemma activation_stable_inv:
  assumes inv: "controller_inv E c" and r: "activation_stable E x cid dg revision c = (ok, e, c')"
  shows "controller_inv E c'"
proof (cases "c' = c")
  case True
  with inv show ?thesis by simp
next
  case False
  then obtain i where mi: "matching_instance x cid dg revision c = Some i"
    using r by (cases "matching_instance x cid dg revision c") (auto simp: activation_stable_def)
  obtain a where a: "pc_artifact c = Some a" using matching_instance_some [OF mi] by blast
  note facts = matching_instance_inv [OF inv mi]
  have core: "core_inv E c" and watch: "pending_watched c" using inv by (simp_all add: controller_inv_def)
  define m where "m = om_remove x (hs_pending (pc_health c))"
  have sub: "set m \<subseteq> set (hs_pending (pc_health c))" by (auto simp: m_def om_remove_def)
  have wf: "health_wf ((pc_health c)\<lparr>hs_pending := m\<rparr>)"
    using core sub by (auto simp: core_inv_def health_wf_def m_def list_all_iff)
  have p: "list_all (\<lambda>e. matches_pending (art_plan a) (fst e) (snd e)) m \<and> (m \<noteq> [] \<longrightarrow> pc_probation c)"
    using watch facts(1) a sub by (auto simp: pending_watched_def list_all_iff)
  obtain k f c1 where cm: "commit_health E ((pc_health c)\<lparr>hs_pending := m\<rparr>) c = (k, f, c1)" by (metis prod_cases3)
  note effect = commit_health_effect [OF cm]
  have c': "c' = (if k then (if hs_pending (pc_health c1) = [] then c1\<lparr>pc_probation := False\<rparr> else c1)
      else rebuild_authoritative_plan E c1)"
    using r False cm mi by (auto simp: activation_stable_def m_def [symmetric] split: option.splits if_splits)
  show ?thesis
  proof (cases k)
    case True
    then have "c' = c1\<lparr>pc_probation := (m \<noteq> [])\<rparr>" using c' effect(2) p by auto
    then show ?thesis
      using commit_pending_inv [OF inv True cm wf facts(2) a, of "m \<noteq> []"] p by auto
  next
    case False
    then show ?thesis using commit_rebuild_inv [OF core cm wf facts(2,3)] c' by simp
  qed
qed

lemma activation_failed_inv:
  assumes inv: "controller_inv E c" and r: "activation_failed E x cid dg revision reason c = (ok, e, c')"
  shows "controller_inv E c'"
proof (cases "c' = c")
  case True
  with inv show ?thesis by simp
next
  case False
  then obtain i where mi: "matching_instance x cid dg revision c = Some i"
    using r by (cases "matching_instance x cid dg revision c") (auto simp: activation_failed_def split: if_splits)
  note facts = matching_instance_inv [OF inv mi]
  have core: "core_inv E c" using inv by (simp add: controller_inv_def)
  define n where "n = (quarantine cid dg reason (pc_health c))
    \<lparr>hs_pending := drop_package cid dg (hs_pending (pc_health c))\<rparr>"
  have wf: "health_wf n"
    using core health_wf_pending_filter [OF health_wf_quarantine]
    by (fastforce simp: n_def drop_package_def core_inv_def)
  obtain k f c1 where cm: "commit_health E n c = (k, f, c1)" by (metis prod_cases3)
  have "c' = rebuild_authoritative_plan E c1"
    using r False cm mi by (auto simp: activation_failed_def n_def [symmetric] Let_def split: if_splits)
  then show ?thesis using commit_rebuild_inv [OF core cm wf facts(2,3)] by simp
qed

lemma failed_state_inv: "controller_inv E c \<Longrightarrow> controller_inv E (set_failed_state E err c)"
  using set_failed_state_inv by (simp add: controller_inv_def)

end

section \<open>The transition system\<close>

inductive controller_step :: "qt_env \<Rightarrow> controller \<Rightarrow> controller \<Rightarrow> bool" for E where
  Initialize: "initialize_runtime_health E c = (ok, e, c') \<Longrightarrow> controller_step E c c'"
| Hydrate: "controller_step E c (begin_hydration E c)"
| Accept: "accept_snapshots E cat conf c = (ok, c') \<Longrightarrow> controller_step E c c'"
| Hydration_failed: "controller_step E c (hydration_failed E err c)"
| Source_unavailable: "controller_step E c (source_unavailable E err c)"
| Authorize: "authorize_surface_plan E order revision c = (ok, e, c') \<Longrightarrow> distinct order \<Longrightarrow>
    pc_artifact c = Some a \<Longrightarrow> set order = set (renderable_ids (art_plan a)) \<Longrightarrow> controller_step E c c'"
| Cancel: "cancel_surface_plan_authorization E revision c = (ok, e, c') \<Longrightarrow> controller_step E c c'"
| Stable: "activation_stable E x cid dg revision c = (ok, e, c') \<Longrightarrow> controller_step E c c'"
| Failed: "activation_failed E x cid dg revision reason c = (ok, e, c') \<Longrightarrow> controller_step E c c'"
| Retry: "retry_component E cid dg revision c = (ok, e, c') \<Longrightarrow> controller_step E c c'"
| Timeout: "pc_probation c \<Longrightarrow> controller_step E c (probation_timeout E c)"

inductive reachable :: "qt_env \<Rightarrow> (health_paths \<times> fault_injector) option \<Rightarrow> controller \<Rightarrow> bool" for E store where
  Start: "reachable E store (new_controller store d)"
| Step: "reachable E store c \<Longrightarrow> controller_step E c c' \<Longrightarrow> reachable E store c'"
| Disk: "reachable E store c \<Longrightarrow> reachable E store (c\<lparr>pc_fs := d\<rparr>)"

lemma new_controller_inv: "controller_inv E (new_controller store d)"
  by (cases store) (simp_all add: controller_inv_def core_inv_def artifact_inv_def pending_watched_def
      health_wf_def new_controller_def empty_health_def third_party_safe_mode_def)

context plan_codec
begin

lemma controller_step_inv:
  assumes "controller_step E c c'" and "controller_inv E c"
  shows "controller_inv E c'"
  using assms
proof (induction rule: controller_step.induct)
  case (Accept cat conf c ok c')
  then show ?case using accept_snapshots_inv [of c cat conf] by simp
qed (auto intro: initialize_inv begin_hydration_inv failed_state_inv authorize_inv cancel_inv activation_stable_inv
    activation_failed_inv retry_component_inv probation_timeout_inv simp: hydration_failed_def source_unavailable_def)

lemma reachable_inv: "reachable E store c \<Longrightarrow> controller_inv E c"
  by (induction rule: reachable.induct) (auto intro: new_controller_inv controller_step_inv)

end

end
