(* ===== verification/Plan_Durability.thy ===== *)
theory Plan_Durability
  imports Plan_Machine
begin

text \<open>
  The plan controller and the health store together: after every step the files hold the health
  state the controller acts on, so that a crash at any point forgets neither a quarantined
  package nor one on probation.
\<close>

section \<open>What the files hold\<close>

definition synced :: "qt_env \<Rightarrow> health_paths \<Rightarrow> controller \<Rightarrow> bool" where
  "synced E P c \<longleftrightarrow> (\<exists>inject. pc_store c = Some (P, inject)) \<and>
     (if pc_health_initialized c then pc_health c = safe_mode_health
        \<or> (\<exists>h. snapshot E P (pc_fs c) = Some h \<and> storable E h
             \<and> (pc_health c = h \<or> pc_health c = h\<lparr>hs_safe_mode := True\<rparr>))
      else pc_health c = empty_health \<and> (\<forall>h. snapshot E P (pc_fs c) = Some h \<longrightarrow> storable E h))"

lemma synced_emit [simp]: "synced E P (emit_signal x c) = synced E P c"
  by (simp add: synced_def)

lemma word_less_Suc: "x \<noteq> - 1 \<Longrightarrow> x < x + (1 :: 64 word)"
proof -
  assume "x \<noteq> - 1"
  then have "1 + x \<noteq> 0" by (metis add.commute add_eq_0_iff)
  then show ?thesis by (simp add: word_less_nat_alt unatSuc add.commute)
qed

lemma commit_health_fs:
  assumes "commit_health E n c = (ok, e, c')" and st: "pc_store c = Some (P, inject)" and P: "sibling_paths P"
    and s: "snapshot E P (pc_fs c) = Some h" and new: "hs_revision h = hs_revision (pc_health c)" and h: "storable E h"
  shows "snapshot E P (pc_fs c') = Some (if ok then pc_health c' else h) \<and> (ok \<longrightarrow> storable E (pc_health c'))"
proof (cases "hs_revision (pc_health c) = - 1 \<or> 512 < length (hs_records n) \<or> 512 < length (hs_pending n)
    \<or> 512 < length (package_states n)")
  case True
  with assms show ?thesis by (auto simp: commit_health_def fail_safe_def emit_signal_def)
next
  case False
  define m where "m = n\<lparr>hs_revision := hs_revision (pc_health c) + 1\<rparr>"
  obtain r d where p: "persist E P inject m (pc_fs c) = (r, d)" by force
  have less: "hs_revision h < hs_revision m"
    using False new word_less_Suc [of "hs_revision (pc_health c)"] by (simp add: m_def)
  show ?thesis
  proof (cases "durable r")
    case True
    with assms(1) st False p have "c' = emit_signal RuntimeHealthChanged (c\<lparr>pc_fs := d, pc_health := m\<rparr>)" "ok"
      by (auto simp: commit_health_def m_def)
    with persist_durable [OF P s less p True] persist_durable_files(1) [OF P s p True] show ?thesis by simp
  next
    case nd: False
    with assms(1) st False p have "c' = fail_safe (c\<lparr>pc_fs := d\<rparr>)" "\<not> ok"
      by (auto simp: commit_health_def m_def)
    with persist_not_durable [OF P s p nd] show ?thesis by (simp add: fail_safe_def emit_signal_def)
  qed
qed

text \<open>A commit in a state whose health is neither the initial one nor the one of a failed load.\<close>

lemma commit_synced:
  assumes c: "commit_health E n c = (ok, e, c')" and P: "sibling_paths P"
    and s: "synced E P c" and i: "pc_health_initialized c" "pc_health c \<noteq> safe_mode_health"
  shows "synced E P c'"
proof -
  note effect = commit_health_effect [OF c]
  from s i obtain inject h where st: "pc_store c = Some (P, inject)" and h: "snapshot E P (pc_fs c) = Some h" "storable E h"
    "pc_health c = h \<or> pc_health c = h\<lparr>hs_safe_mode := True\<rparr>" by (auto simp: synced_def)
  then have "hs_revision h = hs_revision (pc_health c)" by auto
  from commit_health_fs [OF c st P h(1) this h(2)] effect h(2,3) i(1) st show "synced E P c'"
    by (cases ok) (auto simp: synced_def same_plan_def)
qed

text \<open>Pending activations and records exist only after a successful load.\<close>

lemma synced_commits:
  assumes "synced E P c" and "hs_pending (pc_health c) \<noteq> [] \<or> hs_records (pc_health c) \<noteq> []"
  shows "pc_health_initialized c" "pc_health c \<noteq> safe_mode_health"
  using assms by (auto simp: synced_def empty_health_def safe_mode_health_def split: if_splits)

lemma synced_fields:
  "pc_store c' = pc_store c \<Longrightarrow> pc_health_initialized c' = pc_health_initialized c \<Longrightarrow> pc_health c' = pc_health c \<Longrightarrow>
   pc_fs c' = pc_fs c \<Longrightarrow> synced E P c \<Longrightarrow> synced E P c'"
  by (simp add: synced_def)

lemma synced_updates [simp]:
  "synced E P (c\<lparr>pc_probation := b\<rparr>) = synced E P c"
  "synced E P (c\<lparr>pc_artifact := a\<rparr>) = synced E P c"
  "synced E P (c\<lparr>pc_state := st\<rparr>) = synced E P c"
  "synced E P (c\<lparr>pc_last_error := le\<rparr>) = synced E P c"
  "synced E P (c\<lparr>pc_catalog := cat\<rparr>) = synced E P c"
  "synced E P (c\<lparr>pc_configuration := conf\<rparr>) = synced E P c"
  by (simp_all add: synced_def)

section \<open>Publishing keeps the files in step\<close>

lemma prepare_synced:
  assumes "prepare_pending E p c = (ok, e, c')" and P: "sibling_paths P" and s: "synced E P c"
  shows "synced E P c'"
proof (cases "(pc_health c)\<lparr>hs_pending := remaining_pending p c\<rparr> = pc_health c")
  case True
  with assms show ?thesis by (auto simp: prepare_pending_def)
next
  case False
  have "hs_pending (pc_health c) \<noteq> []"
  proof
    assume "hs_pending (pc_health c) = []"
    then have "remaining_pending p c = hs_pending (pc_health c)" by (simp add: remaining_pending_def)
    with False show False by simp
  qed
  then have i: "pc_health_initialized c" "pc_health c \<noteq> safe_mode_health" using synced_commits [OF s] by simp_all
  obtain k f c1 where cm: "commit_health E ((pc_health c)\<lparr>hs_pending := remaining_pending p c\<rparr>) c = (k, f, c1)"
    by (metis prod_cases3)
  have "synced E P c1" by (rule commit_synced [OF cm P s i])
  with assms(1) False cm show ?thesis by (auto simp: prepare_pending_def split: if_splits)
qed

lemma publish_core_synced:
  assumes P: "sibling_paths P" and s: "synced E P c"
  shows "case publish_core E p st allow err c of Inl (e, c') \<Rightarrow> synced E P c' | Inr (done, c') \<Rightarrow> synced E P c'"
proof -
  obtain ready herr c1 where prep: "prepare_pending E (shown_plan allow c p) c = (ready, herr, c1)" by (metis prod_cases3)
  have "synced E P c1" by (rule prepare_synced [OF prep P s])
  then show ?thesis by (auto simp: publish_core_def prep publish_artifact_def Let_def)
qed

lemma set_failed_state_synced:
  assumes P: "sibling_paths P" and s: "synced E P c"
  shows "synced E P (set_failed_state E err c)"
proof (cases "pc_artifact c")
  case None
  obtain ready herr c1 where prep: "prepare_pending E empty_plan c = (ready, herr, c1)" by (metis prod_cases3)
  have "synced E P c1" by (rule prepare_synced [OF prep P s])
  with None prep show ?thesis by (auto simp: set_failed_state_def Let_def)
next
  case (Some a)
  then show ?thesis
    using publish_core_synced [OF P s, of "art_plan a" Retained False err]
    by (auto simp: set_failed_state_def split: sum.splits)
qed

lemma publish_plan_synced:
  assumes P: "sibling_paths P" and s: "synced E P c"
  shows "synced E P (snd (publish_plan E p st allow err c))"
  using publish_core_synced [OF P s, of p st allow err] set_failed_state_synced [OF P]
  by (auto simp: publish_plan_def split: sum.splits)

lemma rebuild_synced:
  "sibling_paths P \<Longrightarrow> synced E P c \<Longrightarrow> synced E P (rebuild_authoritative_plan E c)"
  by (auto simp: rebuild_authoritative_plan_def Let_def publish_plan_synced set_failed_state_synced split: option.split)

section \<open>The handlers keep the files in step\<close>

lemma commit_rebuild_synced:
  assumes "commit_health E n c = (ok, e, c1)" "sibling_paths P" "synced E P c"
    "pc_health_initialized c" "pc_health c \<noteq> safe_mode_health"
  shows "synced E P (rebuild_authoritative_plan E c1)" "synced E P c1"
  using commit_synced [OF assms] rebuild_synced [OF assms(2)] by blast+

lemma initialize_synced:
  assumes P: "sibling_paths P" and s: "synced E P c" and i: "initialize_runtime_health E c = (ok, e, c')"
  shows "synced E P c'"
proof (cases "pc_health_initialized c")
  case True
  with s i show ?thesis by (simp add: initialize_runtime_health_def)
next
  case False
  obtain inject where st: "pc_store c = Some (P, inject)" using s by (auto simp: synced_def)
  obtain loaded d where l: "load E P (pc_fs c) = (loaded, d)" by force
  define c1 where "c1 = c\<lparr>pc_fs := d, pc_health := lr_state loaded, pc_health_initialized := True\<rparr>"
  show ?thesis
  proof (cases "lr_success loaded")
    case failed: False
    then have "lr_state loaded = safe_mode_health" by (rule load_sound(2) [OF l])
    with failed False i st l have "c' = emit_signal RuntimeHealthChanged (c1\<lparr>pc_health := safe_mode_health\<rparr>)"
      by (simp add: initialize_runtime_health_def c1_def Let_def safe_mode_health_def)
    then show ?thesis using st by (simp add: synced_def c1_def)
  next
    case True
    have sn: "snapshot E P (pc_fs c) = Some (lr_state loaded)" by (rule load_sound(1) [OF l True])
    then have sto: "storable E (lr_state loaded)" using s False by (simp add: synced_def)
    have s1: "synced E P c1"
      using load_keeps [OF P l True sto] sto st by (simp add: synced_def c1_def)
    show ?thesis
    proof (cases "hs_pending (lr_state loaded) = []")
      case none: True
      with True False i st l have "c' = emit_signal RuntimeHealthChanged c1"
        by (simp add: initialize_runtime_health_def c1_def Let_def)
      with s1 show ?thesis by simp
    next
      case some: False
      obtain k f c2 where cm: "commit_health E (quarantine_all (Q ''incomplete-startup'') (pc_health c1)) c1 = (k, f, c2)"
        by (metis prod_cases3)
      have "c' = c2"
        using i False st l True some cm by (auto simp: initialize_runtime_health_def c1_def Let_def split: if_splits)
      moreover have "pc_health_initialized c1" "pc_health c1 \<noteq> safe_mode_health"
        using some by (auto simp: c1_def safe_mode_health_def empty_health_def)
      ultimately show ?thesis using commit_synced [OF cm P s1] by simp
    qed
  qed
qed

lemma begin_hydration_synced: "sibling_paths P \<Longrightarrow> synced E P c \<Longrightarrow> synced E P (begin_hydration E c)"
  by (auto simp: begin_hydration_def Let_def publish_plan_synced split: option.split)

lemma accept_synced: "sibling_paths P \<Longrightarrow> synced E P c \<Longrightarrow> synced E P (snd (accept_snapshots E cat conf c))"
  by (auto simp: accept_snapshots_def Let_def set_failed_state_synced publish_plan_synced)

lemma not_safe_commits:
  assumes "\<not> third_party_safe_mode c"
  shows "pc_health_initialized c" "pc_health c \<noteq> safe_mode_health"
  using assms by (auto simp: third_party_safe_mode_def safe_mode_health_def)

lemma authorize_synced:
  assumes P: "sibling_paths P" and s: "synced E P c" and r: "authorize_surface_plan E order revision c = (ok, e, c')"
  shows "synced E P c'"
proof (cases "\<exists>a m. pc_artifact c = Some a \<and> \<not> third_party_safe_mode c
    \<and> authorize_instances (pc_health c) (art_plan a) order (hs_pending (pc_health c)) = Inr m
    \<and> (pc_health c)\<lparr>hs_pending := m\<rparr> \<noteq> pc_health c")
  case False
  with r s show ?thesis
    by (auto simp: authorize_surface_plan_def Let_def split: option.splits if_splits sum.splits)
next
  case True
  then obtain a m where a: "pc_artifact c = Some a" and safe: "\<not> third_party_safe_mode c"
    and m: "authorize_instances (pc_health c) (art_plan a) order (hs_pending (pc_health c)) = Inr m"
    and new: "(pc_health c)\<lparr>hs_pending := m\<rparr> \<noteq> pc_health c" by blast
  obtain k f c1 where cm: "commit_health E ((pc_health c)\<lparr>hs_pending := m\<rparr>) c = (k, f, c1)" by (metis prod_cases3)
  note s1 = commit_rebuild_synced [OF cm P s not_safe_commits [OF safe]]
  from r a safe m new cm s1 s show ?thesis by (auto simp: authorize_surface_plan_def split: if_splits)
qed

lemma cancel_synced:
  assumes P: "sibling_paths P" and s: "synced E P c" and r: "cancel_surface_plan_authorization E revision c = (ok, e, c')"
  shows "synced E P c'"
proof (cases "hs_pending (pc_health c) = []")
  case True
  with r s show ?thesis by (auto simp: cancel_surface_plan_authorization_def split: if_splits)
next
  case False
  then have i: "pc_health_initialized c" "pc_health c \<noteq> safe_mode_health" using synced_commits [OF s] by simp_all
  obtain k f c1 where cm: "commit_health E ((pc_health c)\<lparr>hs_pending := []\<rparr>) c = (k, f, c1)" by (metis prod_cases3)
  note s1 = commit_rebuild_synced [OF cm P s i]
  from r False cm s1 s show ?thesis by (auto simp: cancel_surface_plan_authorization_def split: if_splits)
qed

lemma stable_synced:
  assumes P: "sibling_paths P" and s: "synced E P c" and r: "activation_stable E x cid dg revision c = (ok, e, c')"
  shows "synced E P c'"
proof (cases "map_of (hs_pending (pc_health c)) x")
  case None
  with r s show ?thesis by (auto simp: activation_stable_def split: if_splits)
next
  case (Some a)
  then have "hs_pending (pc_health c) \<noteq> []" by auto
  then have i: "pc_health_initialized c" "pc_health c \<noteq> safe_mode_health" using synced_commits [OF s] by simp_all
  obtain k f c1 where cm: "commit_health E ((pc_health c)\<lparr>hs_pending := om_remove x (hs_pending (pc_health c))\<rparr>) c = (k, f, c1)"
    by (metis prod_cases3)
  note s1 = commit_rebuild_synced [OF cm P s i]
  from r Some cm s1 s show ?thesis by (auto simp: activation_stable_def split: if_splits)
qed

lemma retry_synced:
  assumes P: "sibling_paths P" and s: "synced E P c" and r: "retry_component E cid dg revision c = (ok, e, c')"
  shows "synced E P c'"
proof (cases "is_quarantined (pc_health c) cid dg")
  case False
  with r s show ?thesis by (auto simp: retry_component_def split: if_splits)
next
  case True
  then have "hs_records (pc_health c) \<noteq> []" by (auto simp: is_quarantined_def)
  then have i: "pc_health_initialized c" "pc_health c \<noteq> safe_mode_health" using synced_commits [OF s] by simp_all
  obtain k f c1 where cm: "commit_health E ((pc_health c)\<lparr>hs_records := om_remove (record_key cid dg) (hs_records (pc_health c))\<rparr>) c
      = (k, f, c1)" by (metis prod_cases3)
  note s1 = commit_rebuild_synced [OF cm P s i]
  from r True cm s1 s show ?thesis by (auto simp: retry_component_def split: if_splits)
qed

lemma timeout_synced:
  assumes P: "sibling_paths P" and s: "synced E P c"
  shows "synced E P (probation_timeout E c)"
proof (cases "hs_pending (pc_health c) = []")
  case True
  with s show ?thesis by (simp add: probation_timeout_def quarantine_pending_def)
next
  case False
  let ?c = "c\<lparr>pc_probation := False\<rparr>"
  have i: "pc_health_initialized ?c" "pc_health ?c \<noteq> safe_mode_health" using synced_commits [OF s] False by simp_all
  obtain k f c1 where cm: "commit_health E (quarantine_all (Q ''timeout'') (pc_health c)) ?c = (k, f, c1)" by (metis prod_cases3)
  have "synced E P (rebuild_authoritative_plan E c1)" by (rule commit_rebuild_synced [OF cm P _ i]) (simp add: s)
  with False cm show ?thesis by (simp add: probation_timeout_def quarantine_pending_def)
qed

context plan_codec
begin

lemma failed_synced:
  assumes P: "sibling_paths P" and s: "synced E P c" and inv: "controller_inv E c"
    and r: "activation_failed E x cid dg revision reason c = (ok, e, c')"
  shows "synced E P c'"
proof (cases "c' = c")
  case True
  with s show ?thesis by simp
next
  case False
  then obtain i where mi: "matching_instance x cid dg revision c = Some i"
    using r by (cases "matching_instance x cid dg revision c") (auto simp: activation_failed_def split: if_splits)
  note safe = matching_instance_inv(1) [OF inv mi]
  define n where "n = (quarantine cid dg reason (pc_health c))
    \<lparr>hs_pending := drop_package cid dg (hs_pending (pc_health c))\<rparr>"
  obtain k f c1 where cm: "commit_health E n c = (k, f, c1)" by (metis prod_cases3)
  have "c' = rebuild_authoritative_plan E c1"
    using r False cm mi by (auto simp: activation_failed_def n_def [symmetric] Let_def split: if_splits)
  with commit_rebuild_synced [OF cm P s not_safe_commits [OF safe]] show ?thesis by simp
qed

lemma controller_step_synced:
  assumes "controller_step E c c'" and "controller_inv E c" and "sibling_paths P" and "synced E P c"
  shows "synced E P c'"
  using assms
proof (induction rule: controller_step.induct)
  case (Accept cat conf c ok c')
  then show ?case using accept_synced [of P E c cat conf] by simp
qed (auto intro: initialize_synced begin_hydration_synced set_failed_state_synced authorize_synced cancel_synced
    stable_synced failed_synced retry_synced timeout_synced simp: hydration_failed_def source_unavailable_def)

lemma runs_synced:
  assumes "(controller_step E)\<^sup>*\<^sup>* (new_controller (Some (P, inject)) d) c" and P: "sibling_paths P"
    and d: "\<And>h. snapshot E P d = Some h \<Longrightarrow> storable E h"
  shows "controller_inv E c \<and> synced E P c"
  using assms(1)
proof (induction rule: rtranclp_induct)
  case base
  have "synced E P (new_controller (Some (P, inject)) d)" using d by (simp add: synced_def new_controller_def)
  then show ?case using new_controller_inv by blast
next
  case (step c1 c2)
  then show ?case using controller_step_inv controller_step_synced P by blast
qed

end

section \<open>A crash forgets no failure\<close>

text \<open>The packages that are quarantined or on probation.\<close>

definition suspected :: "health_state \<Rightarrow> qstring \<Rightarrow> qstring \<Rightarrow> bool" where
  "suspected h cid dg \<longleftrightarrow> is_quarantined h cid dg
     \<or> list_ex (\<lambda>e. pa_component_id (snd e) = cid \<and> pa_package_digest (snd e) = dg) (hs_pending h)"

lemma is_quarantined_insert:
  "om_inv (hs_records h) \<Longrightarrow> is_quarantined (quarantine cid dg reason h) cid dg"
  by (simp add: is_quarantined_def quarantine_def quarantine_record_def Let_def)

lemma is_quarantined_keeps:
  "om_inv (hs_records h) \<Longrightarrow> is_quarantined h c' d' \<Longrightarrow> is_quarantined (quarantine cid dg reason h) c' d'"
  by (auto simp: is_quarantined_def quarantine_def quarantine_record_def Let_def split: option.splits)

lemma fold_quarantine_suspected:
  assumes "om_inv (hs_records h)"
    and "is_quarantined h cid dg \<or> (\<exists>a \<in> set xs. pa_component_id a = cid \<and> pa_package_digest a = dg)"
  shows "is_quarantined (fold (\<lambda>a. quarantine (pa_component_id a) (pa_package_digest a) reason) xs h) cid dg"
  using assms
proof (induction xs arbitrary: h)
  case Nil
  then show ?case by simp
next
  case (Cons a xs)
  have inv: "om_inv (hs_records (quarantine (pa_component_id a) (pa_package_digest a) reason h))"
    using Cons.prems(1) by (simp add: quarantine_def)
  show ?case
    using Cons.IH [OF inv] Cons.prems is_quarantined_insert [OF Cons.prems(1)] is_quarantined_keeps [OF Cons.prems(1)]
    by auto
qed

lemma quarantine_all_suspected:
  "om_inv (hs_records h) \<Longrightarrow> suspected h cid dg \<Longrightarrow> is_quarantined (quarantine_all reason h) cid dg"
  using fold_quarantine_suspected [of h cid dg "om_values (hs_pending h)" reason]
  by (auto simp: quarantine_all_def suspected_def list_ex_iff is_quarantined_def)

lemma restart_quarantines:
  assumes i: "initialize_runtime_health E (new_controller (Some (P, inject)) d) = (ok, e, c')"
    and h: "\<And>h. snapshot E P d = Some h \<Longrightarrow> suspected h cid dg"
  shows "third_party_safe_mode c' \<or> is_quarantined (pc_health c') cid dg"
proof -
  obtain loaded d' where l: "load E P d = (loaded, d')" by force
  define c1 where "c1 = (new_controller (Some (P, inject)) d)
    \<lparr>pc_fs := d', pc_health := lr_state loaded, pc_health_initialized := True\<rparr>"
  show ?thesis
  proof (cases "lr_success loaded")
    case False
    with i l show ?thesis
      by (auto simp: initialize_runtime_health_def new_controller_def Let_def third_party_safe_mode_def
          emit_signal_def)
  next
    case True
    have sus: "suspected (lr_state loaded) cid dg" by (rule h [OF load_sound(1) [OF l True]])
    have inv: "om_inv (hs_records (lr_state loaded))" using load_health_wf [OF l] by (simp add: health_wf_def)
    show ?thesis
    proof (cases "hs_pending (lr_state loaded) = []")
      case none: True
      have "c' = emit_signal RuntimeHealthChanged c1"
        using True none i l by (simp add: initialize_runtime_health_def c1_def new_controller_def Let_def)
      with none sus show ?thesis by (simp add: suspected_def c1_def emit_signal_def)
    next
      case some: False
      obtain k f c2 where cm: "commit_health E (quarantine_all (Q ''incomplete-startup'') (lr_state loaded)) c1 = (k, f, c2)"
        by (metis prod_cases3)
      have "c' = c2"
        using i l True some cm by (auto simp: initialize_runtime_health_def c1_def new_controller_def Let_def split: if_splits)
      with commit_health_effect [OF cm] quarantine_all_suspected [OF inv sus] show ?thesis
        by (cases k) (auto simp: third_party_safe_mode_def is_quarantined_def)
    qed
  qed
qed

end
