(* ===== verification/Plan_Effects.thy ===== *)
theory Plan_Effects
  imports Plan_Durability
begin

text \<open>
  What publishing leaves of the health state, and from it the effect of each message of the
  renderer and of the probation timer.
\<close>

section \<open>Publishing and the health state\<close>

text \<open>Publishing keeps the records and the revision order, only drops activations, never leaves safe mode.\<close>

definition health_kept :: "controller \<Rightarrow> controller \<Rightarrow> bool" where
  "health_kept c c' \<longleftrightarrow> hs_records (pc_health c') = hs_records (pc_health c)
     \<and> set (hs_pending (pc_health c')) \<subseteq> set (hs_pending (pc_health c))
     \<and> (hs_safe_mode (pc_health c) \<longrightarrow> hs_safe_mode (pc_health c'))
     \<and> pc_health_initialized c' = pc_health_initialized c"

lemma health_kept_refl [simp]: "health_kept c c"
  by (simp add: health_kept_def)

lemma health_kept_trans: "health_kept c d \<Longrightarrow> health_kept d e \<Longrightarrow> health_kept c e"
  by (auto simp: health_kept_def)

lemma health_kept_updates [simp]:
  "health_kept c (c'\<lparr>pc_probation := b\<rparr>) = health_kept c c'"
  "health_kept c (c'\<lparr>pc_artifact := a\<rparr>) = health_kept c c'"
  "health_kept c (c'\<lparr>pc_state := st\<rparr>) = health_kept c c'"
  "health_kept c (c'\<lparr>pc_last_error := le\<rparr>) = health_kept c c'"
  "health_kept c (emit_signal x c') = health_kept c c'"
  "health_kept (c\<lparr>pc_probation := b\<rparr>) c' = health_kept c c'"
  by (simp_all add: health_kept_def)

lemma remaining_pending_subset: "set (remaining_pending p c) \<subseteq> set (hs_pending (pc_health c))"
  by (auto simp: remaining_pending_def)

lemma prepare_kept:
  assumes "prepare_pending E p c = (ok, e, c')"
  shows "health_kept c c'"
proof (cases "(pc_health c)\<lparr>hs_pending := remaining_pending p c\<rparr> = pc_health c")
  case True
  with assms show ?thesis by (auto simp: prepare_pending_def)
next
  case False
  obtain k f c1 where cm: "commit_health E ((pc_health c)\<lparr>hs_pending := remaining_pending p c\<rparr>) c = (k, f, c1)"
    by (metis prod_cases3)
  have "health_kept c c1"
    using commit_health_effect [OF cm] remaining_pending_subset [of p c]
    by (cases k) (auto simp: health_kept_def same_plan_def)
  with assms False cm show ?thesis by (auto simp: prepare_pending_def split: if_splits)
qed

lemma publish_core_kept:
  "case publish_core E p st allow err c of Inl (e, c') \<Rightarrow> health_kept c c' | Inr (done, c') \<Rightarrow> health_kept c c'"
proof -
  obtain ready herr c1 where prep: "prepare_pending E (shown_plan allow c p) c = (ready, herr, c1)" by (metis prod_cases3)
  from prepare_kept [OF prep] show ?thesis by (auto simp: publish_core_def prep publish_artifact_def Let_def)
qed

lemma set_failed_state_kept: "health_kept c (set_failed_state E err c)"
proof (cases "pc_artifact c")
  case None
  obtain ready herr c1 where prep: "prepare_pending E empty_plan c = (ready, herr, c1)" by (metis prod_cases3)
  from prepare_kept [OF prep] None prep show ?thesis by (auto simp: set_failed_state_def Let_def)
next
  case (Some a)
  then show ?thesis
    using publish_core_kept [where E = E and p = "art_plan a" and st = Retained and allow = False and err = err and c = c]
    by (auto simp: set_failed_state_def split: sum.splits)
qed

lemma publish_plan_kept: "health_kept c (snd (publish_plan E p st allow err c))"
  using publish_core_kept [where E = E and p = p and st = st and allow = allow and err = err and c = c] set_failed_state_kept health_kept_trans
  by (fastforce simp: publish_plan_def split: sum.splits)

lemma rebuild_kept: "health_kept c (rebuild_authoritative_plan E c)"
  by (auto simp: rebuild_authoritative_plan_def Let_def publish_plan_kept set_failed_state_kept split: option.split)

lemma health_kept_quarantined:
  "health_kept c c' \<Longrightarrow> is_quarantined (pc_health c') = is_quarantined (pc_health c)"
  by (rule is_quarantined_records) (simp add: health_kept_def)

section \<open>The probation timer\<close>

lemma timeout_effect:
  assumes inv: "controller_inv E c" and p: "(x, a) \<in> set (hs_pending (pc_health c))"
  shows "third_party_safe_mode (probation_timeout E c)
    \<or> hs_pending (pc_health (probation_timeout E c)) = []
      \<and> is_quarantined (pc_health (probation_timeout E c)) (pa_component_id a) (pa_package_digest a)"
proof -
  let ?c = "c\<lparr>pc_probation := False\<rparr>"
  obtain k f c1 where cm: "commit_health E (quarantine_all (Q ''timeout'') (pc_health c)) ?c = (k, f, c1)"
    by (metis prod_cases3)
  note effect = commit_health_effect [OF cm]
  have t: "probation_timeout E c = rebuild_authoritative_plan E c1"
    using p cm by (auto simp: probation_timeout_def quarantine_pending_def)
  note kept = rebuild_kept [of c1 E]
  show ?thesis
  proof (cases k)
    case False
    with effect(3) kept show ?thesis by (auto simp: t third_party_safe_mode_def health_kept_def)
  next
    case True
    have "om_inv (hs_records (pc_health c))" using inv by (simp add: controller_inv_def core_inv_def health_wf_def)
    moreover have "suspected (pc_health c) (pa_component_id a) (pa_package_digest a)"
      using p by (force simp: suspected_def list_ex_iff)
    ultimately have "is_quarantined (quarantine_all (Q ''timeout'') (pc_health c)) (pa_component_id a) (pa_package_digest a)"
      by (rule quarantine_all_suspected)
    then have "is_quarantined (pc_health c1) (pa_component_id a) (pa_package_digest a)" "hs_pending (pc_health c1) = []"
      using effect(2) True by (simp_all add: is_quarantined_def)
    with kept health_kept_quarantined [OF kept] show ?thesis by (auto simp: t health_kept_def)
  qed
qed

section \<open>Reports of the renderer\<close>

lemma activation_failed_effect:
  assumes inv: "controller_inv E c" and r: "activation_failed E x cid dg revision reason c = (True, e, c')"
  shows "is_quarantined (pc_health c') cid dg"
    "\<forall>a \<in> set (om_values (hs_pending (pc_health c'))). \<not> (pa_component_id a = cid \<and> pa_package_digest a = dg)"
proof -
  define n where "n = (quarantine cid dg reason (pc_health c))
    \<lparr>hs_pending := drop_package cid dg (hs_pending (pc_health c))\<rparr>"
  obtain k f c1 where cm: "commit_health E n c = (k, f, c1)" by (metis prod_cases3)
  have c': "c' = rebuild_authoritative_plan E c1" "k"
    using r cm by (auto simp: activation_failed_def n_def [symmetric] Let_def split: if_splits)
  note effect = commit_health_effect(2) [OF cm c'(2)]
  have "om_inv (hs_records (pc_health c))" using inv by (simp add: controller_inv_def core_inv_def health_wf_def)
  then have q: "is_quarantined (pc_health c1) cid dg"
    using effect is_quarantined_insert [of "pc_health c" cid dg reason] by (simp add: n_def is_quarantined_def)
  note kept = rebuild_kept [of c1 E]
  show "is_quarantined (pc_health c') cid dg" using q health_kept_quarantined [OF kept] c' by simp
  show "\<forall>a \<in> set (om_values (hs_pending (pc_health c'))). \<not> (pa_component_id a = cid \<and> pa_package_digest a = dg)"
    using kept effect c' by (auto simp: health_kept_def n_def drop_package_def)
qed

section \<open>Authorisation puts every third-party instance of the main bar on probation\<close>

lemma authorize_instances_mono:
  "authorize_instances h p xs m = Inr m' \<Longrightarrow> om_inv m \<Longrightarrow> map_of m y \<noteq> None \<Longrightarrow> map_of m' y \<noteq> None"
proof (induction h p xs m rule: authorize_instances.induct)
  case (2 h p x xs m)
  then show ?case by (auto split: option.splits if_splits)
qed simp

lemma authorize_instances_complete:
  "authorize_instances h p xs m = Inr m' \<Longrightarrow> om_inv m \<Longrightarrow> y \<in> set xs \<Longrightarrow> map_of (sp_instances p) y = Some i \<Longrightarrow>
   si_runtime_kind i = declarative_kind \<Longrightarrow> \<not> is_quarantined h (si_component_id i) (si_package_digest i) \<and> map_of m' y \<noteq> None"
proof (induction h p xs m rule: authorize_instances.induct)
  case (2 h p x xs m)
  show ?case
  proof (cases "x = y")
    case True
    with 2 authorize_instances_mono [of h p xs _ m' y] show ?thesis by (auto split: option.splits if_splits)
  next
    case False
    with 2 show ?thesis by (auto split: option.splits if_splits)
  qed
qed simp

end
