(* ===== verification/Sample_Codec.thy ===== *)
theory Sample_Codec
  imports Sample_Env Plan_Codec
begin

text \<open>
  The compact writer and the strict reader satisfy the interface \<open>json_codec\<close>: what a written
  object is read back as is the object itself, and removing members and elements keeps an
  object writable and does not lengthen its text.
\<close>

lemma length_close_list_sum:
  "length (close_list z ss) = sum_list (map length ss) + max 1 (length ss)"
  by (induction z ss rule: close_list.induct) auto

lemma members_part_keys: "members_part m m' \<Longrightarrow> fst ` set m' \<subseteq> fst ` set m"
  using json_part_elements_part_members_part.inducts(3)
    [of m m' "\<lambda>v w. True" "\<lambda>vs ws. True" "\<lambda>m m'. fst ` set m' \<subseteq> fst ` set m"] by auto

lemma json_part_writable:
  "json_part v w \<Longrightarrow> writable k v \<Longrightarrow> writable k w \<and> length (write_json w) \<le> length (write_json v)"
  "elements_part vs ws \<Longrightarrow> list_all (writable j) vs \<Longrightarrow> list_all (writable j) ws
     \<and> length ws \<le> length vs \<and> sum_list (map (length \<circ> write_json) ws) \<le> sum_list (map (length \<circ> write_json) vs)"
  "members_part m m' \<Longrightarrow> om_inv m \<Longrightarrow> list_all (\<lambda>e. utf16_ok (fst e) \<and> writable j (snd e)) m \<Longrightarrow>
     om_inv m' \<and> list_all (\<lambda>e. utf16_ok (fst e) \<and> writable j (snd e)) m'
     \<and> length m' \<le> length m \<and> sum_list (map (length \<circ> write_member) m') \<le> sum_list (map (length \<circ> write_member) m)"
proof (induction arbitrary: k and j and j rule: json_part_elements_part_members_part.inducts)
  case (part_array vs ws)
  from part_array.IH [of "k - 1"] part_array.prems show ?case
    by (auto simp: length_close_list_sum comp_def max_def)
next
  case (part_object m m')
  from part_object.IH [of "k - 1"] part_object.prems show ?case
    by (auto simp: length_close_list_sum comp_def max_def)
next
  case (members_drop m m' k v)
  from members_drop.IH [of j] members_drop.prems show ?case by auto
next
  case (members_keep v w m m' k)
  have "\<forall>k' \<in> fst ` set m'. k < k'"
    using members_part_keys [OF members_keep.hyps(2)] members_keep.prems(1)
    by (meson om_inv_Cons subsetD)
  with members_keep.IH(1) [of j] members_keep.IH(2) [of j] members_keep.prems show ?case by simp
next
  case (elements_drop vs ws v)
  from elements_drop.IH [of j] elements_drop.prems show ?case by simp
next
  case (elements_keep v w vs ws)
  from elements_keep.IH(1) [of j] elements_keep.IH(2) [of j] elements_keep.prems show ?case by simp
qed simp_all

interpretation sample: json_codec sample_env
proof
  have E: "integer_env sample_env" by (simp add: integer_env_def sample_env_def)
  fix B D m m'
  show "parse_object sample_env B D (qt_compact sample_env (JObj m) @ [10]) = vr_accept m' \<Longrightarrow> m' = m"
    by (rule parse_written_object(2) [OF E]) simp_all
  assume part: "json_part (JObj m) (JObj m')"
    and ok: "vr_ok (parse_object sample_env B D (qt_compact sample_env (JObj m) @ [10]))"
  then have w: "writable D (JObj m)" "int (length (qt_compact sample_env (JObj m) @ [10])) \<le> B"
    using parse_written_object(1) [OF E, of "[10]" B D m] by (auto elim!: parse_object_ok simp del: writable.simps)
  have "length (qt_compact sample_env (JObj m')) \<le> length (qt_compact sample_env (JObj m))"
    using json_part_writable(1) [OF part w(1)] E by (simp add: integer_env_def ascii_bytes_def del: write_json.simps)
  then obtain m'' where "parse_object sample_env B D (qt_compact sample_env (JObj m') @ [10]) = vr_accept m''"
    using parse_written_object(1) [OF E, of "[10]" B D m'] json_part_writable(1) [OF part w(1)] w(2)
    by (auto simp del: writable.simps)
  then show "vr_ok (parse_object sample_env B D (qt_compact sample_env (JObj m') @ [10]))" by simp
qed

end
