(* ===== verification/Sample_Run.thy ===== *)
theory Sample_Run
  imports Plan_Effects Sample_Codec Store_Guarantees
begin

text \<open>
  A concrete run of the controller in the sample environment: a catalog with the built-in
  workspace switcher and one declarative third-party package, a configuration that places the
  third-party instance on the main bar, and the states after loading the health files,
  accepting the snapshots and authorising the published plan.
\<close>

section \<open>The snapshots\<close>

definition sample_digest :: qstring where
  "sample_digest = replicate 64 0x30"

definition sample_id :: qstring where
  "sample_id = Q ''dev.example.clock''"

definition sample_instance_id :: qstring where
  "sample_instance_id = Q ''00000000-0000-4000-8000-000000000000''"

definition sample_document :: declarative_document where
  "sample_document = empty_document\<lparr>dd_text := \<lparr>ts_kind = LiteralText, ts_value = Q ''hi''\<rparr>\<rparr>"

definition workspace_entry :: catalog_entry where
  "workspace_entry = \<lparr>ce_component_id = workspace_switcher_id, ce_component_type = Q ''bar-widget'',
     ce_package_digest = sample_digest, ce_origin = Q ''system'', ce_removable = False,
     ce_api_version = current_api_version, ce_runtime_kind = builtin_kind, ce_factory = workspace_switcher_factory,
     ce_entry_point = [], ce_arguments = [], ce_declarative_runtime = [], ce_declarative_document = None,
     ce_capability_ids = [Q ''shell.workspaces.activate'', Q ''shell.workspaces.read''], ce_dependency_ids = []\<rparr>"

definition clock_entry :: catalog_entry where
  "clock_entry = \<lparr>ce_component_id = sample_id, ce_component_type = Q ''bar-widget'',
     ce_package_digest = sample_digest, ce_origin = Q ''user'', ce_removable = True,
     ce_api_version = current_api_version, ce_runtime_kind = declarative_kind, ce_factory = [],
     ce_entry_point = Q ''ui.json'', ce_arguments = [],
     ce_declarative_runtime = serialize_declarative_document sample_env sample_document,
     ce_declarative_document = Some sample_document, ce_capability_ids = [], ce_dependency_ids = []\<rparr>"

definition sample_catalog :: catalog_snapshot where
  "sample_catalog = \<lparr>cs_digest = sample_digest, cs_listed_ids = [sample_id, workspace_switcher_id],
     cs_entries = [(sample_id, clock_entry), (workspace_switcher_id, workspace_entry)]\<rparr>"

definition sample_configuration :: configuration_snapshot where
  "sample_configuration = \<lparr>cf_catalog_digest = sample_digest, cf_revision = 1,
     cf_components = [(sample_id, \<lparr>dc_enabled = True, dc_package_digest = sample_digest,
       dc_granted_capabilities = [], dc_settings = []\<rparr>)],
     cf_instances = [(sample_instance_id, \<lparr>di_component_id = sample_id, di_enabled = True, di_settings = []\<rparr>)],
     cf_bar_layouts = [(Q ''main'', \<lparr>dl_output_mode = Q ''all'', dl_start = [sample_instance_id], dl_center = [],
       dl_end = []\<rparr>)]\<rparr>"

definition sample_instance :: surface_instance where
  "sample_instance = \<lparr>si_component_id = sample_id, si_component_type = Q ''bar-widget'',
     si_package_digest = sample_digest, si_runtime_kind = declarative_kind, si_factory = [],
     si_declarative_text = Q ''hi'', si_declarative_tooltip = [], si_maximum_width = 240, si_settings = []\<rparr>"

definition sample_plan :: surface_plan where
  "sample_plan = \<lparr>sp_catalog_digest = sample_digest, sp_configuration_revision = 1,
     sp_instances = [(sample_instance_id, sample_instance)],
     sp_bar_layouts = [(Q ''main'', \<lparr>bl_output_mode = Q ''all'', bl_start = [sample_instance_id], bl_center = [],
       bl_end = []\<rparr>)]\<rparr>"

section \<open>The grammars accept the samples\<close>

lemma sample_digest_ok [simp]: "is_full_sha256_digest sample_digest"
proof -
  have "list_all is_lower_hex sample_digest"
    by (simp add: sample_digest_def list_all_iff is_lower_hex_def is_ascii_digit_def)
  moreover have "length sample_digest = 64" by (simp add: sample_digest_def)
  ultimately show ?thesis unfolding is_full_sha256_digest_alt by blast
qed

lemma sample_instance_id_ok [simp]: "is_lowercase_uuid_v4 sample_instance_id"
proof -
  have "replicate 3 p = [p, p, p]" "replicate 4 p = [p, p, p, p]" "replicate 8 p = [p, p, p, p, p, p, p, p]"
    "replicate 12 p = [p, p, p, p, p, p, p, p, p, p, p, p]" for p :: "qchar \<Rightarrow> bool"
    by (simp_all add: numeral_eq_Suc)
  then show ?thesis
    by (simp add: is_lowercase_uuid_v4_def sample_instance_id_def Q_def is_lower_hex_def is_ascii_digit_def at_end_def)
qed

lemma sample_id_ok [simp]: "is_valid_component_id sample_id"
  by (simp add: is_valid_component_id_def sample_id_def Q_def match_label_def label_body_def is_lower_alnum_def
      is_lower_def is_ascii_digit_def Let_def)

lemma workspace_id_ok [simp]: "is_valid_component_id workspace_switcher_id"
  by (simp add: is_valid_component_id_def workspace_switcher_id_def Q_def match_label_def label_body_def
      is_lower_alnum_def is_lower_def is_ascii_digit_def Let_def)

lemma sample_ids_differ [simp]: "sample_id \<noteq> workspace_switcher_id" "workspace_switcher_id \<noteq> sample_id"
  by (simp_all add: sample_id_def workspace_switcher_id_def)

lemma kinds_differ [simp]: "declarative_kind \<noteq> builtin_kind" "builtin_kind \<noteq> declarative_kind"
  by simp_all

lemma workspace_entry_ok [simp]: "is_exact_workspace_entry workspace_entry"
  by (simp add: is_exact_workspace_entry_def workspace_entry_def)

lemma clock_entry_ok [simp]: "is_exact_declarative_entry sample_env clock_entry"
  by (simp add: is_exact_declarative_entry_def clock_entry_def serialize_declarative_document_def
      sample_env_def ascii_bytes_def write_json.simps document_object_def json_object_def Q_def)

lemma sample_text_ok [simp]: "is_valid_resolved_text sample_env (Q ''hi'')"
  by (simp add: is_valid_resolved_text_def sample_env_def Q_def maximum_resolved_text_length_def)

lemma sample_built: "build_surface_plan sample_env sample_catalog sample_configuration = vr_accept sample_plan"
proof -
  have "check_snapshots sample_catalog sample_configuration = None"
    by (simp add: check_snapshots_def sample_catalog_def sample_configuration_def maximum_plan_instances_def
        maximum_plan_bar_layouts_def clock_entry_def workspace_entry_ok) (simp add: workspace_entry_def)
  moreover have "effective_instance sample_env sample_catalog sample_configuration (Q ''main'') path sample_instance_id
      = Inr (Some sample_instance)" for path
    using clock_entry_ok
    by (simp add: effective_instance_def sample_catalog_def sample_configuration_def resolve_declarative_text_def
        default_bar_layout_id_def Let_def del: clock_entry_ok)
      (simp add: clock_entry_def sample_document_def empty_document_def sample_instance_def default_maximum_width_def)
  ultimately show ?thesis
    by (simp add: build_surface_plan_def build_layout_def sample_plan_def sample_configuration_def sample_catalog_def)
qed

section \<open>The plan is publishable\<close>

text \<open>Every plan that satisfies the invariant of the format and whose object is writable has an artifact.\<close>

lemma make_artifact_sample:
  assumes ok: "plan_ok sample_env p" and w: "writable 32 (JObj (plan_object p))"
    and len: "length (write_json (JObj (plan_object p))) < nat maximum_plan_bytes"
  shows "\<exists>a. make_surface_plan_artifact sample_env p = vr_accept a \<and> art_plan a = p"
proof -
  have "parse_surface_plan sample_env (serialize_plan sample_env p) = vr_accept p"
    using parse_written_sample [OF w len, of "[10]"] parse_plan_object [OF ok]
    by (simp add: parse_surface_plan_def serialize_plan_def)
  then show ?thesis by (auto simp: make_surface_plan_artifact_def Let_def)
qed

text \<open>The length of a written text, without writing it.\<close>

lemma length_write_chars: "length (write_chars s) \<le> 6 * length s"
  by (induction s) auto

lemma length_write_string: "length (write_string s) \<le> 6 * length s + 2"
  using length_write_chars [of s] by (simp add: write_string_def)

lemma sample_resolved_ok:
  "vr_ok (parse_declarative_document sample_env (serialize_declarative_document sample_env
     (resolved_document (Q ''hi'') [] 240)) None)"
proof -
  let ?d = "resolved_document (Q ''hi'') [] 240"
  have "document_ok sample_env None ?d"
    by (simp add: document_ok_def resolved_document_def empty_document_def text_ok_def sample_env_def
        maximum_resolved_text_length_def minimum_maximum_width_def maximum_maximum_width_def Q_def)
  then have "parse_document_root sample_env None (document_object ?d) = vr_accept ?d" by (rule parse_document_object)
  moreover have "parse_object sample_env maximum_document_bytes 8 (qt_compact sample_env (JObj (document_object ?d)) @ [])
      = vr_accept (document_object ?d)"
  proof (rule parse_written_sample)
    show "writable 8 (JObj (document_object ?d))"
      by (simp add: document_object_def resolved_document_def empty_document_def json_object_def json_int_def
          number_kept_def write_number_def qnumber.simps digit_char_def normalize_json_number_def
          strip_trailing_zeros_def Q_def is_high_surrogate_def is_low_surrogate_def max_int64_def min_int64_def Let_def)
    show "length (write_json (JObj (document_object ?d))) < nat maximum_document_bytes"
      by (simp add: document_object_def resolved_document_def empty_document_def json_object_def json_int_def
          write_number_def qnumber.simps write_string_def Q_def maximum_document_bytes_def)
  qed simp
  ultimately show ?thesis
    by (simp add: parse_declarative_document_def serialize_declarative_document_def Let_def)
qed

lemma sample_plan_ok: "plan_ok sample_env sample_plan"
proof -
  have "is_valid_resolved_text sample_env (Q ''hi'')" by (rule sample_text_ok)
  then have "instance_ok sample_env sample_instance"
    using sample_resolved_ok
    by (simp add: instance_ok_def sample_instance_def runtime_ok_def minimum_maximum_width_def maximum_maximum_width_def)
  moreover have "match_kebab (Q ''main'')"
    by (simp add: match_kebab_def kebab_body_def Q_def is_lower_alnum_def is_lower_def is_ascii_digit_def Let_def)
  ultimately show ?thesis
    by (simp add: plan_ok_def sample_plan_def layout_ok_def ids_ok_def placement_ok_def placed_ids_def layout_ids_def
        maximum_plan_instances_def maximum_plan_bar_layouts_def)
qed

lemma utf16_ok_ascii: "list_all (\<lambda>c. c < 0x7F) s \<Longrightarrow> utf16_ok s"
  by (induction s) (auto dest: printable_no_surrogate)

lemma sample_digest_utf16 [simp]: "utf16_ok sample_digest"
  by (rule utf16_ok_ascii) (simp add: sample_digest_def list_all_iff)

lemma sample_ids_utf16 [simp]: "utf16_ok sample_instance_id" "utf16_ok sample_id"
  by (rule utf16_ok_ascii, simp add: sample_instance_id_def sample_id_def Q_def)+

lemma sample_numbers:
  "number_kept 2" "number_kept 240" "write_number 2 = Q ''2''" "write_number 240 = Q ''240''" "qnumber (Suc 0) = Q ''1''"
  by (simp_all add: number_kept_def write_number_def qnumber.simps digit_char_def normalize_json_number_def
      strip_trailing_zeros_def max_int64_def min_int64_def Let_def Q_def)

lemma number_one: "number_kept 1" "write_number 1 = Q ''1''"
  by (simp_all add: number_kept_def write_number_def qnumber.simps digit_char_def normalize_json_number_def
      strip_trailing_zeros_def max_int64_def min_int64_def Let_def Q_def)

lemmas sample_object = plan_object_def instance_object_def layout_object_def string_array_def sample_plan_def
  sample_instance_def json_object_def json_int_def surface_plan_format_version_def sample_numbers

lemma Q_utf16 [simp]: "list_all (\<lambda>c. c < (0x7F :: qchar)) (Q s) \<Longrightarrow> utf16_ok (Q s)"
  by (rule utf16_ok_ascii)

lemma sample_plan_writable: "writable 32 (JObj (plan_object sample_plan))"
proof -
  have "utf16_ok (Q k)" if "k \<in> {''formatVersion'', ''catalogDigest'', ''configurationRevision'', ''instances'', ''layouts'',
      ''bars'', ''main'', ''outputs'', ''mode'', ''all'', ''regions'', ''start'', ''center'', ''end'', ''componentId'',
      ''componentType'', ''bar-widget'', ''packageDigest'', ''runtime'', ''settings'', ''kind'', ''declarative-v1'',
      ''text'', ''hi'', ''tooltip'', ''maximumWidth'', ''1''}" for k
    using that by (intro Q_utf16) (auto simp: Q_def)
  then show ?thesis by (simp add: sample_object)
qed

lemma sample_lengths: "length sample_digest = 64" "length sample_instance_id = 36" "length sample_id = 17"
  by (simp_all add: sample_digest_def sample_instance_id_def sample_id_def Q_def)

lemma sample_plan_length: "length (write_json (JObj (plan_object sample_plan))) < nat maximum_plan_bytes"
  using length_write_chars [of sample_digest] length_write_chars [of sample_instance_id] length_write_chars [of sample_id]
  by (simp add: sample_object maximum_plan_bytes_def sample_lengths write_string_def Q_def)

lemma sample_artifact: "\<exists>a. make_surface_plan_artifact sample_env sample_plan = vr_accept a \<and> art_plan a = sample_plan"
  by (rule make_artifact_sample [OF sample_plan_ok sample_plan_writable sample_plan_length])

section \<open>The states of the run\<close>

definition sample_artifact_value :: surface_plan_artifact where
  "sample_artifact_value = the (vr_value (make_surface_plan_artifact sample_env sample_plan))"

lemma sample_artifact_fields:
  "make_surface_plan_artifact sample_env sample_plan = vr_accept sample_artifact_value"
  "art_plan sample_artifact_value = sample_plan"
  using sample_artifact by (auto simp: sample_artifact_value_def)

definition sample_pending :: "pending_activation qmap" where
  "sample_pending = [(sample_instance_id,
     \<lparr>pa_instance_id = sample_instance_id, pa_component_id = sample_id, pa_package_digest = sample_digest\<rparr>)]"

text \<open>The state with the plan published, over any health state without records.\<close>

definition sample_accepted :: "(health_paths \<times> fault_injector) option \<Rightarrow> fs \<Rightarrow> plan_signal list \<Rightarrow> controller" where
  "sample_accepted store d signals = (new_controller store d)\<lparr>pc_state := Authoritative,
     pc_artifact := Some sample_artifact_value, pc_catalog := Some sample_catalog,
     pc_configuration := Some sample_configuration, pc_health_initialized := True, pc_signals := signals\<rparr>"

lemma sample_accept:
  "accept_snapshots sample_env sample_catalog sample_configuration
     ((new_controller store d)\<lparr>pc_health_initialized := True, pc_signals := signals\<rparr>)
   = (True, sample_accepted store d (signals @ [RuntimeChanged]))"
proof -
  have "filter_quarantined empty_health sample_plan = sample_plan"
    by (simp add: filter_quarantined_def remove_instances_def is_quarantined_def empty_health_def)
  then show ?thesis
    by (simp add: accept_snapshots_def sample_built publish_plan_def publish_core_def shown_plan_def
        third_party_safe_mode_def prepare_pending_def remaining_pending_def publish_artifact_def
        sample_artifact_fields new_controller_def sample_accepted_def emit_signal_def empty_health_def Let_def)
qed

definition sample_watched :: health_state where
  "sample_watched = \<lparr>hs_revision = 1, hs_safe_mode = False, hs_records = [], hs_pending = sample_pending\<rparr>"

lemma sample_watched_storable: "storable sample_env sample_watched"
proof (rule storable_parse)
  show "health_ok sample_watched"
    by (simp add: health_ok_def sample_watched_def sample_pending_def package_states_def pending_entry_ok_def pending_ok_def
        maximum_health_records_def pending_key_def)
  have w: "writable 8 (JObj (health_object sample_watched))"
  proof -
    have "utf16_ok (Q k)" if "k \<in> {''formatVersion'', ''revision'', ''safeMode'', ''records'', ''pending'', ''instanceId'',
        ''componentId'', ''packageDigest'', ''1''}" for k
      using that by (intro Q_utf16) (auto simp: Q_def)
    moreover have "number_kept 1"
      by (simp add: number_kept_def write_number_def qnumber.simps digit_char_def normalize_json_number_def
        strip_trailing_zeros_def max_int64_def min_int64_def Let_def)
    ultimately show ?thesis
      by (simp add: health_object_def sample_watched_def sample_pending_def pending_object_def json_object_def
          health_format_version_def json_int_def sample_numbers)
  qed
  have "write_number 1 = Q ''1''"
    by (simp add: write_number_def qnumber.simps digit_char_def Q_def)
  then have len: "length (write_json (JObj (health_object sample_watched))) < nat maximum_health_bytes"
    using length_write_chars [of sample_digest] length_write_chars [of sample_instance_id] length_write_chars [of sample_id]
    by (simp add: health_object_def sample_watched_def sample_pending_def pending_object_def json_object_def
        health_format_version_def json_int_def sample_numbers maximum_health_bytes_def sample_lengths write_string_def Q_def)
  show "parse_object sample_env maximum_health_bytes 8 (serialize_health sample_env sample_watched)
      = vr_accept (health_object sample_watched)"
    using parse_written_sample [OF w len, of "[10]"] by (simp add: serialize_health_def)
qed

lemma sample_empty_storable: "storable sample_env empty_health"
proof (rule storable_parse)
  show "health_ok empty_health" by (simp add: health_ok_def empty_health_def package_states_def)
  have "utf16_ok (Q k)" if "k \<in> {''formatVersion'', ''revision'', ''safeMode'', ''records'', ''pending'', ''0''}" for k
    using that by (intro Q_utf16) (auto simp: Q_def)
  moreover have zero: "qnumber 0 = Q ''0''" by (simp add: qnumber.simps digit_char_def Q_def)
  ultimately have w: "writable 8 (JObj (health_object empty_health))"
    by (simp add: health_object_def empty_health_def json_object_def health_format_version_def json_int_def sample_numbers number_one)
  have len: "length (write_json (JObj (health_object empty_health))) < nat maximum_health_bytes"
    by (simp add: health_object_def empty_health_def json_object_def zero
        health_format_version_def json_int_def sample_numbers number_one maximum_health_bytes_def write_string_def Q_def)
  show "parse_object sample_env maximum_health_bytes 8 (serialize_health sample_env empty_health)
      = vr_accept (health_object empty_health)"
    using parse_written_sample [OF w len, of "[10]"] by (simp add: serialize_health_def)
qed

abbreviation sample_store :: "(health_paths \<times> fault_injector) option" where
  "sample_store \<equiv> Some (sample_paths, \<lambda>_. False)"

lemma sample_load: "load E sample_paths (sample_disk []) = (load_success empty_health, sample_disk [])"
proof -
  have "fs_faults (sample_disk []) = []" by (simp add: sample_disk_def)
  from read_file_no_faults [OF this] show ?thesis
    by (simp add: load_def sample_status select_snapshot_def read_missing_def)
qed

lemma sample_initialize:
  "initialize_runtime_health E (new_controller sample_store (sample_disk [])) = (True, [],
     (new_controller sample_store (sample_disk []))\<lparr>pc_health_initialized := True, pc_signals := [RuntimeHealthChanged]\<rparr>)"
  by (simp add: initialize_runtime_health_def new_controller_def sample_load load_success_def emit_signal_def Let_def empty_health_def)

lemma sample_authorize:
  "\<exists>c. authorize_surface_plan sample_env [sample_instance_id] (art_revision sample_artifact_value)
       (sample_accepted sample_store (sample_disk []) signals) = (True, [], c)
     \<and> pc_health c = sample_watched \<and> pc_artifact c = Some sample_artifact_value \<and> pc_state c = Authoritative
     \<and> pc_probation c \<and> pc_health_initialized c"
proof -
  let ?c = "sample_accepted sample_store (sample_disk []) signals"
  have auth: "authorize_instances (pc_health ?c) sample_plan [sample_instance_id] (hs_pending (pc_health ?c)) = Inr sample_pending"
    by (simp add: sample_accepted_def new_controller_def empty_health_def sample_plan_def is_quarantined_def
        sample_instance_def sample_pending_def)
  have new: "(pc_health ?c)\<lparr>hs_pending := sample_pending\<rparr> \<noteq> pc_health ?c"
    by (simp add: sample_accepted_def new_controller_def empty_health_def sample_pending_def)
  have watched: "(pc_health ?c)\<lparr>hs_pending := sample_pending, hs_revision := hs_revision (pc_health ?c) + 1\<rparr> = sample_watched"
    by (simp add: sample_accepted_def new_controller_def empty_health_def sample_watched_def)
  obtain r d where p: "persist sample_env sample_paths (\<lambda>_. False) sample_watched (sample_disk []) = (r, d)" by force
  have "pr_durability (fst (persist sample_env sample_paths (\<lambda>_. False) sample_watched (sample_disk []))) = Mirrored"
    by (rule persist_mirrored)
      (simp_all add: sibling_standard_paths sample_prepared sample_status sample_watched_storable read_missing_def,
       simp add: sample_disk_def)
  with p have dur: "durable r" by (simp add: durable_def)
  have "commit_health sample_env ((pc_health ?c)\<lparr>hs_pending := sample_pending\<rparr>) ?c
      = (True, [], emit_signal RuntimeHealthChanged (?c\<lparr>pc_fs := d, pc_health := sample_watched\<rparr>))"
    unfolding commit_health_def using p dur watched
    by (simp add: sample_accepted_def new_controller_def empty_health_def sample_pending_def package_states_def Let_def)
  moreover have "pc_artifact ?c = Some sample_artifact_value" "\<not> third_party_safe_mode ?c" "pc_state ?c = Authoritative"
    "pc_health_initialized ?c"
    by (simp_all add: sample_accepted_def new_controller_def third_party_safe_mode_def empty_health_def)
  ultimately show ?thesis
    using auth new unfolding authorize_surface_plan_def
    by (simp add: sample_artifact_fields del: authorize_instances.simps)
qed

text \<open>The run: load, accept, authorise.\<close>

abbreviation sample_published :: controller where
  "sample_published \<equiv> sample_accepted sample_store (sample_disk []) [RuntimeHealthChanged, RuntimeChanged]"

lemma sample_published_run:
  "(controller_step sample_env)\<^sup>*\<^sup>* (new_controller sample_store (sample_disk [])) sample_published"
proof -
  let ?c0 = "new_controller sample_store (sample_disk [])"
  let ?c1 = "?c0\<lparr>pc_health_initialized := True, pc_signals := [RuntimeHealthChanged]\<rparr>"
  have "controller_step sample_env ?c0 ?c1" by (rule Initialize [OF sample_initialize])
  moreover have "controller_step sample_env ?c1 sample_published"
    using Accept [OF sample_accept [where store = sample_store and d = "sample_disk []" and signals = "[RuntimeHealthChanged]"]] by simp
  ultimately show ?thesis by (meson converse_rtranclp_into_rtranclp rtranclp.rtrancl_refl)
qed

lemma sample_published_fields:
  "pc_artifact sample_published = Some sample_artifact_value" "pc_state sample_published = Authoritative"
  "pc_health sample_published = empty_health"
  by (simp_all add: sample_accepted_def new_controller_def)

lemma sample_order: "set [sample_instance_id] = set (renderable_ids (art_plan sample_artifact_value))"
  by (simp add: sample_artifact_fields renderable_ids_def sample_plan_def default_bar_layout_id_def layout_ids_def)

lemma sample_run:
  "\<exists>c. (controller_step sample_env)\<^sup>*\<^sup>* (new_controller sample_store (sample_disk [])) c
     \<and> pc_health c = sample_watched \<and> pc_artifact c = Some sample_artifact_value \<and> pc_state c = Authoritative
     \<and> pc_probation c \<and> pc_health_initialized c"
proof -
  obtain c where c: "authorize_surface_plan sample_env [sample_instance_id] (art_revision sample_artifact_value)
      sample_published = (True, [], c)"
    "pc_health c = sample_watched \<and> pc_artifact c = Some sample_artifact_value \<and> pc_state c = Authoritative
     \<and> pc_probation c \<and> pc_health_initialized c"
    using sample_authorize by blast
  have "controller_step sample_env sample_published c"
    by (rule Authorize [OF c(1) _ sample_published_fields(1) sample_order]) simp
  with sample_published_run have "(controller_step sample_env)\<^sup>*\<^sup>* (new_controller sample_store (sample_disk [])) c"
    by (rule rtranclp.rtrancl_into_rtrancl)
  with c(2) show ?thesis by blast
qed

lemma runs_reachable: "(controller_step E)\<^sup>*\<^sup>* (new_controller store d) c \<Longrightarrow> reachable E store c"
  by (induction rule: rtranclp_induct) (auto intro: reachable.intros)

end
