(* ===== verification/Retry_Finding.thy ===== *)
theory Retry_Finding
  imports Sample_Run
begin

text \<open>
  What \<open>retryComponent\<close> does while the source of the plan is gone: a concrete run without a
  health store in which the third-party package fails, the source becomes unavailable, and the
  user asks for another attempt.
\<close>

definition stripped_plan :: surface_plan where
  "stripped_plan = sample_plan\<lparr>sp_instances := [], sp_bar_layouts := [(Q ''main'',
     \<lparr>bl_output_mode = Q ''all'', bl_start = [], bl_center = [], bl_end = []\<rparr>)]\<rparr>"

lemma stripped_plan_strip: "strip_third_party sample_plan = stripped_plan"
  by (simp add: strip_third_party_def remove_instances_def stripped_plan_def sample_plan_def sample_instance_def
      om_remove_def filter_layout_def)

lemma stripped_plan_again: "strip_third_party stripped_plan = stripped_plan"
  by (simp add: strip_third_party_def remove_instances_def stripped_plan_def)

lemma stripped_artifact: "\<exists>a. make_surface_plan_artifact sample_env stripped_plan = vr_accept a \<and> art_plan a = stripped_plan"
proof -
  have c: "canonical_plan sample_plan" by (rule build_surface_plan_canonical [OF sample_built])
  have "vr_ok (make_surface_plan_artifact sample_env stripped_plan)"
    using sample.removes [OF c sample_artifact_fields(1)] stripped_plan_strip unfolding strip_third_party_def by metis
  then obtain a where a: "make_surface_plan_artifact sample_env stripped_plan = vr_accept a" 
    using plan_codec.make_ok [OF plan_codec_of_json [OF sample.json_codec_axioms]] by blast
  have "canonical_plan stripped_plan" using canonical_filters(1) [OF c] by (simp add: stripped_plan_strip)
  with a sample.carries show ?thesis by blast
qed

definition stripped_artifact_value :: surface_plan_artifact where
  "stripped_artifact_value = the (vr_value (make_surface_plan_artifact sample_env stripped_plan))"

lemma stripped_artifact_fields:
  "make_surface_plan_artifact sample_env stripped_plan = vr_accept stripped_artifact_value"
  "art_plan stripped_artifact_value = stripped_plan"
  using stripped_artifact by (auto simp: stripped_artifact_value_def)

lemma plans_differ: "sample_plan \<noteq> stripped_plan" "stripped_plan \<noteq> sample_plan"
  by (auto simp: stripped_plan_def sample_plan_def)

definition failed_health :: health_state where
  "failed_health = \<lparr>hs_revision = 1, hs_safe_mode = False,
     hs_records = [(record_key sample_id sample_digest, \<lparr>hr_component_id = sample_id, hr_package_digest = sample_digest,
       hr_state = Q ''quarantined'', hr_reason = Q ''render-failed'', hr_failure_count = 1\<rparr>)], hs_pending = []\<rparr>"

text \<open>The states of the run, up to the signals.\<close>

definition at_run :: "plan_state \<Rightarrow> surface_plan_artifact \<Rightarrow> health_state \<Rightarrow> qstring \<Rightarrow> controller \<Rightarrow> bool" where
  "at_run st a h err c \<longleftrightarrow> (\<exists>d signals. c = (new_controller None d)\<lparr>pc_state := st, pc_artifact := Some a,
     pc_catalog := Some sample_catalog, pc_configuration := Some sample_configuration, pc_health := h,
     pc_last_error := err, pc_signals := signals\<rparr>)"

lemma at_run_emit [simp]: "at_run st a h err (emit_signal x c) = at_run st a h err c"
proof
  assume "at_run st a h err (emit_signal x c)"
  then obtain d signals where "emit_signal x c = (new_controller None d)\<lparr>pc_state := st, pc_artifact := Some a,
     pc_catalog := Some sample_catalog, pc_configuration := Some sample_configuration, pc_health := h,
     pc_last_error := err, pc_signals := signals\<rparr>" by (auto simp: at_run_def)
  then have "c = (new_controller None d)\<lparr>pc_state := st, pc_artifact := Some a,
     pc_catalog := Some sample_catalog, pc_configuration := Some sample_configuration, pc_health := h,
     pc_last_error := err, pc_signals := pc_signals c\<rparr>"
    by (cases c) (simp add: emit_signal_def new_controller_def)
  then show "at_run st a h err c" unfolding at_run_def by blast
qed (auto simp: at_run_def emit_signal_def new_controller_def)

lemma publish_run:
  assumes c: "at_run st0 a0 h e0 c" and safe: "\<not> hs_safe_mode h" and p: "hs_pending h = []"
    and shown: "(if allow then filter_quarantined h p1 else strip_third_party p1) = art_plan a"
    and made: "make_surface_plan_artifact sample_env (art_plan a) = vr_accept a"
  shows "\<exists>c'. publish_core sample_env p1 st allow err c = Inr (True, c') \<and> at_run st a h err c'"
proof -
  from c obtain d signals where c: "c = (new_controller None d)\<lparr>pc_state := st0, pc_artifact := Some a0,
     pc_catalog := Some sample_catalog, pc_configuration := Some sample_configuration, pc_health := h,
     pc_last_error := e0, pc_signals := signals\<rparr>" by (auto simp: at_run_def)
  have sp: "shown_plan allow c p1 = art_plan a"
    using shown safe by (auto simp: shown_plan_def c third_party_safe_mode_def new_controller_def)
  have "h\<lparr>hs_pending := []\<rparr> = h" using p by (cases h) simp
  then have prep: "prepare_pending sample_env (art_plan a) c = (True, [], c)"
    using p by (simp add: prepare_pending_def remaining_pending_def c new_controller_def)
  define c1 where "c1 = c\<lparr>pc_artifact := Some a, pc_state := st, pc_last_error := err\<rparr>"
  have "at_run st a h err c1"
    unfolding at_run_def by (intro exI [of _ d] exI [of _ signals]) (simp add: c1_def c new_controller_def)
  moreover have "publish_core sample_env p1 st allow err c = Inr (True, c1)
      \<or> publish_core sample_env p1 st allow err c = Inr (True, emit_signal RuntimeChanged c1)"
    by (simp add: publish_core_def sp prep publish_artifact_def made c1_def Let_def)
  ultimately show ?thesis by auto
qed

lemma rebuild_run:
  assumes c: "at_run st0 a0 h e0 c" and safe: "\<not> hs_safe_mode h" "hs_pending h = []"
    and shown: "filter_quarantined h sample_plan = art_plan a"
    and made: "make_surface_plan_artifact sample_env (art_plan a) = vr_accept a"
  shows "at_run Authoritative a h [] (rebuild_authoritative_plan sample_env c)"
proof -
  obtain c' where "publish_core sample_env sample_plan Authoritative True [] c = Inr (True, c')"
    "at_run Authoritative a h [] c'"
    using publish_run [OF c safe, of True sample_plan a Authoritative "[]"] shown made by auto
  moreover have "pc_catalog c = Some sample_catalog" "pc_configuration c = Some sample_configuration"
    using c by (auto simp: at_run_def)
  ultimately show ?thesis by (simp add: rebuild_authoritative_plan_def sample_built publish_plan_def)
qed

lemma commit_run:
  assumes c: "at_run st a h err c" and "hs_revision h \<noteq> - 1" "length (hs_records n) \<le> 512"
    "length (hs_pending n) \<le> 512" "length (package_states n) \<le> 512"
  shows "\<exists>c'. commit_health sample_env n c = (True, [], c') \<and> at_run st a (n\<lparr>hs_revision := hs_revision h + 1\<rparr>) err c'"
proof -
  from c obtain d signals where c: "c = (new_controller None d)\<lparr>pc_state := st, pc_artifact := Some a,
     pc_catalog := Some sample_catalog, pc_configuration := Some sample_configuration, pc_health := h,
     pc_last_error := err, pc_signals := signals\<rparr>" by (auto simp: at_run_def)
  have "at_run st a (n\<lparr>hs_revision := hs_revision h + 1\<rparr>) err (c\<lparr>pc_health := n\<lparr>hs_revision := hs_revision h + 1\<rparr>\<rparr>)"
    unfolding at_run_def by (intro exI [of _ d] exI [of _ signals]) (simp add: c new_controller_def)
  then show ?thesis using assms(2-) by (simp add: commit_health_def c new_controller_def)
qed

section \<open>The run\<close>

lemma sample_not_quarantined: "hs_records h = [] \<Longrightarrow> filter_quarantined h sample_plan = sample_plan"
  by (simp add: filter_quarantined_def remove_instances_def is_quarantined_def)

lemma sample_quarantined: "filter_quarantined failed_health sample_plan = stripped_plan"
  by (simp add: filter_quarantined_def remove_instances_def is_quarantined_def failed_health_def sample_plan_def
      sample_instance_def stripped_plan_def filter_layout_def om_remove_def)

lemma run_accepted: "\<exists>c. reachable sample_env None c \<and> at_run Authoritative sample_artifact_value empty_health [] c"
proof -
  let ?c = "sample_accepted None (sample_disk []) ([] @ [RuntimeChanged])"
  have "accept_snapshots sample_env sample_catalog sample_configuration (new_controller None (sample_disk [])) = (True, ?c)"
    using sample_accept [where store = None and d = "sample_disk []" and signals = "[]"]
    by (simp add: new_controller_def)
  then have "reachable sample_env None ?c" by (intro reachable.Step [OF reachable.Start] controller_step.Accept)
  moreover have "at_run Authoritative sample_artifact_value empty_health [] ?c"
    unfolding at_run_def sample_accepted_def
    by (intro exI [of _ "sample_disk []"] exI [of _ "[RuntimeChanged]"]) (simp add: new_controller_def)
  ultimately show ?thesis by blast
qed

lemma run_failed:
  assumes r: "reachable sample_env None c" and c: "at_run Authoritative sample_artifact_value empty_health [] c"
  shows "\<exists>c'. activation_failed sample_env sample_instance_id sample_id sample_digest (art_revision sample_artifact_value)
      (Q ''render-failed'') c = (True, [], c')
    \<and> reachable sample_env None c' \<and> at_run Authoritative stripped_artifact_value failed_health [] c'"
proof -
  define n where "n = (quarantine sample_id sample_digest (Q ''render-failed'') (pc_health c))
    \<lparr>hs_pending := drop_package sample_id sample_digest (hs_pending (pc_health c))\<rparr>"
  have h: "pc_health c = empty_health" "pc_artifact c = Some sample_artifact_value" "pc_state c = Authoritative"
    using c by (auto simp: at_run_def)
  have n: "n\<lparr>hs_revision := hs_revision empty_health + 1\<rparr> = failed_health"
    by (simp add: n_def h quarantine_def quarantine_record_def drop_package_def failed_health_def empty_health_def)
  have b: "length (hs_records n) \<le> 512" "length (hs_pending n) \<le> 512" "length (package_states n) \<le> 512"
    by (simp_all add: n_def h quarantine_def drop_package_def empty_health_def package_states_def)
  obtain c1 where c1: "commit_health sample_env n c = (True, [], c1)" "at_run Authoritative sample_artifact_value failed_health [] c1"
    using commit_run [OF c _ b] n by (auto simp: empty_health_def)
  have mi: "matching_instance sample_instance_id sample_id sample_digest (art_revision sample_artifact_value) c \<noteq> None"
    by (simp add: matching_instance_def h sample_artifact_fields sample_plan_def sample_instance_def)
  have "activation_failed sample_env sample_instance_id sample_id sample_digest (art_revision sample_artifact_value)
      (Q ''render-failed'') c = (True, [], rebuild_authoritative_plan sample_env c1)"
    using mi c1(1) by (simp add: activation_failed_def n_def Let_def)
  moreover from this have "reachable sample_env None (rebuild_authoritative_plan sample_env c1)"
    by (intro reachable.Step [OF r] controller_step.Failed)
  moreover have "at_run Authoritative stripped_artifact_value failed_health [] (rebuild_authoritative_plan sample_env c1)"
    by (rule rebuild_run [OF c1(2)])
      (simp_all add: stripped_artifact_fields sample_quarantined, simp_all add: failed_health_def)
  ultimately show ?thesis by blast
qed

lemma run_retained:
  assumes r: "reachable sample_env None c" and c: "at_run Authoritative stripped_artifact_value failed_health [] c"
  shows "\<exists>c'. reachable sample_env None c' \<and> at_run Retained stripped_artifact_value failed_health (Q ''gone'') c'"
proof -
  have "pc_artifact c = Some stripped_artifact_value" using c by (auto simp: at_run_def)
  moreover obtain c' where "publish_core sample_env stripped_plan Retained False (Q ''gone'') c = Inr (True, c')"
    "at_run Retained stripped_artifact_value failed_health (Q ''gone'') c'"
    using publish_run [OF c, of False stripped_plan stripped_artifact_value Retained "Q ''gone''"]
    by (auto simp: stripped_artifact_fields stripped_plan_again failed_health_def)
  moreover from calculation have "source_unavailable sample_env (Q ''gone'') c = c'"
    by (simp add: source_unavailable_def set_failed_state_def stripped_artifact_fields)
  then have "reachable sample_env None c'" using reachable.Step [OF r controller_step.Source_unavailable] by metis
  ultimately show ?thesis by blast
qed

lemma run_retried:
  assumes c: "at_run Retained stripped_artifact_value failed_health (Q ''gone'') c"
  shows "\<exists>c'. retry_component sample_env sample_id sample_digest 1 c = (True, [], c')
    \<and> at_run Authoritative sample_artifact_value (empty_health\<lparr>hs_revision := 2\<rparr>) [] c'"
proof -
  define n where "n = (pc_health c)\<lparr>hs_records := om_remove (record_key sample_id sample_digest) (hs_records (pc_health c))\<rparr>"
  have h: "pc_health c = failed_health" using c by (auto simp: at_run_def)
  have n: "n\<lparr>hs_revision := hs_revision failed_health + 1\<rparr> = empty_health\<lparr>hs_revision := 2\<rparr>"
    by (simp add: n_def h failed_health_def empty_health_def om_remove_def)
  have b: "hs_records n = []" "hs_pending n = []" by (simp_all add: n_def h failed_health_def om_remove_def)
  have n2: "failed_health\<lparr>hs_records := om_remove (record_key sample_id sample_digest) (hs_records failed_health)\<rparr> = n"
    by (simp add: n_def h)
  have rev1: "hs_revision failed_health \<noteq> - 1" by (simp add: failed_health_def)
  obtain c1 where c1: "commit_health sample_env n c = (True, [], c1)"
    "at_run Retained stripped_artifact_value (empty_health\<lparr>hs_revision := 2\<rparr>) (Q ''gone'') c1"
    using commit_run [OF c rev1, of n] n b by (auto simp: package_states_def)
  have q: "is_quarantined failed_health sample_id sample_digest" by (simp add: is_quarantined_def failed_health_def)
  have "retry_component sample_env sample_id sample_digest 1 c = (True, [], rebuild_authoritative_plan sample_env c1)"
    using c1(1) q h n2 by (simp add: retry_component_def Let_def) (simp add: failed_health_def)
  moreover have "at_run Authoritative sample_artifact_value (empty_health\<lparr>hs_revision := 2\<rparr>) [] (rebuild_authoritative_plan sample_env c1)"
    by (rule rebuild_run [OF c1(2)])
      (simp_all add: sample_artifact_fields sample_not_quarantined, simp_all add: empty_health_def sample_not_quarantined)
  ultimately show ?thesis by blast
qed

text \<open>
  C34: Retrying a quarantined package does not look at the state of the source: in a reachable
  state in which the source is unavailable and the plan only retained, a successful retry makes
  the plan authoritative again, built from the snapshots of the lost source, and publishes the
  third-party instance.
\<close>

theorem retry_revives_a_retained_plan:
  "\<exists>c c'. reachable sample_env None c \<and> pc_state c = Retained
     \<and> retry_component sample_env sample_id sample_digest 1 c = (True, [], c')
     \<and> pc_state c' = Authoritative \<and> pc_artifact c' = Some sample_artifact_value
     \<and> \<not> builtin_only (art_plan sample_artifact_value)"
proof -
  obtain c1 where c1: "reachable sample_env None c1" "at_run Authoritative sample_artifact_value empty_health [] c1"
    using run_accepted by blast
  obtain c2 where c2: "reachable sample_env None c2" "at_run Authoritative stripped_artifact_value failed_health [] c2"
    using run_failed [OF c1] by blast
  obtain c3 where c3: "reachable sample_env None c3" "at_run Retained stripped_artifact_value failed_health (Q ''gone'') c3"
    using run_retained [OF c2] by blast
  obtain c4 where c4: "retry_component sample_env sample_id sample_digest 1 c3 = (True, [], c4)"
    "at_run Authoritative sample_artifact_value (empty_health\<lparr>hs_revision := 2\<rparr>) [] c4"
    using run_retried [OF c3(2)] by blast
  have "\<not> builtin_only (art_plan sample_artifact_value)"
    by (simp add: sample_artifact_fields sample_plan_def builtin_only_def sample_instance_def)
  with c3 c4 show ?thesis unfolding at_run_def by (intro exI [of _ c3] exI [of _ c4]) auto
qed

end
