(* ===== verification/Plan_Guarantees.thy ===== *)
theory Plan_Guarantees
  imports Retry_Finding
begin

text \<open>
  What the shell may rely on of the component runtime: which plans are published, what happens
  to a third-party package from its authorisation to its quarantine, and what survives a crash.
\<close>

lemmas sample_codec = sample.json_codec_axioms

lemma reachable_controller_inv: "json_codec E \<Longrightarrow> reachable E store c \<Longrightarrow> controller_inv E c"
  by (rule plan_codec.reachable_inv [OF plan_codec_of_json])

lemma sample_reachable:
  "\<exists>c. reachable sample_env sample_store c \<and> pc_health c = sample_watched
     \<and> pc_artifact c = Some sample_artifact_value \<and> pc_state c = Authoritative \<and> pc_probation c \<and> pc_health_initialized c"
  using sample_run runs_reachable by blast

lemma sample_watched_open: "pc_health c = sample_watched \<Longrightarrow> pc_health_initialized c \<Longrightarrow> \<not> third_party_safe_mode c"
  by (simp add: third_party_safe_mode_def sample_watched_def)

section \<open>What is published\<close>

text \<open>
  C2: In every reachable state the published plan shows no third-party instance of a quarantined
  package, and none at all in third-party safe mode or while the plan is only retained. The
  health files may change under the controller at any time.
\<close>

theorem published_plan_is_safe:
  assumes "json_codec E" and "reachable E store c" and "pc_artifact c = Some a"
  shows "no_quarantined (pc_health c) (art_plan a)
    \<and> (third_party_safe_mode c \<or> pc_state c = Retained \<longrightarrow> builtin_only (art_plan a))"
  using reachable_controller_inv [OF assms(1,2)] assms(3) by (auto simp: controller_inv_def artifact_inv_def)

theorem published_plan_is_safe_witness:
  "\<exists>c. reachable sample_env sample_store c \<and> no_quarantined (pc_health c) sample_plan"
proof -
  obtain c where c: "reachable sample_env sample_store c" "pc_artifact c = Some sample_artifact_value"
    using sample_reachable by blast
  from published_plan_is_safe [OF sample_codec c] c(1) show ?thesis by (auto simp: sample_artifact_fields)
qed

text \<open>
  C5: What is published is what the renderer accepts: the bytes of a published artifact parse
  back to its plan, the plan satisfies the invariant of the format (every instance is placed
  exactly once and is one the host trusts), and digest and revision are those of the bytes.
\<close>

theorem published_artifact_carries_plan:
  assumes "json_codec E" and "reachable E store c" and "pc_artifact c = Some a"
  shows "parse_surface_plan E (art_bytes a) = vr_accept (art_plan a) \<and> plan_ok E (art_plan a)
    \<and> art_digest a = surface_plan_digest E (art_bytes a) \<and> art_revision a = surface_plan_revision (art_digest a)"
proof -
  have m: "make_surface_plan_artifact E (art_plan a) = vr_accept a"
    using reachable_controller_inv [OF assms(1,2)] assms(3) by (simp add: controller_inv_def core_inv_def published_def)
  show ?thesis
  proof (cases rule: make_surface_plan_artifact_cases [of E "art_plan a"])
    case (1 m b)
    with \<open>make_surface_plan_artifact E (art_plan a) = vr_accept a\<close> have "b = a" by simp
    with 1 show ?thesis by (simp add: parse_surface_plan_def)
  next
    case (2 es)
    with m show ?thesis by simp
  qed
qed

theorem published_artifact_carries_plan_witness: "plan_ok sample_env sample_plan"
proof -
  obtain c where c: "reachable sample_env sample_store c" "pc_artifact c = Some sample_artifact_value"
    using sample_reachable by blast
  from published_artifact_carries_plan [OF sample_codec c] show ?thesis by (simp add: sample_artifact_fields)
qed

section \<open>Probation\<close>

text \<open>
  C4: A third-party activation on probation is always watched: outside safe mode the probation
  timer runs whenever an activation is pending, and every pending activation belongs to an
  instance of the published plan with that component and digest.
\<close>

theorem probation_is_watched:
  assumes "json_codec E" and "reachable E store c" and "\<not> third_party_safe_mode c"
    and "(x, p) \<in> set (hs_pending (pc_health c))"
  shows "pc_probation c \<and> (\<exists>a i. pc_artifact c = Some a \<and> map_of (sp_instances (art_plan a)) x = Some i
    \<and> si_runtime_kind i = declarative_kind \<and> si_component_id i = pa_component_id p
    \<and> si_package_digest i = pa_package_digest p)"
proof -
  have "pending_watched c" using reachable_controller_inv [OF assms(1,2)] by (simp add: controller_inv_def)
  then obtain a where "pc_probation c" "pc_artifact c = Some a" "matches_pending (art_plan a) x p"
    using assms(3,4) by (cases "pc_artifact c") (auto simp: pending_watched_def list_all_iff)
  then show ?thesis by (auto simp: matches_pending_def split: option.splits)
qed

theorem probation_is_watched_witness:
  "\<exists>c. reachable sample_env sample_store c \<and> hs_pending (pc_health c) = sample_pending \<and> pc_probation c"
proof -
  obtain c where c: "reachable sample_env sample_store c" "pc_health c = sample_watched" "pc_health_initialized c"
    using sample_reachable by blast
  have "(sample_instance_id, \<lparr>pa_instance_id = sample_instance_id, pa_component_id = sample_id,
      pa_package_digest = sample_digest\<rparr>) \<in> set (hs_pending (pc_health c))"
    by (simp add: c(2) sample_watched_def sample_pending_def)
  from probation_is_watched [OF sample_codec c(1) sample_watched_open [OF c(2,3)] this] c show ?thesis
    by (auto simp: sample_watched_def)
qed

text \<open>
  C3: Probation ends. When the timer fires, no activation stays pending and every package that
  was on probation is quarantined and gone from the published plan, or third-party content is
  disabled altogether because the health state could not be stored.
\<close>

theorem probation_expires:
  assumes "json_codec E" and "reachable E store c" and "pc_probation c" and "(x, p) \<in> set (hs_pending (pc_health c))"
    and "c' = probation_timeout E c"
  shows "(third_party_safe_mode c' \<or> hs_pending (pc_health c') = []
      \<and> is_quarantined (pc_health c') (pa_component_id p) (pa_package_digest p))
    \<and> (case pc_artifact c' of None \<Rightarrow> True | Some a \<Rightarrow> list_all (\<lambda>e. si_runtime_kind (snd e) = builtin_kind
         \<or> si_component_id (snd e) \<noteq> pa_component_id p \<or> si_package_digest (snd e) \<noteq> pa_package_digest p)
         (sp_instances (art_plan a)))"
proof -
  have inv: "controller_inv E c" by (rule reachable_controller_inv [OF assms(1,2)])
  have "reachable E store c'" using assms(2,3,5) by (auto intro: reachable.Step controller_step.Timeout)
  then have inv': "controller_inv E c'" by (rule reachable_controller_inv [OF assms(1)])
  have effect: "third_party_safe_mode c' \<or> hs_pending (pc_health c') = []
      \<and> is_quarantined (pc_health c') (pa_component_id p) (pa_package_digest p)"
    using timeout_effect [OF inv assms(4)] by (simp add: assms(5))
  have "list_all (\<lambda>e. si_runtime_kind (snd e) = builtin_kind
      \<or> si_component_id (snd e) \<noteq> pa_component_id p \<or> si_package_digest (snd e) \<noteq> pa_package_digest p)
      (sp_instances (art_plan a))" if "pc_artifact c' = Some a" for a
    using inv' that effect
    by (auto simp: controller_inv_def artifact_inv_def no_quarantined_def builtin_only_def list_all_iff)
  with effect show ?thesis by (auto split: option.split)
qed

theorem probation_expires_witness:
  "\<exists>c. reachable sample_env sample_store c \<and> hs_pending (pc_health c) = sample_pending
     \<and> (third_party_safe_mode (probation_timeout sample_env c)
        \<or> is_quarantined (pc_health (probation_timeout sample_env c)) sample_id sample_digest)"
proof -
  obtain c where c: "reachable sample_env sample_store c" "pc_health c = sample_watched" "pc_probation c"
    using sample_reachable by blast
  have "(sample_instance_id, \<lparr>pa_instance_id = sample_instance_id, pa_component_id = sample_id,
      pa_package_digest = sample_digest\<rparr>) \<in> set (hs_pending (pc_health c))"
    by (simp add: c(2) sample_watched_def sample_pending_def)
  from probation_expires [OF sample_codec c(1,3) this refl] c show ?thesis
    by (auto simp: sample_watched_def)
qed

text \<open>
  C6: A successful authorisation puts every third-party instance of the main bar on probation
  before the renderer may start it: each is not quarantined, is recorded as pending and the
  timer runs.
\<close>

theorem authorisation_starts_probation:
  assumes "json_codec E" and "reachable E store c" and "authorize_surface_plan E order revision c = (True, e, c')"
    and "pc_artifact c = Some a" and "set order = set (renderable_ids (art_plan a))"
    and "x \<in> set (renderable_ids (art_plan a))" and "map_of (sp_instances (art_plan a)) x = Some i"
    and "si_runtime_kind i = declarative_kind"
  shows "\<not> is_quarantined (pc_health c) (si_component_id i) (si_package_digest i)
    \<and> om_contains (hs_pending (pc_health c')) x \<and> pc_probation c' \<and> pc_artifact c' = Some a"
proof -
  have inv: "controller_inv E c" by (rule reachable_controller_inv [OF assms(1,2)])
  then have om: "om_inv (hs_pending (pc_health c))" by (simp add: controller_inv_def core_inv_def health_wf_def)
  from assms(3,4) obtain m where m: "authorize_instances (pc_health c) (art_plan a) order (hs_pending (pc_health c)) = Inr m"
    by (auto simp: authorize_surface_plan_def Let_def split: if_splits sum.splits)
  have x: "\<not> is_quarantined (pc_health c) (si_component_id i) (si_package_digest i) \<and> map_of m x \<noteq> None"
    using authorize_instances_complete [OF m om _ assms(7,8)] assms(5,6) by simp
  show ?thesis
  proof (cases "(pc_health c)\<lparr>hs_pending := m\<rparr> = pc_health c")
    case True
    then have "hs_pending (pc_health c) = m" by (metis health_state.select_convs(4) health_state.surjective health_state.update_convs(4))
    with True assms(3,4) m x show ?thesis
      by (auto simp: authorize_surface_plan_def om_contains_def split: if_splits)
  next
    case False
    obtain k f c1 where cm: "commit_health E ((pc_health c)\<lparr>hs_pending := m\<rparr>) c = (k, f, c1)" by (metis prod_cases3)
    have k: "k" "c' = c1\<lparr>pc_probation := True\<rparr>"
      using assms(3,4) m False cm by (auto simp: authorize_surface_plan_def split: if_splits)
    with commit_health_effect(1,2) [OF cm] x assms(4) show ?thesis by (simp add: om_contains_def same_plan_def)
  qed
qed

theorem authorisation_starts_probation_witness:
  "\<exists>c' :: controller. om_contains (hs_pending (pc_health c')) sample_instance_id \<and> pc_probation c'"
proof -
  obtain c where c: "authorize_surface_plan sample_env [sample_instance_id] (art_revision sample_artifact_value)
      sample_published = (True, [], c)" using sample_authorize by blast
  have x: "sample_instance_id \<in> set (renderable_ids (art_plan sample_artifact_value))" using sample_order by auto
  have i: "map_of (sp_instances (art_plan sample_artifact_value)) sample_instance_id = Some sample_instance"
    by (simp add: sample_artifact_fields sample_plan_def)
  have k: "si_runtime_kind sample_instance = declarative_kind" by (simp add: sample_instance_def)
  from authorisation_starts_probation [OF sample_codec runs_reachable [OF sample_published_run] c
      sample_published_fields(1) sample_order x i k] show ?thesis by blast
qed

text \<open>
  C1: A crash forgets no failure. Whatever run the controller is in and whichever file system
  calls failed, a controller started on the files it leaves behind, under any new schedule of
  failures, has every package quarantined that was quarantined or on probation, or disables
  third-party content.
\<close>

theorem crash_forgets_no_failure:
  assumes "json_codec E" and "sibling_paths P"
    and "\<And>h. snapshot E P d = Some h \<Longrightarrow> storable E h"
    and "(controller_step E)\<^sup>*\<^sup>* (new_controller (Some (P, inject)) d) c"
    and "suspected (pc_health c) cid dg"
    and "initialize_runtime_health E (new_controller (Some (P, inject')) ((pc_fs c)\<lparr>fs_faults := faults\<rparr>)) = (ok, e, c')"
  shows "third_party_safe_mode c' \<or> is_quarantined (pc_health c') cid dg"
proof (rule restart_quarantines [OF assms(6)])
  fix h assume "snapshot E P ((pc_fs c)\<lparr>fs_faults := faults\<rparr>) = Some h"
  then have h: "snapshot E P (pc_fs c) = Some h" by (simp add: snapshot_def status_of_faults)
  have "synced E P c" using plan_codec.runs_synced [OF plan_codec_of_json [OF assms(1)] assms(4,2,3)] by blast
  moreover have "\<not> suspected empty_health cid dg" "\<not> suspected safe_mode_health cid dg"
    by (simp_all add: suspected_def is_quarantined_def empty_health_def safe_mode_health_def)
  ultimately have "pc_health c = h \<or> pc_health c = h\<lparr>hs_safe_mode := True\<rparr>"
    using h assms(5) by (auto simp: synced_def split: if_splits)
  with assms(5) show "suspected h cid dg" by (auto simp: suspected_def is_quarantined_def)
qed

theorem crash_forgets_no_failure_witness:
  "\<exists>c :: controller. pc_health c = sample_watched
     \<and> (case initialize_runtime_health sample_env (new_controller sample_store ((pc_fs c)\<lparr>fs_faults := []\<rparr>)) of
          (ok, e, c') \<Rightarrow> third_party_safe_mode c' \<or> is_quarantined (pc_health c') sample_id sample_digest)"
proof -
  obtain c where c: "(controller_step sample_env)\<^sup>*\<^sup>* (new_controller sample_store (sample_disk [])) c"
    "pc_health c = sample_watched" using sample_run by blast
  have sto: "storable sample_env h" if "snapshot sample_env sample_paths (sample_disk []) = Some h" for h
    using that sample_empty_storable by (simp add: sample_snapshot)
  have sus: "suspected (pc_health c) sample_id sample_digest"
    by (simp add: c(2) suspected_def sample_watched_def sample_pending_def)
  obtain ok e c' where i: "initialize_runtime_health sample_env (new_controller sample_store ((pc_fs c)\<lparr>fs_faults := []\<rparr>))
      = (ok, e, c')" by (metis prod_cases3)
  have "third_party_safe_mode c' \<or> is_quarantined (pc_health c') sample_id sample_digest"
    by (rule crash_forgets_no_failure [OF sample_codec sibling_standard_paths _ c(1) sus i]) (rule sto)
  with i c(2) show ?thesis by (intro exI [of _ c]) auto
qed

section \<open>Messages of the renderer\<close>

text \<open>
  C7: A failure report that is accepted takes effect at once: the package is quarantined, none
  of its activations stays pending, and the published plan shows it no more.
\<close>

theorem failure_report_quarantines:
  assumes "json_codec E" and "reachable E store c"
    and "activation_failed E x cid dg revision reason c = (True, e, c')"
  shows "is_quarantined (pc_health c') cid dg
    \<and> list_all (\<lambda>p. \<not> (pa_component_id (snd p) = cid \<and> pa_package_digest (snd p) = dg)) (hs_pending (pc_health c'))
    \<and> (case pc_artifact c' of None \<Rightarrow> True | Some a \<Rightarrow> list_all (\<lambda>q. si_runtime_kind (snd q) = builtin_kind
         \<or> si_component_id (snd q) \<noteq> cid \<or> si_package_digest (snd q) \<noteq> dg) (sp_instances (art_plan a)))"
proof -
  have inv: "controller_inv E c" by (rule reachable_controller_inv [OF assms(1,2)])
  note effect = activation_failed_effect [OF inv assms(3)]
  have "controller_inv E c'"
    using plan_codec.activation_failed_inv [OF plan_codec_of_json [OF assms(1)] inv assms(3)] .
  then have "no_quarantined (pc_health c') (art_plan a)" if "pc_artifact c' = Some a" for a
    using that by (simp add: controller_inv_def artifact_inv_def)
  with effect show ?thesis by (fastforce simp: no_quarantined_def list_all_iff split: option.split)
qed

theorem failure_report_quarantines_witness:
  "\<exists>c'. reachable sample_env None c' \<and> is_quarantined (pc_health c') sample_id sample_digest"
proof -
  obtain c where c: "reachable sample_env None c" "at_run Authoritative sample_artifact_value empty_health [] c"
    using run_accepted by blast
  obtain c' where c': "activation_failed sample_env sample_instance_id sample_id sample_digest
      (art_revision sample_artifact_value) (Q ''render-failed'') c = (True, [], c')" "reachable sample_env None c'"
    using run_failed [OF c] by blast
  from failure_report_quarantines [OF sample_codec c(1) c'(1)] c'(2) show ?thesis by blast
qed

text \<open>
  C8: A message about a plan that is not the current one changes nothing: authorisation,
  cancellation, stability and failure reports with another revision are refused and leave the
  controller as it was.
\<close>

theorem stale_messages_change_nothing:
  assumes "pc_artifact c = None \<or> pc_artifact c = Some a \<and> art_revision a \<noteq> revision \<or> pc_state c \<noteq> Authoritative"
  shows "authorize_surface_plan E order revision c = (False, Q ''The surface plan is stale or unavailable'', c)
    \<and> cancel_surface_plan_authorization E revision c = (False, Q ''The surface plan is stale or unavailable'', c)
    \<and> activation_stable E x cid dg revision c = (False, Q ''The activation tuple is stale or invalid'', c)
    \<and> (\<exists>e. activation_failed E x cid dg revision reason c = (False, e, c))"
  using assms
  by (auto simp: authorize_surface_plan_def cancel_surface_plan_authorization_def activation_stable_def
      activation_failed_def matching_instance_def split: option.split)

theorem stale_messages_change_nothing_witness:
  "activation_stable sample_env sample_instance_id sample_id sample_digest 7 (new_controller sample_store (sample_disk []))
    = (False, Q ''The activation tuple is stale or invalid'', new_controller sample_store (sample_disk []))"
  using stale_messages_change_nothing [of "new_controller sample_store (sample_disk [])" undefined 7 sample_env "[]"
      sample_instance_id sample_id sample_digest "[]"]
  by (simp add: new_controller_def)

end
