(* ===== verification/Format_Guarantees.thy ===== *)
theory Format_Guarantees
  imports Sample_Run
begin

text \<open>
  The documents of the component runtime and the plans the builder makes of a configuration:
  what is built is exactly what the user asked for and the host trusts, what is written is read
  back, and the sizes and counters stay in their bounds.
\<close>

section \<open>The builder\<close>

text \<open>
  C9: The layouts of a built plan are the layouts of the configuration, in the order of their
  identifiers, from which exactly the placements are dropped whose instance or component is
  disabled, not in the catalog, or recorded with another digest than the installed one.
\<close>

theorem builder_filters_configuration:
  assumes "build_surface_plan E cat conf = vr_accept p" and "distinct (map fst (cf_bar_layouts conf))"
  shows "sp_bar_layouts p = map (\<lambda>k. (k, effective_layout cat conf (the (map_of (cf_bar_layouts conf) k))))
      (sort (map fst (cf_bar_layouts conf)))
    \<and> sp_catalog_digest p = cs_digest cat \<and> sp_configuration_revision p = cf_revision conf"
proof -
  from assms(1) obtain bars s where
    b: "build_layouts E cat conf (sort (map fst (cf_bar_layouts conf))) \<lparr>bs_placed = [], bs_instances = []\<rparr> [] = Inr (bars, s)"
    and p: "sp_bar_layouts p = bars" "sp_catalog_digest p = cs_digest cat" "sp_configuration_revision p = cf_revision conf"
    by (auto simp: build_surface_plan_def split: option.splits sum.splits)
  show ?thesis using build_layouts_filter [OF b] assms(2) by (simp add: p strict_sorted_iff)
qed

theorem builder_filters_configuration_witness:
  "sp_bar_layouts sample_plan = [(Q ''main'', effective_layout sample_catalog sample_configuration
     (the (map_of (cf_bar_layouts sample_configuration) (Q ''main''))))]"
proof -
  have "distinct (map fst (cf_bar_layouts sample_configuration))" by (simp add: sample_configuration_def)
  from builder_filters_configuration [OF sample_built this] show ?thesis by (simp add: sample_configuration_def)
qed

lemma count_list_distinct: "distinct xs \<Longrightarrow> count_list xs x = (if x \<in> set xs then 1 else 0)"
  by (induction xs) auto

text \<open>
  C10: Every instance of a built plan is placed exactly once and is backed by the configuration
  and the catalog: it and its component are enabled, its digest is the installed one, it has no
  granted capability, and it is the protected workspace switcher or an exact declarative package.
\<close>

theorem built_instances_are_trusted:
  assumes "build_surface_plan E cat conf = vr_accept p" and "distinct (map fst (cf_bar_layouts conf))"
    and "(x, i) \<in> set (sp_instances p)"
  shows "backed E cat conf x i \<and> count_list (placed_ids p) x = 1"
proof -
  note ok = build_surface_plan_ok [OF assms(1,2)]
  have "x \<in> set (placed_ids p)" "distinct (placed_ids p)"
    using ok(1) assms(3) by (force simp: placement_ok_def)+
  then have "count_list (placed_ids p) x = 1" by (simp add: count_list_distinct)
  with ok(4) assms(3) show ?thesis by (force simp: list_all_iff)
qed

theorem built_instances_are_trusted_witness:
  "backed sample_env sample_catalog sample_configuration sample_instance_id sample_instance"
proof -
  have "distinct (map fst (cf_bar_layouts sample_configuration))" by (simp add: sample_configuration_def)
  from built_instances_are_trusted [OF sample_built this, of sample_instance_id sample_instance]
  show ?thesis by (simp add: sample_plan_def)
qed

section \<open>Round trips\<close>

text \<open>
  C12: The parser of surface plans accepts the object the serialiser makes of a plan, as that
  plan, exactly when the plan satisfies the invariant of the format.
\<close>

theorem plan_object_round_trip:
  "parse_plan_root E (plan_object p) = vr_accept p \<longleftrightarrow> plan_ok E p"
proof
  assume "parse_plan_root E (plan_object p) = vr_accept p"
  then have "vr_ok (parse_plan_root E (plan_object p))" "\<And>q. parse_plan_root E (plan_object p) = vr_accept q \<Longrightarrow> q = p"
    by simp_all
  then show "plan_ok E p" by (metis parse_plan_root_ok)
qed (rule parse_plan_object)

text \<open>
  C13: A declarative document is returned by the parser for some input exactly when the parser
  returns it for the object the serialiser makes of it: parsing the canonical form loses
  nothing, whatever the settings schema.
\<close>

theorem declarative_round_trip:
  assumes "normal_idempotent E"
  shows "(\<exists>doc. parse_document_root E schema doc = vr_accept d)
    \<longleftrightarrow> parse_document_root E schema (document_object d) = vr_accept d"
proof
  assume "\<exists>doc. parse_document_root E schema doc = vr_accept d"
  then obtain doc where doc: "parse_document_root E schema doc = vr_accept d" by blast
  then have "vr_ok (parse_document_root E schema doc)" by simp
  from parse_document_root_ok [OF assms this] doc have "document_ok E schema d" by auto
  then show "parse_document_root E schema (document_object d) = vr_accept d" by (rule parse_document_object)
qed blast

lemma sample_idempotent: "normal_idempotent sample_env"
  by (simp add: normal_idempotent_def sample_env_def)

theorem declarative_round_trip_witness:
  "parse_document_root sample_env None (document_object sample_document) = vr_accept sample_document"
proof -
  have "parse_document_root sample_env None
      [(Q ''documentVersion'', JNum 1), (Q ''text'', JObj [(Q ''literal'', JStr (Q ''hi''))]), (Q ''type'', JStr (Q ''text-pill''))]
    = vr_accept sample_document"
    by (simp add: parse_document_root_def reject_unknown_fields_def parse_text_source_def bounded_text_def
        parse_tooltip_def parse_maximum_width_def om_contains_def sample_document_def empty_document_def
        maximum_resolved_text_length_def sample_env_def Q_def)
  then show ?thesis using declarative_round_trip [OF sample_idempotent, of None sample_document] by blast
qed

section \<open>Bounds\<close>

lemma hex_digit_char: "d < 16 \<Longrightarrow> hex_digit (hex_char d) = Some (word_of_nat d)"
proof -
  have "\<forall>d \<in> {..<16}. hex_digit (hex_char d) = Some (word_of_nat d)"
    by (simp add: lessThan_nat_numeral lessThan_Suc hex_char_def hex_digit_def)
  then show "d < 16 \<Longrightarrow> ?thesis" by simp
qed

lemma map_filter_hex: "List.map_filter hex_digit (to_hex bs)
    = concat (map (\<lambda>b. [word_of_nat (unat b div 16), word_of_nat (unat b mod 16)]) bs)"
proof (induction bs)
  case (Cons b bs)
  have "unat b div 16 < 16" using unsigned_less [of b, where 'a = nat] by simp
  with Cons show ?case by (simp add: to_hex_def hex_digit_char List.map_filter_simps)
qed (simp add: to_hex_def List.map_filter_simps)

lemma length_from_hex: "length (from_hex (to_hex bs)) = length bs"
proof -
  have "length (pair_nibbles (concat (map (\<lambda>b. [f b, g b]) bs))) = length bs" for f g :: "8 word \<Rightarrow> qchar"
    by (induction bs) simp_all
  moreover have "even (length (concat (map (\<lambda>b. [f b, g b]) bs)))" for f g :: "8 word \<Rightarrow> qchar"
    by (induction bs) simp_all
  ultimately show ?thesis by (simp add: from_hex_def map_filter_hex Let_def)
qed

lemma parse_object_bytes: "parse_object E B D bs = vr_accept m \<Longrightarrow> int (length bs) \<le> B"
  using parse_object_ok [of E B D bs] by auto

text \<open>
  C15: What is published stays in its bounds: an artifact has at most four mebibytes and a
  revision other than 0, the value that means no plan; the plan has at most 512 instances and
  64 layouts, and the texts and widths of its third-party instances fit the bar.
\<close>

theorem artifact_bounds:
  assumes "make_surface_plan_artifact E p = vr_accept a" and "\<And>bs. length (qt_sha256 E bs) = 32"
  shows "art_revision a \<noteq> 0 \<and> int (length (art_bytes a)) \<le> 4 * 1024 * 1024
    \<and> length (sp_instances (art_plan a)) \<le> 512 \<and> length (sp_bar_layouts (art_plan a)) \<le> 64
    \<and> list_all (\<lambda>e. si_runtime_kind (snd e) = builtin_kind
        \<or> length (si_declarative_text (snd e)) \<le> 128 \<and> 48 \<le> uint (si_maximum_width (snd e))
          \<and> uint (si_maximum_width (snd e)) \<le> 512) (sp_instances (art_plan a))"
proof (cases rule: make_surface_plan_artifact_cases [of E p])
  case (1 m b)
  then have b: "b = a" using assms(1) by simp
  have "int (length (art_bytes a)) \<le> 4 * 1024 * 1024"
    using parse_object_bytes [OF 1(2)] 1(5) b by (simp add: maximum_plan_bytes_def)
  moreover have "art_revision a \<noteq> 0"
    using 1(6,7) assms(2) b by (auto simp: surface_plan_revision_def surface_plan_digest_def length_from_hex Let_def)
  ultimately show ?thesis
    using 1(4) b by (auto simp: plan_ok_def instance_ok_def runtime_ok_def is_valid_resolved_text_def list_all_iff
        maximum_plan_instances_def maximum_plan_bar_layouts_def maximum_resolved_text_length_def
        minimum_maximum_width_def maximum_maximum_width_def)
next
  case (2 es)
  with assms(1) show ?thesis by simp
qed

theorem artifact_bounds_witness: "art_revision sample_artifact_value \<noteq> 0"
proof -
  have "length (qt_sha256 sample_env bs) = 32" for bs by (simp add: sample_env_def)
  from artifact_bounds [OF sample_artifact_fields(1) this] show ?thesis by simp
qed

lemma package_states_card:
  "length (package_states s) = card (fst ` set (hs_records s) \<union> pending_key ` snd ` set (hs_pending s))"
  by (simp add: package_states_def length_remdups_card_conv image_comp)

text \<open>
  C16: A commit of the health state never wraps its revision and never exceeds the limits of the
  store. A successful one makes exactly the proposed state current, under the next revision, with
  at most 512 records, 512 pending activations and 512 packages named by either. A refused one
  changes nothing of the health state but that third-party content is disabled, stops the timer and
  keeps the artifact; an exhausted counter or a state over one of the three limits is always refused, and before any file is touched.
\<close>

theorem commit_bounds:
  assumes "commit_health E next_health c = (ok, e, c')"
  shows "(if ok then pc_health c' = next_health\<lparr>hs_revision := hs_revision (pc_health c) + 1\<rparr>
        \<and> unat (hs_revision (pc_health c')) = unat (hs_revision (pc_health c)) + 1
        \<and> length (hs_records (pc_health c')) \<le> 512 \<and> length (hs_pending (pc_health c')) \<le> 512
        \<and> card (fst ` set (hs_records (pc_health c')) \<union> pending_key ` snd ` set (hs_pending (pc_health c'))) \<le> 512
      else pc_health c' = (pc_health c)\<lparr>hs_safe_mode := True\<rparr> \<and> \<not> pc_probation c' \<and> pc_artifact c' = pc_artifact c)
    \<and> (hs_revision (pc_health c) = - 1 \<or> 512 < length (hs_records next_health) \<or> 512 < length (hs_pending next_health)
        \<or> 512 < card (fst ` set (hs_records next_health) \<union> pending_key ` snd ` set (hs_pending next_health))
      \<longrightarrow> \<not> ok \<and> pc_fs c' = pc_fs c)"
proof -
  have suc: "unat (x + 1) = unat x + 1" if "x \<noteq> - 1" for x :: "64 word"
    using that by (metis Suc_eq_plus1 add.commute unatSuc add_eq_0_iff)
  note count = package_states_card [of next_health, symmetric]
  show ?thesis
    using assms by (auto simp: commit_health_def fail_safe_def emit_signal_def suc count Let_def
        split: if_splits option.splits prod.splits)
qed

theorem commit_bounds_witness:
  "(case commit_health sample_env empty_health (new_controller None (sample_disk [])) of (ok, e, c') \<Rightarrow>
     ok \<and> unat (hs_revision (pc_health c')) = 1)"
proof -
  have c: "commit_health sample_env empty_health (new_controller None (sample_disk []))
      = (True, [], emit_signal RuntimeHealthChanged ((new_controller None (sample_disk []))
          \<lparr>pc_health := empty_health\<lparr>hs_revision := hs_revision empty_health + 1\<rparr>\<rparr>))"
    by (simp add: commit_health_def new_controller_def empty_health_def package_states_def)
  from commit_bounds [OF c] show ?thesis
    unfolding c by (simp add: new_controller_def empty_health_def)
qed

section \<open>What the daemon reports\<close>

definition report_key :: "health_record \<Rightarrow> qstring" where
  "report_key r = record_key (hr_component_id r) (hr_package_digest r)"

lemma probation_records_content:
  "report_key ` set (probation_records seen as) = pending_key ` set as - set seen
   \<and> distinct (map report_key (probation_records seen as))
   \<and> (\<forall>r \<in> set (probation_records seen as). hr_state r = Q ''probation'')"
proof (induction as arbitrary: seen)
  case (Cons a as)
  have "report_key \<lparr>hr_component_id = pa_component_id a, hr_package_digest = pa_package_digest a,
      hr_state = s, hr_reason = [], hr_failure_count = 0\<rparr> = pending_key a" for s
    by (simp add: report_key_def pending_key_def)
  with Cons.IH [of seen] Cons.IH [of "pending_key a # seen"] show ?case
    by (simp add: Let_def pending_key_def [symmetric] flip: image_set) blast
qed simp

text \<open>
  C11: The health report of the daemon is complete and has no duplicates: sorted by component and
  digest, it names every quarantined package as quarantined, every package that is only on
  probation as such, each once, and nothing else.
\<close>

theorem report_is_complete:
  assumes "json_codec E" and "reachable E store c"
  shows "sorted (map (\<lambda>r. [hr_component_id r, hr_package_digest r]) (runtime_health_records c))
    \<and> distinct (map report_key (runtime_health_records c))
    \<and> report_key ` {r \<in> set (runtime_health_records c). hr_state r = Q ''quarantined''} = fst ` set (hs_records (pc_health c))
    \<and> report_key ` {r \<in> set (runtime_health_records c). hr_state r \<noteq> Q ''quarantined''}
        = pending_key ` snd ` set (hs_pending (pc_health c)) - fst ` set (hs_records (pc_health c))"
proof -
  have wf: "health_wf (pc_health c)"
    using plan_codec.reachable_inv [OF plan_codec_of_json [OF assms(1)] assms(2)]
    by (simp add: controller_inv_def core_inv_def)
  define rs where "rs = om_values (hs_records (pc_health c))"
  define ps where "ps = probation_records (map report_key rs) (om_values (hs_pending (pc_health c)))"
  have report: "runtime_health_records c = sort_key (\<lambda>r. [hr_component_id r, hr_package_digest r]) (rs @ ps)"
    by (simp add: runtime_health_records_def rs_def ps_def report_key_def [abs_def] Let_def)
  have keys: "map report_key rs = map fst (hs_records (pc_health c))"
    using wf by (auto simp: rs_def health_wf_def report_key_def list_all_iff)
  have q: "\<forall>r \<in> set rs. hr_state r = Q ''quarantined''"
    using wf by (auto simp: rs_def health_wf_def list_all_iff)
  have "distinct (map fst (hs_records (pc_health c)))" using wf by (simp add: health_wf_def om_inv_distinct)
  note ps = probation_records_content [of "map report_key rs" "om_values (hs_pending (pc_health c))", folded ps_def]
  have kr: "report_key ` set rs = fst ` set (hs_records (pc_health c))" using keys by (metis image_set)
  have split: "{r \<in> set (rs @ ps). hr_state r = Q ''quarantined''} = set rs"
    "{r \<in> set (rs @ ps). hr_state r \<noteq> Q ''quarantined''} = set ps"
    using q ps by auto
  have "distinct (map report_key (rs @ ps))"
    using ps keys kr \<open>distinct (map fst _)\<close> by auto
  then have "distinct (map report_key (runtime_health_records c))"
    by (simp add: report distinct_map del: map_append)
  moreover have "set (runtime_health_records c) = set (rs @ ps)" by (simp add: report)
  ultimately show ?thesis using ps kr keys split by (simp add: report)
qed

theorem report_is_complete_witness:
  "\<exists>c. reachable sample_env sample_store c
     \<and> report_key ` {r \<in> set (runtime_health_records c). hr_state r \<noteq> Q ''quarantined''} = {record_key sample_id sample_digest}"
proof -
  obtain c where c: "reachable sample_env sample_store c" "pc_health c = sample_watched"
    using sample_run runs_reachable by blast
  from report_is_complete [OF sample.json_codec_axioms c(1)] c show ?thesis
    by (intro exI [of _ c]) (simp add: sample_watched_def sample_pending_def pending_key_def)
qed

end
