(* ===== verification/Settings_Values.thy ===== *)
theory Settings_Values
  imports Settings_Schema
begin

text \<open>
  What the normalisation of a setting value returns, and when a returned value is normalised to
  itself: always, except for a key name or a portal selection that Unicode normalisation made
  longer than the limit the code checks before it.
\<close>

section \<open>The normalised values\<close>

fun number_ok :: "setting_definition \<Rightarrow> json \<Rightarrow> bool" where
  "number_ok d (JNum x) \<longleftrightarrow> (sd_type d = IntegerSetting \<longrightarrow> is_exact_json_integer x)
     \<and> (case (sd_minimum d, sd_maximum d) of
          (Some lo, Some hi) \<Rightarrow> lo \<le> x \<and> x \<le> hi
            \<and> (case sd_step d of None \<Rightarrow> True | Some step \<Rightarrow> \<not> step_mismatch d lo step x)
        | _ \<Rightarrow> False)"
| "number_ok d _ \<longleftrightarrow> False"

definition normal_text :: "qt_env \<Rightarrow> json \<Rightarrow> bool" where
  "normal_text E w \<longleftrightarrow> is_string (Some w) \<and> qt_normal_c E (to_string (Some w)) = to_string (Some w)"

definition keybinding :: "qstring list \<Rightarrow> qstring \<Rightarrow> json" where
  "keybinding modifiers key = JObj (json_object [(''modifiers'', JArr (map JStr modifiers)), (''key'', JStr key)])"

definition keybinding_ok :: "qt_env \<Rightarrow> json \<Rightarrow> bool" where
  "keybinding_ok E w \<longleftrightarrow> w = JNull \<or> (\<exists>modifiers key. w = keybinding modifiers key
     \<and> modifiers = filter (\<lambda>m. m \<in> set modifiers) canonical_modifiers \<and> qt_normal_c E key = key)"

definition value_ok :: "qt_env \<Rightarrow> setting_definition \<Rightarrow> json \<Rightarrow> bool" where
  "value_ok E d w \<longleftrightarrow>
     (case sd_type d of
        BooleanSetting \<Rightarrow> is_bool (Some w)
      | IntegerSetting \<Rightarrow> number_ok d w
      | NumberSetting \<Rightarrow> number_ok d w
      | StringSetting \<Rightarrow> normal_text E w \<and> \<not> has_control (to_string (Some w))
          \<and> (case (sd_minimum_length d, sd_maximum_length d) of
               (Some lo, Some hi) \<Rightarrow> lo \<le> int (length (to_string (Some w))) \<and> int (length (to_string (Some w))) \<le> hi
             | _ \<Rightarrow> False)
      | EnumerationSetting \<Rightarrow> normal_text E w \<and> list_ex (\<lambda>opt. eo_value opt = to_string (Some w)) (sd_options d)
      | ColorSetting \<Rightarrow> is_string (Some w) \<and> is_color (to_string (Some w)) \<and> to_upper (to_string (Some w)) = to_string (Some w)
      | KeybindingSetting \<Rightarrow> keybinding_ok E w
      | FileSetting \<Rightarrow> w = JNull \<or> normal_text E w
      | DirectorySetting \<Rightarrow> w = JNull \<or> normal_text E w)"

text \<open>What the code checks of the text before it normalises it, for the texts it returns.\<close>

definition stable_value :: "setting_definition \<Rightarrow> json \<Rightarrow> bool" where
  "stable_value d w \<longleftrightarrow>
     (case sd_type d of
        KeybindingSetting \<Rightarrow> w = JNull \<or> (let key = to_string (map_of (to_object (Some w)) (Q ''key''))
           in key \<noteq> [] \<and> length key \<le> 64 \<and> \<not> has_control key)
      | FileSetting \<Rightarrow> w = JNull \<or> length (to_string (Some w)) \<le> 4096 \<and> \<not> has_control (to_string (Some w))
      | DirectorySetting \<Rightarrow> w = JNull \<or> length (to_string (Some w)) \<le> 4096 \<and> \<not> has_control (to_string (Some w))
      | _ \<Rightarrow> True)"

section \<open>Colours\<close>

lemma is_hex_upper: "is_hex c \<Longrightarrow> is_hex (if is_lower c then c - 0x20 else c)"
proof (cases "is_lower c")
  case True
  assume "is_hex c"
  with True have "0x61 \<le> c" "c \<le> 0x66" by (auto simp: is_hex_def is_lower_def is_ascii_digit_def word_le_nat_alt)
  then have "0x41 \<le> c - 0x20" "c - 0x20 \<le> 0x46" by (auto simp: word_le_nat_alt unat_sub)
  with True show ?thesis by (simp add: is_hex_def)
qed simp

lemma upper_not_lower: "\<not> is_lower ((if is_lower c then c - 0x20 else c) :: qchar)"
  by (auto simp: is_lower_def word_le_nat_alt unat_sub)

lemma match_classes_map:
  "match_classes ps s \<Longrightarrow> list_all (\<lambda>p. \<forall>c. p c \<longrightarrow> p (f c)) ps \<Longrightarrow> f 0x0A = 0x0A \<Longrightarrow> match_classes ps (map f s)"
  by (induction ps s rule: match_classes.induct) (auto simp: at_end_def)

lemma is_color_upper: "is_color s \<Longrightarrow> is_color (to_upper s)"
proof -
  let ?f = "\<lambda>c :: qchar. if is_lower c then c - 0x20 else c"
  have f: "?f 0x0A = 0x0A" "?f 0x23 = 0x23" by (simp_all add: is_lower_def)
  have "list_all (\<lambda>p. \<forall>c. p c \<longrightarrow> p (?f c)) ((\<lambda>c. c = 0x23) # replicate n is_hex)" for n
    using is_hex_upper f by (auto simp: list_all_iff)
  from match_classes_map [OF _ this f(1)] show "is_color s \<Longrightarrow> is_color (to_upper s)"
    unfolding is_color_def to_upper_def by blast
qed

lemma to_upper_again: "to_upper (to_upper s) = to_upper s"
  using upper_not_lower by (simp add: to_upper_def comp_def)

section \<open>Key bindings\<close>

lemma check_modifiers_seen:
  "check_modifiers path i seen vs = ([], final) \<Longrightarrow>
   \<exists>ms. vs = map JStr ms \<and> final = rev ms @ seen \<and> set ms \<subseteq> set canonical_modifiers"
proof (induction vs arbitrary: i seen)
  case (Cons v vs)
  from Cons.prems obtain m where v: "v = JStr m" "m \<in> set canonical_modifiers"
    "check_modifiers path (Suc i) (m # seen) vs = ([], final)"
    by (auto simp: Let_def is_string_iff split: if_splits prod.splits)
  from Cons.IH [OF v(3)] obtain ms where "vs = map JStr ms" "final = rev ms @ m # seen" "set ms \<subseteq> set canonical_modifiers"
    by blast
  with v show ?case by (intro exI [of _ "m # ms"]) simp
qed simp

lemma check_modifiers_distinct:
  "distinct ms \<Longrightarrow> set ms \<subseteq> set canonical_modifiers \<Longrightarrow> set ms \<inter> set seen = {} \<Longrightarrow>
   check_modifiers path i seen (map JStr ms) = ([], rev ms @ seen)"
  by (induction ms arbitrary: i seen) (auto simp: Let_def split: prod.splits)

lemma keybinding_lookup [simp]:
  "map_of (to_object (Some (keybinding ms key))) (Q ''modifiers'') = Some (JArr (map JStr ms))"
  "map_of (to_object (Some (keybinding ms key))) (Q ''key'') = Some (JStr key)"
  "is_object (Some (keybinding ms key))" "keybinding ms key \<noteq> JNull"
  by (simp_all add: keybinding_def json_object_def)

lemma keybinding_fields [simp]: "unknown_fields (to_object (Some (keybinding ms key))) [''modifiers'', ''key''] path = []"
  by (simp add: unknown_fields_def keybinding_def json_object_def)

lemma canonical_distinct: "distinct canonical_modifiers" "length canonical_modifiers = 5"
  by (simp_all add: canonical_modifiers_def)

lemma normalize_keybinding_ok:
  assumes "normal_idempotent E" "normalize_keybinding E v path = vr_accept w"
  shows "keybinding_ok E w"
proof (cases "v = Some JNull")
  case True
  with assms show ?thesis by (simp add: normalize_keybinding_def keybinding_ok_def)
next
  case False
  let ?key = "qt_normal_c E (to_string (map_of (to_object v) (Q ''key'')))"
  from assms(2) False obtain seen where
    w: "w = keybinding (filter (\<lambda>m. m \<in> set seen) canonical_modifiers) ?key"
    by (auto simp: normalize_keybinding_def invalid_value_def keybinding_def Let_def split: if_splits prod.splits)
  have "filter (\<lambda>m. m \<in> set seen) canonical_modifiers
      = filter (\<lambda>m. m \<in> set (filter (\<lambda>m. m \<in> set seen) canonical_modifiers)) canonical_modifiers"
    by (auto intro: filter_cong)
  with w assms(1) show ?thesis unfolding keybinding_ok_def normal_idempotent_def by blast
qed

lemma normalize_keybinding_fixed:
  assumes "keybinding_ok E w"
  shows "normalize_keybinding E (Some w) path
    = (if stable_value (d\<lparr>sd_type := KeybindingSetting\<rparr>) w then vr_accept w
       else vr_reject [mk_error (path @ Q ''.key'') ''settings-value.invalid-key'' ''A bounded key name is required.''])"
proof (cases "w = JNull")
  case True
  then show ?thesis by (simp add: normalize_keybinding_def stable_value_def)
next
  case False
  with assms obtain ms key where w: "w = keybinding ms key" and ms: "ms = filter (\<lambda>m. m \<in> set ms) canonical_modifiers"
    and key: "qt_normal_c E key = key" unfolding keybinding_ok_def by blast
  have sub: "set ms \<subseteq> set canonical_modifiers" using ms by (metis filter_is_subset)
  have "distinct ms" using ms canonical_distinct(1) by (metis distinct_filter)
  moreover have "length ms \<le> 5" using ms canonical_distinct(2) by (metis length_filter_le)
  ultimately have loop: "check_modifiers path 0 [] (map JStr ms) = ([], rev ms)"
    using check_modifiers_distinct [of ms "[]" path 0] sub by simp
  show ?thesis
    using loop \<open>length ms \<le> 5\<close> key ms
    by (simp add: normalize_keybinding_def w stable_value_def Let_def) (simp add: keybinding_def)
qed

section \<open>Normalisation and its fixed points\<close>

lemma normalize_value_ok:
  assumes idem: "normal_idempotent E" and n: "normalize_setting_value E d v path = vr_accept w"
  shows "value_ok E d w"
proof (cases "sd_type d")
  case KeybindingSetting
  with n normalize_keybinding_ok [OF idem] show ?thesis by (simp add: normalize_setting_value_def value_ok_def)
next
  case ColorSetting
  with n show ?thesis
    by (auto simp: normalize_setting_value_def value_ok_def invalid_value_def is_color_upper to_upper_again split: if_splits)
qed (use n idem in \<open>auto simp: normalize_setting_value_def value_ok_def normalize_number_def normalize_text_def
      normalize_enum_def normalize_portal_def invalid_value_def normal_text_def normal_idempotent_def is_double_iff
      is_bool_iff list_ex_iff Let_def split: if_splits option.splits\<close>)

lemma normalize_value_fixed:
  assumes ok: "value_ok E d w"
  shows "stable_value d w \<Longrightarrow> normalize_setting_value E d (Some w) path = vr_accept w"
    and "\<not> stable_value d w \<Longrightarrow> \<not> vr_ok (normalize_setting_value E d (Some w) path)"
proof -
  have "if stable_value d w then normalize_setting_value E d (Some w) path = vr_accept w
      else \<not> vr_ok (normalize_setting_value E d (Some w) path)"
  proof (cases "sd_type d")
    case KeybindingSetting
    then have eq: "d\<lparr>sd_type := KeybindingSetting\<rparr> = d" by (cases d) simp
    moreover have "keybinding_ok E w" using KeybindingSetting ok by (simp add: value_ok_def)
    ultimately show ?thesis
      using normalize_keybinding_fixed [of E w path d] KeybindingSetting by (simp add: normalize_setting_value_def eq)
  next
    case IntegerSetting
    with ok show ?thesis by (cases w) (auto simp: value_ok_def normalize_setting_value_def stable_value_def
          normalize_number_def Let_def split: option.splits)
  next
    case NumberSetting
    with ok show ?thesis by (cases w) (auto simp: value_ok_def normalize_setting_value_def stable_value_def
          normalize_number_def Let_def split: option.splits)
  qed (use ok in \<open>auto simp: value_ok_def normalize_setting_value_def stable_value_def normal_text_def is_string_iff
        normalize_text_def normalize_enum_def normalize_portal_def invalid_value_def list_ex_iff Let_def
        split: option.splits\<close>)
  then show "stable_value d w \<Longrightarrow> normalize_setting_value E d (Some w) path = vr_accept w"
    and "\<not> stable_value d w \<Longrightarrow> \<not> vr_ok (normalize_setting_value E d (Some w) path)" by simp_all
qed

text \<open>A result is a value without errors, or errors without a value.\<close>

definition decided :: "'a validation_result \<Rightarrow> bool" where
  "decided r \<longleftrightarrow> (\<exists>w. r = vr_accept w) \<or> (\<exists>es. r = vr_reject es \<and> es \<noteq> [])"

lemma decided_simps [simp]:
  "decided (vr_accept w)" "decided (invalid_value path code message)" "es \<noteq> [] \<Longrightarrow> decided (vr_reject es)"
  by (simp_all add: decided_def invalid_value_def)

lemma decided_keybinding: "decided (normalize_keybinding E v path)"
  unfolding normalize_keybinding_def Let_def by (simp split: prod.split del: append_is_Nil_conv)

lemma decided_value: "decided (normalize_setting_value E d v path)"
  by (cases "sd_type d")
    (simp_all add: normalize_setting_value_def normalize_number_def normalize_text_def normalize_enum_def
      normalize_portal_def decided_keybinding Let_def split: option.split)

lemma normalize_value_cases:
  obtains w where "normalize_setting_value E d v path = vr_accept w"
  | es where "normalize_setting_value E d v path = vr_reject es" "es \<noteq> []"
  using decided_value [of E d v path] unfolding decided_def by blast

end
