(* ===== verification/Settings_Facts.thy ===== *)
theory Settings_Facts
  imports Settings_Values
begin

text \<open>
  The schemas the parser accepts, as a predicate, and the settings that \<open>normalizeSettings\<close>
  returns, as a map from the keys of the schema.
\<close>

section \<open>Well-formed definitions\<close>

definition text_field_ok :: "qt_env \<Rightarrow> nat \<Rightarrow> qstring \<Rightarrow> bool" where
  "text_field_ok E n t \<longleftrightarrow> t \<noteq> [] \<and> length t \<le> n \<and> qt_normal_c E t = t \<and> qt_trimmed E t = t
     \<and> \<not> has_disallowed_control E t"

definition option_ok :: "qt_env \<Rightarrow> enum_option \<Rightarrow> bool" where
  "option_ok E opt \<longleftrightarrow> text_field_ok E 128 (eo_value opt) \<and> text_field_ok E 128 (eo_label opt)"

text \<open>The fields that belong to the type.\<close>

definition type_fields_ok :: "qt_env \<Rightarrow> setting_definition \<Rightarrow> bool" where
  "type_fields_ok E d \<longleftrightarrow>
     (if sd_type d = IntegerSetting \<or> sd_type d = NumberSetting then
        (case (sd_minimum d, sd_maximum d) of
           (Some lo, Some hi) \<Rightarrow> lo \<le> hi \<and> (sd_type d = IntegerSetting \<longrightarrow> is_exact_json_integer lo \<and> is_exact_json_integer hi)
         | _ \<Rightarrow> False)
        \<and> (case sd_step d of None \<Rightarrow> True
           | Some x \<Rightarrow> 0 < x \<and> (sd_type d = IntegerSetting \<longrightarrow> is_exact_json_integer x))
      else if sd_type d = StringSetting then
        (case (sd_minimum_length d, sd_maximum_length d) of
           (Some lo, Some hi) \<Rightarrow> 0 \<le> lo \<and> lo \<le> hi \<and> 1 \<le> hi \<and> hi \<le> 4096
         | _ \<Rightarrow> False)
      else if sd_type d = EnumerationSetting then
        sd_options d \<noteq> [] \<and> length (sd_options d) \<le> 64 \<and> distinct (map eo_value (sd_options d))
        \<and> list_all (option_ok E) (sd_options d)
      else True)"

definition default_ok :: "qt_env \<Rightarrow> setting_definition \<Rightarrow> bool" where
  "default_ok E d \<longleftrightarrow> (case sd_default d of None \<Rightarrow> False
     | Some w \<Rightarrow> value_ok E d w \<and> (sd_type d = FileSetting \<or> sd_type d = DirectorySetting \<longrightarrow> w = JNull))"

definition definition_ok :: "qt_env \<Rightarrow> setting_definition \<Rightarrow> bool" where
  "definition_ok E d \<longleftrightarrow> text_field_ok E 64 (sd_key d) \<and> is_setting_key (sd_key d)
     \<and> text_field_ok E 128 (sd_label d) \<and> text_field_ok E 1024 (sd_description d)
     \<and> text_field_ok E 64 (sd_group d) \<and> is_valid_group (sd_group d) \<and> uint (sd_order d) \<le> 100000
     \<and> type_fields_ok E d \<and> default_ok E d"

text \<open>A condition refers to an earlier definition of the scope, with one of its values.\<close>

definition condition_ok :: "qt_env \<Rightarrow> setting_definition list \<Rightarrow> setting_definition \<Rightarrow> bool" where
  "condition_ok E earlier d \<longleftrightarrow>
     (case sd_visible_when d of
        None \<Rightarrow> True
      | Some (k, v) \<Rightarrow>
          (case find (\<lambda>e. sd_key e = k) earlier of
             None \<Rightarrow> False
           | Some e \<Rightarrow> sd_scope e = sd_scope d \<and> \<not> hides_nothing (sd_type e)
               \<and> (case v of None \<Rightarrow> False | Some w \<Rightarrow> value_ok E e w)))"

definition definitions_ok :: "qt_env \<Rightarrow> setting_definition list \<Rightarrow> bool" where
  "definitions_ok E ds \<longleftrightarrow> distinct (map sd_key ds) \<and> list_all (definition_ok E) ds
     \<and> list_all (\<lambda>i. condition_ok E (take i ds) (ds ! i)) [0..<length ds]"

definition schema_ok :: "qt_env \<Rightarrow> settings_schema \<Rightarrow> bool" where
  "schema_ok E sc \<longleftrightarrow> ss_version sc = 1 \<and> length (ss_settings sc) \<le> maximum_setting_count
     \<and> definitions_ok E (ss_settings sc)"

section \<open>The parser returns well-formed definitions\<close>

lemma value_ok_cong:
  assumes "sd_type d = sd_type e" "sd_minimum d = sd_minimum e" "sd_maximum d = sd_maximum e" "sd_step d = sd_step e"
    "sd_minimum_length d = sd_minimum_length e" "sd_maximum_length d = sd_maximum_length e" "sd_options d = sd_options e"
  shows "value_ok E d w = value_ok E e w"
proof -
  have "step_mismatch d = step_mismatch e" by (intro ext) (simp only: step_mismatch_def assms)
  then have n: "number_ok d w = number_ok e w" by (cases w; simp only: number_ok.simps assms)
  show ?thesis by (simp only: value_ok_def n assms)
qed

lemma value_ok_updates [simp]:
  "value_ok E (d\<lparr>sd_default := x\<rparr>) w = value_ok E d w"
  "value_ok E (d\<lparr>sd_visible_when := y\<rparr>) w = value_ok E d w"
  by (rule value_ok_cong; simp)+

lemma required_text_ok:
  "normal_idempotent E \<Longrightarrow> required_text E ob key p n = (t, []) \<Longrightarrow> text_field_ok E n t"
  by (auto simp: required_text_def text_field_ok_def normal_idempotent_def Let_def split: if_splits)

lemma required_integer_ok:
  assumes "required_integer ob key p lo hi = (r, [])"
  shows "\<exists>i. r = Some i \<and> lo \<le> i \<and> i \<le> hi"
proof -
  obtain x where x: "r = Some \<lfloor>x\<rfloor>" "of_int \<lfloor>x\<rfloor> = (x :: rat)" "\<not> x < of_int lo" "\<not> of_int hi < x"
    using assms by (auto simp: required_integer_def is_exact_json_integer_def required_finite_number_def Let_def
        split: if_splits)
  then have "lo \<le> \<lfloor>x\<rfloor>" "\<lfloor>x\<rfloor> \<le> hi" by (metis not_less of_int_le_iff)+
  with x show ?thesis by blast
qed

lemma required_number_ok: "required_finite_number ob key p = (r, []) \<Longrightarrow> \<exists>x. r = Some x"
  by (auto simp: required_finite_number_def Let_def split: if_splits)

lemma parse_options_ok:
  assumes idem: "normal_idempotent E"
  shows "parse_options E path i seen vs = (os, []) \<Longrightarrow>
    length os = length vs \<and> distinct (map eo_value os) \<and> eo_value ` set os \<inter> set seen = {} \<and> list_all (option_ok E) os"
proof (induction vs arbitrary: i seen os)
  case (Cons v vs)
  obtain vl e1 where vl: "required_text E (to_object (Some v)) ''value'' (index_path path i) 128 = (vl, e1)" by force
  obtain label e2 where label: "required_text E (to_object (Some v)) ''label'' (index_path path i) 128 = (label, e2)" by force
  obtain os' e3 where rest: "parse_options E path (Suc i) (vl # seen) vs = (os', e3)" by force
  from Cons.prems vl label rest have e: "e1 = []" "e2 = []" "e3 = []" "vl \<notin> set seen"
    and os: "os = \<lparr>eo_value = vl, eo_label = label\<rparr> # os'"
    by (auto simp: Let_def split: if_splits prod.splits)
  from Cons.IH [OF rest [unfolded e]] required_text_ok [OF idem vl [unfolded e]]
    required_text_ok [OF idem label [unfolded e]] e(4)
  show ?case by (auto simp: os option_ok_def)
qed simp

lemma parse_enum_options_ok:
  assumes "normal_idempotent E" "parse_enum_options E v p = (os, [])"
  shows "os \<noteq> [] \<and> length os \<le> 64 \<and> distinct (map eo_value os) \<and> list_all (option_ok E) os"
proof -
  from assms(2) have p: "parse_options E p 0 [] (to_array v) = (os, [])"
    and l: "to_array v \<noteq> []" "length (to_array v) \<le> 64"
    by (auto simp: parse_enum_options_def split: if_splits)
  from parse_options_ok [OF assms(1) p] l show ?thesis by auto
qed

text \<open>The fields that the parsers of the type's fields leave alone.\<close>

definition same_base :: "setting_definition \<Rightarrow> setting_definition \<Rightarrow> bool" where
  "same_base d e \<longleftrightarrow> sd_key d = sd_key e \<and> sd_scope d = sd_scope e \<and> sd_type d = sd_type e \<and> sd_label d = sd_label e
     \<and> sd_description d = sd_description e \<and> sd_group d = sd_group e \<and> sd_order d = sd_order e
     \<and> sd_default d = sd_default e"

lemma parse_number_fields_base: "parse_number_fields ob path ty d = (d1, es) \<Longrightarrow> same_base d1 d"
  by (auto simp: parse_number_fields_def same_base_def Let_def split_beta)

lemma parse_string_fields_base: "parse_string_fields ob path d = (d1, es) \<Longrightarrow> same_base d1 d"
  by (auto simp: parse_string_fields_def same_base_def Let_def split_beta)

lemma parse_type_fields_base: "parse_type_fields E ob path ty d = (allowed, d1, es) \<Longrightarrow> same_base d1 d"
  by (auto simp: parse_type_fields_def split: option.splits if_splits prod.splits
      dest: parse_number_fields_base parse_string_fields_base) (auto simp: same_base_def)

lemma parse_number_fields_ok:
  assumes n: "parse_number_fields ob path ty d = (d1, [])" and d: "sd_type d = ty"
    and ty: "ty = IntegerSetting \<or> ty = NumberSetting"
  shows "type_fields_ok E d1"
proof -
  obtain lo e1 where lo: "required_finite_number ob ''minimum'' path = (lo, e1)" by force
  obtain hi e2 where hi: "required_finite_number ob ''maximum'' path = (hi, e2)" by force
  obtain st e3 where st: "required_finite_number ob ''step'' path = (st, e3)" by force
  note n = n [unfolded parse_number_fields_def Let_def lo hi st prod.case]
  have "e1 = []" "e2 = []" using n by (auto split: prod.splits)
  then obtain l h where lh: "lo = Some l" "hi = Some h" using lo hi required_number_ok by blast
  have "type_fields_ok E d1 \<longleftrightarrow> (case (sd_minimum d1, sd_maximum d1) of
           (Some lo, Some hi) \<Rightarrow> lo \<le> hi \<and> (ty = IntegerSetting \<longrightarrow> is_exact_json_integer lo \<and> is_exact_json_integer hi)
         | _ \<Rightarrow> False)
        \<and> (case sd_step d1 of None \<Rightarrow> True
           | Some x \<Rightarrow> 0 < x \<and> (ty = IntegerSetting \<longrightarrow> is_exact_json_integer x))"
  proof -
    have t: "sd_type d1 = ty" using d parse_number_fields_base [OF assms(1)] by (simp add: same_base_def)
    show ?thesis using ty by (simp only: type_fields_ok_def t if_True)
  qed
  then show ?thesis
    using n by (cases st) (auto simp: lh split: if_splits)
qed

lemma parse_string_fields_ok:
  assumes s: "parse_string_fields ob path d = (d1, [])" and d: "sd_type d = StringSetting"
  shows "type_fields_ok E d1"
proof -
  obtain lo e1 where lo: "(if om_contains ob (Q ''minimumLength'') then required_integer ob ''minimumLength'' path 0 4096
      else (Some 0, [])) = (lo, e1)" by force
  obtain hi e2 where hi: "required_integer ob ''maximumLength'' path 1 4096 = (hi, e2)" by force
  note s = s [unfolded parse_string_fields_def Let_def lo hi prod.case]
  have e: "e1 = []" "e2 = []" using s by auto
  obtain h where h: "hi = Some h" "1 \<le> h" "h \<le> 4096" using required_integer_ok [OF hi [unfolded e]] by blast
  obtain l where l: "lo = Some l" "0 \<le> l"
    using lo [unfolded e] required_integer_ok [of ob "''minimumLength''" path 0 4096 lo] by (auto split: if_splits)
  have "l \<le> h" "sd_minimum_length d1 = Some l" "sd_maximum_length d1 = Some h" "sd_type d1 = StringSetting"
    using s d by (auto simp: h l split: if_splits)
  with h l show ?thesis by (simp add: type_fields_ok_def)
qed

lemma parse_type_fields_ok:
  assumes idem: "normal_idempotent E" and p: "parse_type_fields E ob path (Some ty) d = (allowed, d1, [])"
    and d: "sd_type d = ty"
  shows "type_fields_ok E d1"
proof (cases ty)
  case EnumerationSetting
  with p obtain os where "parse_enum_options E (map_of ob (Q ''options'')) (path @ Q ''.options'') = (os, [])"
    "d1 = d\<lparr>sd_options := os\<rparr>"
    by (auto simp: parse_type_fields_def split: prod.splits)
  with parse_enum_options_ok [OF idem] EnumerationSetting d show ?thesis by (auto simp: type_fields_ok_def)
qed (use p d parse_number_fields_ok parse_string_fields_ok in \<open>auto simp: parse_type_fields_def type_fields_ok_def\<close>)

lemma parse_default_ok:
  assumes idem: "normal_idempotent E" and p: "parse_default E ob path (Some ty) d = (d1, [])"
    and c: "om_contains ob (Q ''default'')" and d: "sd_type d = ty"
  shows "default_ok E d1 \<and> (\<exists>x. d1 = d\<lparr>sd_default := x\<rparr>)"
proof (cases rule: normalize_value_cases [of E d "sd_default d" "path @ Q ''.default''"])
  case (1 w)
  with p c have "d1 = d\<lparr>sd_default := Some w\<rparr>" "(ty = FileSetting \<or> ty = DirectorySetting) \<longrightarrow> w = JNull"
    by (auto simp: parse_default_def Let_def split: if_splits)
  with normalize_value_ok [OF idem 1] d show ?thesis by (auto simp: default_ok_def)
next
  case (2 es)
  with p c show ?thesis by (auto simp: parse_default_def Let_def split: if_splits)
qed

lemma type_fields_ok_updates [simp]:
  "type_fields_ok E (d\<lparr>sd_default := x\<rparr>) = type_fields_ok E d"
  "type_fields_ok E (d\<lparr>sd_visible_when := y\<rparr>) = type_fields_ok E d"
  by (cases d; simp only: type_fields_ok_def setting_definition.simps setting_definition.update_convs setting_definition.select_convs)+

lemma default_ok_visible [simp]: "default_ok E (d\<lparr>sd_visible_when := y\<rparr>) = default_ok E d"
  by (cases "sd_default d") (simp_all add: default_ok_def)

lemma definition_ok_visible [simp]: "definition_ok E (d\<lparr>sd_visible_when := y\<rparr>) = definition_ok E d"
  by (simp add: definition_ok_def)

lemma parse_definition_ok:
  assumes idem: "normal_idempotent E" and p: "parse_definition E v index = (d, [])"
  shows "definition_ok E d"
proof -
  let ?path = "index_path (Q ''$.settings'') index"
  define ob where "ob = to_object (Some v)"
  obtain key e1 where key: "required_text E ob ''key'' ?path 64 = (key, e1)" by force
  obtain sc e3 where sc: "required_text E ob ''scope'' ?path 16 = (sc, e3)" by force
  obtain ts e5 where ts: "required_text E ob ''type'' ?path 16 = (ts, e5)" by force
  obtain label e7 where label: "required_text E ob ''label'' ?path 128 = (label, e7)" by force
  obtain desc e8 where desc: "required_text E ob ''description'' ?path 1024 = (desc, e8)" by force
  obtain group e9 where group: "required_text E ob ''group'' ?path 64 = (group, e9)" by force
  obtain order e11 where order: "required_integer ob ''order'' ?path 0 100000 = (order, e11)" by force
  define ty where "ty = setting_type_from_string ts"
  define scope where "scope = setting_scope_from_string sc"
  define d0 where "d0 = empty_definition\<lparr>sd_key := key,
    sd_scope := (case scope of None \<Rightarrow> InstanceScope | Some s \<Rightarrow> s),
    sd_type := (case ty of None \<Rightarrow> BooleanSetting | Some t \<Rightarrow> t),
    sd_label := label, sd_description := desc, sd_group := group,
    sd_order := (case order of None \<Rightarrow> 0 | Some n \<Rightarrow> word_of_int n),
    sd_default := (if om_contains ob (Q ''default'') then map_of ob (Q ''default'') else Some JNull)\<rparr>"
  obtain allowed d1 e13 where tf: "parse_type_fields E ob ?path ty d0 = (allowed, d1, e13)" by (metis prod_cases3)
  obtain cond e15 where cond: "parse_condition E ob ?path = (cond, e15)" by force
  obtain d2 e16 where df: "parse_default E ob ?path ty (d1\<lparr>sd_visible_when := cond\<rparr>) = (d2, e16)" by force
  have "is_object (Some v)" using p by (auto simp: parse_definition_def Let_def split: if_splits)
  then have all: "d = d2 \<and> e1 = [] \<and> e7 = [] \<and> e8 = [] \<and> e9 = [] \<and> e11 = [] \<and> e13 = [] \<and> e16 = []
      \<and> (key \<noteq> [] \<longrightarrow> is_setting_key key) \<and> ty \<noteq> None \<and> (group \<noteq> [] \<longrightarrow> is_valid_group group)
      \<and> om_contains ob (Q ''default'')"
    using p unfolding parse_definition_def Let_def ob_def [symmetric] key sc ts label desc group order
      ty_def [symmetric] scope_def [symmetric] d0_def [symmetric] prod.case tf cond df
    by (auto split: if_splits)
  then have errors: "e1 = []" "e7 = []" "e8 = []" "e9 = []" "e11 = []" "e13 = []" "e16 = []" by simp_all
  note texts = required_text_ok [OF idem key [unfolded errors]] required_text_ok [OF idem label [unfolded errors]]
    required_text_ok [OF idem desc [unfolded errors]] required_text_ok [OF idem group [unfolded errors]]
  obtain t where t: "ty = Some t" using all by blast
  have d0: "sd_type d0 = t" by (simp add: d0_def t)
  have tf2: "type_fields_ok E d1" by (rule parse_type_fields_ok [OF idem tf [unfolded t errors] d0])
  have base: "same_base d1 d0" by (rule parse_type_fields_base [OF tf])
  then have "sd_type (d1\<lparr>sd_visible_when := cond\<rparr>) = t" using d0 by (simp add: same_base_def)
  note df2 = parse_default_ok [OF idem df [unfolded t errors] _ this]
  then obtain x where d2: "d2 = d1\<lparr>sd_visible_when := cond, sd_default := x\<rparr>" using all by blast
  obtain n where n: "order = Some n" "0 \<le> n" "n \<le> 100000"
    using required_integer_ok [OF order [unfolded errors]] by blast
  have "uint (word_of_int n :: 32 word) = n" using n by (simp add: uint_word_of_int)
  moreover have "sd_key d2 = key" "sd_label d2 = label" "sd_description d2 = desc" "sd_group d2 = group"
    "sd_order d2 = word_of_int n"
    using base by (simp_all add: d2 same_base_def d0_def n)
  moreover have "type_fields_ok E d2" using tf2 by (simp add: d2)
  moreover have "default_ok E d2" using df2 all by blast
  ultimately show ?thesis using texts all n by (simp add: definition_ok_def text_field_ok_def)
qed

lemma resolve_condition_ok:
  assumes idem: "normal_idempotent E" and r: "resolve_condition E earlier index d = (d1, [])"
  shows "condition_ok E earlier d1 \<and> (\<exists>y. d1 = d\<lparr>sd_visible_when := y\<rparr>)"
proof (cases "sd_visible_when d")
  case None
  then have "condition_ok E earlier d" by (simp add: condition_ok_def)
  moreover have "d1 = d" using r None by (simp add: resolve_condition_def)
  moreover have "d\<lparr>sd_visible_when := sd_visible_when d\<rparr> = d" by simp
  ultimately show ?thesis by metis
next
  case (Some kv)
  obtain k v where kv: "kv = (k, v)" by force
  note r = r [unfolded resolve_condition_def Some kv option.case prod.case Let_def]
  obtain e where e: "find (\<lambda>e. sd_key e = k) earlier = Some e" using r by (cases "find (\<lambda>e. sd_key e = k) earlier") simp_all
  note r = r [unfolded e option.case]
  have e2: "sd_scope e = sd_scope d" "\<not> hides_nothing (sd_type e)" using r by (simp_all split: if_splits)
  show ?thesis
  proof (cases rule: normalize_value_cases [of E e v "index_path (Q ''$.settings'') index @ Q ''.visibleWhen.equals''"])
    case (1 w)
    with r e2 have "d1 = d\<lparr>sd_visible_when := Some (k, Some w)\<rparr>" by simp
    with e e2 normalize_value_ok [OF idem 1] show ?thesis by (auto simp: condition_ok_def)
  next
    case (2 es)
    with r e2 show ?thesis by simp
  qed
qed

lemma definitions_ok_snoc:
  "definitions_ok E (ds @ [d]) \<longleftrightarrow> definitions_ok E ds \<and> sd_key d \<notin> sd_key ` set ds \<and> definition_ok E d \<and> condition_ok E ds d"
  by (auto simp: definitions_ok_def nth_append list_all_iff)

lemma parse_definitions_ok:
  assumes idem: "normal_idempotent E"
  shows "parse_definitions E index ds vs = (ds', []) \<Longrightarrow> definitions_ok E ds \<Longrightarrow>
    definitions_ok E ds' \<and> length ds' = length ds + length vs"
proof (induction vs arbitrary: index ds)
  case (Cons v vs)
  obtain d e1 where d: "parse_definition E v index = (d, e1)" by force
  obtain d1 e2 where d1: "resolve_condition E ds index d = (d1, e2)" by force
  obtain r e3 where rest: "parse_definitions E (Suc index) (ds @ [d1]) vs = (r, e3)" by force
  have "(r, e1 @ (if sd_key d \<in> sd_key ` set ds then [mk_error (index_path (Q ''$.settings'') index @ Q ''.key'')
      ''settings-schema.duplicate-key'' ''Setting keys must be unique.''] else []) @ e2 @ e3) = (ds', [])"
    using Cons.prems(1) by (simp only: parse_definitions.simps d d1 rest prod.case Let_def)
  then have e: "e1 = []" "e2 = []" "e3 = []" "r = ds'" and k: "sd_key d \<notin> sd_key ` set ds"
    by (simp_all split: if_splits)
  obtain y where y: "d1 = d\<lparr>sd_visible_when := y\<rparr>" "condition_ok E ds d1"
    using resolve_condition_ok [OF idem d1 [unfolded e]] by blast
  have "definition_ok E d" using parse_definition_ok [OF idem d [unfolded e]] .
  then have "definitions_ok E (ds @ [d1])" using Cons.prems(2) k y by (simp add: definitions_ok_snoc)
  from Cons.IH [OF rest [unfolded e] this] show ?case by simp
qed simp

lemma parse_settings_schema_ok:
  assumes idem: "normal_idempotent E" and p: "parse_settings_schema E bs = vr_accept sc"
  shows "schema_ok E sc"
proof -
  obtain m where m: "parse_schema_root E m = vr_accept sc"
    using p by (auto simp: parse_settings_schema_def Let_def split: if_splits)
  obtain version e1 where v: "required_integer m ''schemaVersion'' (Q ''$'') 1 1 = (version, e1)" by force
  obtain ds e2 where ds: "parse_definitions E 0 [] (to_array (map_of m (Q ''settings''))) = (ds, e2)" by force
  note m = m [unfolded parse_schema_root_def Let_def v ds prod.case]
  then have e: "e1 = []" "e2 = []"
    and sc: "sc = \<lparr>ss_version = (case version of None \<Rightarrow> 1 | Some n \<Rightarrow> word_of_int n), ss_settings = ds\<rparr>"
    and len: "length (to_array (map_of m (Q ''settings''))) \<le> maximum_setting_count"
    by (simp_all split: if_splits)
  have "version = Some 1" using required_integer_ok [OF v [unfolded e]] by auto
  moreover have "definitions_ok E []" by (simp add: definitions_ok_def)
  ultimately show ?thesis using parse_definitions_ok [OF idem ds [unfolded e]] len by (simp add: schema_ok_def sc)
qed

section \<open>Normalised settings\<close>

text \<open>The definitions that contribute to the result, and what each contributes.\<close>

definition applies :: "setting_scope \<Rightarrow> json qmap \<Rightarrow> bool \<Rightarrow> setting_definition \<Rightarrow> bool" where
  "applies scope settings defaults d \<longleftrightarrow> sd_scope d = scope \<and> (om_contains settings (sd_key d) \<or> defaults)"

definition setting_result :: "qt_env \<Rightarrow> json qmap \<Rightarrow> setting_definition \<Rightarrow> json validation_result" where
  "setting_result E settings d = normalize_setting_value E d
     (if om_contains settings (sd_key d) then map_of settings (sd_key d) else sd_default d)
     (child_path (Q ''$'') (sd_key d))"

lemma setting_result_cases:
  obtains w where "setting_result E settings d = vr_accept w"
  | es where "setting_result E settings d = vr_reject es" "es \<noteq> []"
  unfolding setting_result_def by (rule normalize_value_cases)

lemma normalize_definitions_Cons:
  "normalize_definitions E scope settings defaults (d # ds) acc =
     (if \<not> applies scope settings defaults d then normalize_definitions E scope settings defaults ds acc
      else if vr_ok (setting_result E settings d) then normalize_definitions E scope settings defaults ds
        (om_insert (sd_key d) (the (vr_value (setting_result E settings d))) acc)
      else (case normalize_definitions E scope settings defaults ds acc of (m, es) \<Rightarrow>
        (m, vr_errors (setting_result E settings d) @ es)))"
proof -
  have "(sd_scope d \<noteq> scope \<or> (\<not> om_contains settings (sd_key d) \<and> \<not> defaults)) \<longleftrightarrow> \<not> applies scope settings defaults d"
    by (auto simp: applies_def)
  then show ?thesis by (simp only: normalize_definitions.simps setting_result_def Let_def if_not_P split: if_split) blast
qed

lemma setting_result_errors: "\<not> vr_ok (setting_result E settings d) \<Longrightarrow> vr_errors (setting_result E settings d) \<noteq> []"
  by (cases rule: setting_result_cases [of E settings d]) simp_all

lemma normalize_definitions_errors:
  "snd (normalize_definitions E scope settings defaults ds acc) = [] \<longleftrightarrow>
     list_all (\<lambda>d. applies scope settings defaults d \<longrightarrow> vr_ok (setting_result E settings d)) ds"
proof (induction ds arbitrary: acc)
  case (Cons d ds)
  then show ?case
    using setting_result_errors [of E settings d]
    by (simp add: normalize_definitions_Cons split_beta del: normalize_definitions.simps(2))
qed simp

lemma normalize_definitions_result:
  "normalize_definitions E scope settings defaults ds acc = (m, []) \<Longrightarrow>
   m = fold (\<lambda>d. om_insert (sd_key d) (the (vr_value (setting_result E settings d))))
     (filter (applies scope settings defaults) ds) acc"
proof (induction ds arbitrary: acc)
  case (Cons d ds)
  then show ?case
    using setting_result_errors [of E settings d]
    by (auto simp: normalize_definitions_Cons split_beta simp del: normalize_definitions.simps(2) split: if_splits)
qed simp

lemma find_key_iff: "distinct (map f xs) \<Longrightarrow> find (\<lambda>x. f x = k) xs = Some x \<longleftrightarrow> x \<in> set xs \<and> f x = k"
proof (induction xs)
  case (Cons y xs)
  then have "f y \<notin> f ` set xs" by simp
  with Cons show ?case by (cases "x = y") (auto simp: rev_image_eqI)
qed simp

lemma option_eqI: "(\<And>x. a = Some x \<longleftrightarrow> b = Some x) \<Longrightarrow> a = b"
  by (metis option.exhaust)

lemma find_rev_distinct: "distinct (map f xs) \<Longrightarrow> find (\<lambda>x. f x = k) (rev xs) = find (\<lambda>x. f x = k) xs"
  by (rule option_eqI) (subst (1 2) find_key_iff, simp_all flip: rev_map)

lemma find_filter_distinct:
  assumes "distinct (map f xs)"
  shows "find (\<lambda>x. f x = k) (filter P xs)
    = (case find (\<lambda>x. f x = k) xs of None \<Rightarrow> None | Some x \<Rightarrow> if P x then Some x else None)"
proof -
  have "distinct (map f (filter P xs))" using assms by (induction xs) auto
  then have "find (\<lambda>x. f x = k) (filter P xs) = Some y \<longleftrightarrow> find (\<lambda>x. f x = k) xs = Some y \<and> P y" for y
    unfolding find_key_iff [OF assms] by (subst find_key_iff) auto
  then show ?thesis by (intro option_eqI) (auto split: option.split)
qed

lemma distinct_map_filter: "distinct (map f xs) \<Longrightarrow> distinct (map f (filter P xs))"
  by (induction xs) auto

lemma normalize_settings_iff:
  "normalize_settings E sc scope settings defaults = vr_accept m \<longleftrightarrow>
     foreign_keys sc scope settings = []
     \<and> list_all (\<lambda>d. applies scope settings defaults d \<longrightarrow> vr_ok (setting_result E settings d)) (ss_settings sc)
     \<and> m = fold (\<lambda>d. om_insert (sd_key d) (the (vr_value (setting_result E settings d))))
         (filter (applies scope settings defaults) (ss_settings sc)) []"
proof -
  obtain n es where n: "normalize_definitions E scope settings defaults (ss_settings sc) [] = (n, es)" by force
  have "es = [] \<longleftrightarrow> list_all (\<lambda>d. applies scope settings defaults d \<longrightarrow> vr_ok (setting_result E settings d)) (ss_settings sc)"
    using normalize_definitions_errors [of E scope settings defaults "ss_settings sc" "[]"] by (simp add: n)
  then show ?thesis
    using normalize_definitions_result [of E scope settings defaults "ss_settings sc" "[]" n] n
    by (auto simp: normalize_settings_def Let_def)
qed

lemma normalize_settings_reject:
  "\<not> vr_ok (normalize_settings E sc scope settings defaults) \<longleftrightarrow> (\<forall>m. normalize_settings E sc scope settings defaults \<noteq> vr_accept m)"
  by (auto simp: normalize_settings_def Let_def split: prod.split)

lemma settings_lookup:
  assumes "distinct (map sd_key (ss_settings sc))"
  shows "map_of (fold (\<lambda>d. om_insert (sd_key d) (val d)) (filter P (ss_settings sc)) []) k
    = (case schema_find sc k of None \<Rightarrow> None | Some d \<Rightarrow> if P d then Some (val d) else None)"
proof -
  have "find (\<lambda>d. sd_key d = k) (rev (filter P (ss_settings sc))) = find (\<lambda>d. sd_key d = k) (filter P (ss_settings sc))"
    using find_rev_distinct distinct_map_filter [OF assms] .
  then show ?thesis
    using om.lookup_puts [of "[]" sd_key val "filter P (ss_settings sc)" k] find_filter_distinct [OF assms, of k P]
    by (simp add: schema_find_def split: option.split)
qed

lemma schema_find_key: "schema_find sc k = Some d \<Longrightarrow> sd_key d = k \<and> d \<in> set (ss_settings sc)"
  by (auto simp: schema_find_def find_Some_iff)

lemma schema_find_member: "distinct (map sd_key (ss_settings sc)) \<Longrightarrow> d \<in> set (ss_settings sc) \<Longrightarrow> schema_find sc (sd_key d) = Some d"
proof -
  have "distinct (map sd_key ds) \<Longrightarrow> d \<in> set ds \<Longrightarrow> find (\<lambda>e. sd_key e = sd_key d) ds = Some d" for ds
    by (induction ds) (auto simp: rev_image_eqI)
  then show "distinct (map sd_key (ss_settings sc)) \<Longrightarrow> d \<in> set (ss_settings sc) \<Longrightarrow> schema_find sc (sd_key d) = Some d"
    by (simp add: schema_find_def)
qed

section \<open>The result as a map\<close>

lemma normalized_parts:
  assumes "normalize_settings E sc scope settings defaults = vr_accept m"
  shows "foreign_keys sc scope settings = []"
    and "\<And>d. d \<in> set (ss_settings sc) \<Longrightarrow> applies scope settings defaults d \<Longrightarrow> vr_ok (setting_result E settings d)"
    and "m = fold (\<lambda>d. om_insert (sd_key d) (the (vr_value (setting_result E settings d))))
     (filter (applies scope settings defaults) (ss_settings sc)) []"
  using assms unfolding normalize_settings_iff by (auto simp: list_all_iff)

lemma normalized_inv: "normalize_settings E sc scope settings defaults = vr_accept m \<Longrightarrow> om_inv m"
  by (drule normalized_parts(3)) (simp add: om.invar_puts)

lemma normalized_lookup:
  assumes n: "normalize_settings E sc scope settings defaults = vr_accept m" and d: "distinct (map sd_key (ss_settings sc))"
  shows "map_of m k = (case schema_find sc k of
        None \<Rightarrow> None
      | Some d \<Rightarrow> if applies scope settings defaults d then vr_value (setting_result E settings d) else None)"
proof (cases "schema_find sc k")
  case None
  then show ?thesis unfolding normalized_parts(3) [OF n] settings_lookup [OF d] by simp
next
  case (Some d')
  then have "d' \<in> set (ss_settings sc)" using schema_find_key by blast
  then have "applies scope settings defaults d' \<Longrightarrow> vr_value (setting_result E settings d') \<noteq> None"
    using normalized_parts(2) [OF n] by (simp add: vr_ok_def)
  with Some show ?thesis unfolding normalized_parts(3) [OF n] settings_lookup [OF d] by auto
qed

lemma normalized_keys:
  assumes n: "normalize_settings E sc scope settings defaults = vr_accept m" and d: "distinct (map sd_key (ss_settings sc))"
  shows "list_all (\<lambda>k. om_contains m k) (om_keys settings)"
  unfolding list_all_iff
proof
  fix k assume k: "k \<in> set (om_keys settings)"
  with normalized_parts(1) [OF n] obtain d' where d': "schema_find sc k = Some d'" "sd_scope d' = scope"
    by (force simp: foreign_keys_def filter_empty_conv split: option.splits)
  note key = schema_find_key [OF d'(1)]
  have "om_contains settings k" using k by (auto simp: om_contains_def map_of_eq_None_iff)
  with d' key have a: "applies scope settings defaults d'" by (simp add: applies_def)
  with normalized_parts(2) [OF n] key have "vr_value (setting_result E settings d') \<noteq> None" by (simp add: vr_ok_def)
  with a d'(1) show "om_contains m k" by (simp add: om_contains_def normalized_lookup [OF n d])
qed

text \<open>A value of the result: the definition it belongs to, and what normalising it again gives.\<close>

lemma normalized_value:
  assumes idem: "normal_idempotent E" and n: "normalize_settings E sc scope settings defaults = vr_accept m"
    and d: "distinct (map sd_key (ss_settings sc))" and e: "(k, w) \<in> set m"
  obtains d' where "schema_find sc k = Some d'" "sd_scope d' = scope" "value_ok E d' w" "map_of m k = Some w"
proof -
  have w: "map_of m k = Some w" using om_inv_lookup [OF normalized_inv [OF n]] e by simp
  with normalized_lookup [OF n d, of k] obtain d' where d': "schema_find sc k = Some d'" "applies scope settings defaults d'"
    "vr_value (setting_result E settings d') = Some w" by (auto split: option.splits if_splits)
  then have "value_ok E d' w"
    using normalize_value_ok [OF idem] by (cases rule: setting_result_cases [of E settings d']) (auto simp: setting_result_def)
  with d' w that show thesis by (auto simp: applies_def)
qed

lemma normalized_again:
  assumes idem: "normal_idempotent E" and d: "distinct (map sd_key (ss_settings sc))"
    and n: "normalize_settings E sc scope settings defaults = vr_accept m"
  shows "if list_all (\<lambda>e. stable_value (the (schema_find sc (fst e))) (snd e)) m
    then normalize_settings E sc scope m defaults = vr_accept m
    else \<not> vr_ok (normalize_settings E sc scope m defaults)"
proof -
  have applied: "map_of m (sd_key d') \<noteq> None \<and> schema_find sc (sd_key d') = Some d'"
    if "d' \<in> set (ss_settings sc)" "applies scope m defaults d'" for d'
  proof -
    have f: "schema_find sc (sd_key d') = Some d'" using schema_find_member [OF d that(1)] .
    have "applies scope settings defaults d'"
      using that(2) normalized_lookup [OF n d, of "sd_key d'"] f by (auto simp: applies_def om_contains_def split: if_splits)
    with normalized_parts(2) [OF n that(1)] f show ?thesis by (simp add: normalized_lookup [OF n d] vr_ok_def)
  qed
  have again: "setting_result E m d' = normalize_setting_value E d' (map_of m (sd_key d')) (child_path (Q ''$'') (sd_key d'))"
    if "map_of m (sd_key d') \<noteq> None" for d' using that by (simp add: setting_result_def om_contains_def)
  have good: "value_ok E d' w" if "map_of m (sd_key d') = Some w" "schema_find sc (sd_key d') = Some d'" for d' w
    using normalized_value [OF idem n d, of "sd_key d'" w] that om_inv_lookup [OF normalized_inv [OF n]] by (metis option.inject)
  have foreign: "foreign_keys sc scope m = []"
    unfolding foreign_keys_def filter_empty_conv
  proof
    fix k assume "k \<in> set (om_keys m)"
    then obtain w where "(k, w) \<in> set m" by force
    then obtain d' where "schema_find sc k = Some d'" "sd_scope d' = scope"
      by (rule normalized_value [OF idem n d])
    then show "\<not> (case schema_find sc k of None \<Rightarrow> True | Some d \<Rightarrow> sd_scope d \<noteq> scope)" by simp
  qed
  show ?thesis
  proof (cases "list_all (\<lambda>e. stable_value (the (schema_find sc (fst e))) (snd e)) m")
    case True
    have result: "setting_result E m d' = vr_accept (the (map_of m (sd_key d')))"
      if a: "d' \<in> set (ss_settings sc)" and b: "applies scope m defaults d'" for d'
    proof -
      obtain w where w: "map_of m (sd_key d') = Some w" using applied [OF a b] by blast
      then have "(sd_key d', w) \<in> set m" using om_inv_lookup [OF normalized_inv [OF n]] by simp
      with True have "stable_value (the (schema_find sc (sd_key d'))) w" by (auto simp: list_all_iff)
      then have "stable_value d' w" using applied [OF a b] by simp
      from normalize_value_fixed(1) [OF good [OF w] this] applied [OF a b] w show ?thesis by (simp add: again)
    qed
    define m2 where "m2 = fold (\<lambda>d. om_insert (sd_key d) (the (vr_value (setting_result E m d))))
      (filter (applies scope m defaults) (ss_settings sc)) []"
    have n2: "normalize_settings E sc scope m defaults = vr_accept m2"
      unfolding normalize_settings_iff using foreign result by (simp add: list_all_iff m2_def)
    have "map_of m2 k = map_of m k" for k
    proof (cases "schema_find sc k")
      case None
      then show ?thesis by (simp add: normalized_lookup [OF n d] normalized_lookup [OF n2 d])
    next
      case (Some d')
      note key = schema_find_key [OF Some]
      show ?thesis
      proof (cases "applies scope m defaults d'")
        case True
        with result key Some applied show ?thesis by (auto simp: normalized_lookup [OF n2 d])
      next
        case False
        have "map_of m k = None"
        proof (rule ccontr)
          assume c: "map_of m k \<noteq> None"
          then have "sd_scope d' = scope" using normalized_lookup [OF n d, of k] Some by (auto simp: applies_def split: if_splits)
          with c False key show False by (simp add: applies_def om_contains_def)
        qed
        with False Some show ?thesis by (simp add: normalized_lookup [OF n2 d])
      qed
    qed
    then have "m2 = m" by (intro om_ext normalized_inv [OF n] normalized_inv [OF n2]) (simp add: fun_eq_iff)
    with n2 True show ?thesis by simp
  next
    case False
    then obtain k w where kw: "(k, w) \<in> set m" "\<not> stable_value (the (schema_find sc k)) w" by (auto simp: list_all_iff)
    obtain d' where d': "schema_find sc k = Some d'" "sd_scope d' = scope" "value_ok E d' w" "map_of m k = Some w"
      using normalized_value [OF idem n d kw(1)] by blast
    note key = schema_find_key [OF d'(1)]
    have "applies scope m defaults d'" using d' key by (simp add: applies_def om_contains_def)
    moreover have "\<not> vr_ok (setting_result E m d')"
      using normalize_value_fixed(2) [OF d'(3)] kw(2) d' key by (simp add: setting_result_def om_contains_def)
    ultimately have "normalize_settings E sc scope m defaults \<noteq> vr_accept m'" for m'
      unfolding normalize_settings_iff using key by (auto simp: list_all_iff)
    then show ?thesis using False normalize_settings_reject by auto
  qed
qed

end
