(* ===== verification/Settings_Guarantees.thy ===== *)
theory Settings_Guarantees
  imports Settings_Facts Sample_Env
begin

text \<open>
  What a component may rely on of its settings: which schemas are accepted, what
  \<open>normalizeSettings\<close> returns, and that what it returned once it returns again.
\<close>

lemma sample_normal_idempotent: "normal_idempotent sample_env"
  by (simp add: normal_idempotent_def sample_env_def)

section \<open>A sample schema\<close>

definition sample_schema_value :: json where
  "sample_schema_value = JObj (json_object
     [(''schemaVersion'', json_int 1), (''settings'', JArr
       [JObj (json_object [(''key'', JStr (Q ''size'')), (''scope'', JStr (Q ''instance'')), (''type'', JStr (Q ''integer'')),
          (''label'', JStr (Q ''Size'')), (''description'', JStr (Q ''Size'')), (''group'', JStr (Q ''look'')),
          (''order'', json_int 1), (''default'', json_int 4), (''minimum'', json_int 0), (''maximum'', json_int 8),
          (''step'', json_int 2)])])])"

definition size_definition :: setting_definition where
  "size_definition = empty_definition\<lparr>sd_key := Q ''size'', sd_type := IntegerSetting, sd_label := Q ''Size'',
     sd_description := Q ''Size'', sd_group := Q ''look'', sd_order := 1, sd_default := Some (JNum 4),
     sd_minimum := Some 0, sd_maximum := Some 8, sd_step := Some 2\<rparr>"

definition size_schema :: settings_schema where
  "size_schema = \<lparr>ss_version = 1, ss_settings = [size_definition]\<rparr>"

section \<open>Normalised settings\<close>

text \<open>
  C30: Normalised settings are a function of the schema: every setting of the scope that was
  given, or has its default applied, has its normalised value, no other key appears, and every
  given key does.
\<close>

theorem settings_are_normalised:
  assumes "normalize_settings E sc scope settings defaults = vr_accept m" and "distinct (map sd_key (ss_settings sc))"
  shows "om_inv m \<and> list_all (\<lambda>k. om_contains m k) (om_keys settings)
    \<and> (\<forall>k. map_of m k = (case schema_find sc k of
        None \<Rightarrow> None
      | Some d \<Rightarrow> if applies scope settings defaults d then vr_value (setting_result E settings d) else None))"
  using normalized_lookup [OF assms] normalized_keys [OF assms] normalized_inv [OF assms(1)] by blast

lemma size_value: "x \<in> {0, 2, 4, 6, 8} \<Longrightarrow> normalize_setting_value sample_env size_definition (Some (JNum x)) path = vr_accept (JNum x)"
  by (auto simp: normalize_setting_value_def size_definition_def empty_definition_def normalize_number_def
      step_mismatch_def is_exact_json_integer_def maximum_exact_json_integer_def)

lemma size_accepts:
  assumes "x \<in> {0, 2, 4, 6, 8}"
  shows "normalize_settings sample_env size_schema InstanceScope [(Q ''size'', JNum x)] True = vr_accept [(Q ''size'', JNum x)]"
proof -
  have d: "sd_key size_definition = Q ''size''" "sd_scope size_definition = InstanceScope"
    by (simp_all add: size_definition_def empty_definition_def)
  show ?thesis
    by (simp add: normalize_settings_def foreign_keys_def size_schema_def schema_find_def om_contains_def d
        size_value [OF assms])
qed

theorem settings_are_normalised_witness:
  "Some (JNum 6) = vr_value (setting_result sample_env [(Q ''size'', JNum 6)] size_definition)"
proof -
  have a: "normalize_settings sample_env size_schema InstanceScope [(Q ''size'', JNum 6)] True = vr_accept [(Q ''size'', JNum 6)]"
    by (rule size_accepts) simp
  have d: "distinct (map sd_key (ss_settings size_schema))" by (simp add: size_schema_def)
  have k: "schema_find size_schema (Q ''size'') = Some size_definition" "applies InstanceScope [(Q ''size'', JNum 6)] True size_definition"
    by (simp_all add: schema_find_def size_schema_def size_definition_def empty_definition_def applies_def)
  have "map_of [(Q ''size'', JNum 6)] (Q ''size'') = (case schema_find size_schema (Q ''size'') of
        None \<Rightarrow> None
      | Some d \<Rightarrow> if applies InstanceScope [(Q ''size'', JNum 6)] True d
          then vr_value (setting_result sample_env [(Q ''size'', JNum 6)] d) else None)"
    using settings_are_normalised [OF a d] by blast
  then show ?thesis by (simp add: k)
qed

text \<open>
  C31: Normalising normalised settings again returns them unchanged exactly when every value is
  stable: the name of a key and the text of a file or directory selection are still within the
  limit that the code checks before it normalises them. Otherwise they are refused.
\<close>

theorem normalised_settings_are_stable:
  assumes "normal_idempotent E" and "distinct (map sd_key (ss_settings sc))"
    and "normalize_settings E sc scope settings defaults = vr_accept m"
  shows "if list_all (\<lambda>e. stable_value (the (schema_find sc (fst e))) (snd e)) m
    then normalize_settings E sc scope m defaults = vr_accept m
    else \<not> vr_ok (normalize_settings E sc scope m defaults)"
  using normalized_again [OF assms] by simp

theorem normalised_settings_are_stable_witness:
  "normalize_settings sample_env size_schema InstanceScope [(Q ''size'', JNum 6)] True = vr_accept [(Q ''size'', JNum 6)]"
proof -
  have a: "normalize_settings sample_env size_schema InstanceScope [(Q ''size'', JNum 6)] True = vr_accept [(Q ''size'', JNum 6)]"
    by (rule size_accepts) simp
  have d: "distinct (map sd_key (ss_settings size_schema))" by (simp add: size_schema_def)
  have "stable_value (the (schema_find size_schema (Q ''size''))) (JNum 6)"
    by (simp add: schema_find_def size_schema_def size_definition_def empty_definition_def stable_value_def)
  with normalised_settings_are_stable [OF sample_normal_idempotent d a] show ?thesis by simp
qed

section \<open>Schemas\<close>

text \<open>
  C29: An accepted schema is well formed: at most 128 settings with distinct keys; every key, group
  and text within its grammar and limits; the bounds of every type in order; every default a
  normalised value of its setting; and every visibility condition about an earlier setting of the
  same scope, with one of its values, so that conditions never form a cycle.
\<close>

theorem accepted_schema_is_well_formed:
  assumes "normal_idempotent E" and "parse_settings_schema E bs = vr_accept sc"
  shows "schema_ok E sc"
  by (rule parse_settings_schema_ok [OF assms])

lemma sample_schema_root: "parse_schema_root sample_env (to_object (Some sample_schema_value)) = vr_accept size_schema"
proof -
  define ob where "ob = to_object (Some (hd (to_array (map_of (to_object (Some sample_schema_value)) (Q ''settings'')))))"
  have keys: "om_keys ob = map Q [''default'', ''description'', ''group'', ''key'', ''label'', ''maximum'', ''minimum'',
      ''order'', ''scope'', ''step'', ''type'']"
    by (simp add: ob_def sample_schema_value_def json_object_def)
  have look: "map_of ob (Q ''key'') = Some (JStr (Q ''size''))" "map_of ob (Q ''scope'') = Some (JStr (Q ''instance''))"
    "map_of ob (Q ''type'') = Some (JStr (Q ''integer''))" "map_of ob (Q ''label'') = Some (JStr (Q ''Size''))"
    "map_of ob (Q ''description'') = Some (JStr (Q ''Size''))" "map_of ob (Q ''group'') = Some (JStr (Q ''look''))"
    "map_of ob (Q ''order'') = Some (JNum 1)" "map_of ob (Q ''default'') = Some (JNum 4)"
    "map_of ob (Q ''minimum'') = Some (JNum 0)" "map_of ob (Q ''maximum'') = Some (JNum 8)"
    "map_of ob (Q ''step'') = Some (JNum 2)" "map_of ob (Q ''visibleWhen'') = None"
    by (simp_all add: ob_def sample_schema_value_def json_object_def json_int_def)
  have plain: "required_text sample_env ob k p n = (t, [])"
    if "map_of ob (Q k) = Some (JStr t)" "t \<noteq> []" "length t \<le> n" "qt_trimmed sample_env t = t"
      "\<not> has_disallowed_control sample_env t" for k p n t
    using that by (simp add: required_text_def) (simp add: sample_env_def)
  have words: "qt_trimmed sample_env w = w" "\<not> has_disallowed_control sample_env w"
    if "w \<in> {Q ''size'', Q ''instance'', Q ''integer'', Q ''Size'', Q ''look''}" for w
    using that by (auto simp: sample_env_def Q_def has_disallowed_control_def is_high_surrogate_def is_low_surrogate_def)
  have key_text: "required_text sample_env ob ''key'' p 64 = (Q ''size'', [])" for p
    by (rule plain) (simp_all add: look words)
  have scope_text: "required_text sample_env ob ''scope'' p 16 = (Q ''instance'', [])" for p
    by (rule plain) (simp_all add: look words)
  have type_text: "required_text sample_env ob ''type'' p 16 = (Q ''integer'', [])" for p
    by (rule plain) (simp_all add: look words)
  have label_text: "required_text sample_env ob ''label'' p 128 = (Q ''Size'', [])" for p
    by (rule plain) (simp_all add: look words)
  have description_text: "required_text sample_env ob ''description'' p 1024 = (Q ''Size'', [])" for p
    by (rule plain) (simp_all add: look words)
  have group_text: "required_text sample_env ob ''group'' p 64 = (Q ''look'', [])" for p
    by (rule plain) (simp_all add: look words)
  note texts = key_text scope_text type_text label_text description_text group_text
  have key: "is_setting_key (Q ''size'')" "is_valid_group (Q ''look'')"
    by (simp_all add: is_setting_key_def setting_key_body_def Q_def is_lower_def is_alnum_def is_valid_group_def
        match_kebab_def kebab_body_def is_lower_alnum_def)
  have order: "required_integer ob ''order'' p 0 100000 = (Some 1, [])" for p
    by (simp add: required_integer_def required_finite_number_def look is_exact_json_integer_def
        maximum_exact_json_integer_def)
  have scope: "setting_scope_from_string (Q ''instance'') = Some InstanceScope"
    "setting_type_from_string (Q ''integer'') = Some IntegerSetting"
    by (simp_all add: setting_scope_from_string_def setting_type_from_string_def)
  have contains: "om_contains ob (Q ''default'')" "om_contains ob (Q ''step'')" "\<not> om_contains ob (Q ''visibleWhen'')"
    by (simp_all add: om_contains_def look)
  have fields: "parse_number_fields ob p IntegerSetting d
      = (d\<lparr>sd_minimum := Some 0, sd_maximum := Some 8, sd_step := Some 2\<rparr>, [])" for p d
    by (simp add: parse_number_fields_def required_finite_number_def look contains is_exact_json_integer_def
        maximum_exact_json_integer_def)
  have unknown: "unknown_fields ob (base_fields @ [''minimum'', ''maximum'', ''step'']) p = []" for p
    by (simp add: unknown_fields_def base_fields_def keys)
  define d0 where "d0 = size_definition\<lparr>sd_default := Some (JNum 4)\<rparr>"
  have d0: "d0 = size_definition" by (simp add: d0_def size_definition_def)
  have default: "parse_default sample_env ob p (Some IntegerSetting) size_definition = (size_definition, [])" for p
  proof -
    have "sd_default size_definition = Some (JNum 4)" by (simp add: size_definition_def)
    with size_value [of 4] d0 show ?thesis by (simp add: parse_default_def contains d0_def)
  qed
  have "parse_definition sample_env (JObj ob) 0 = (size_definition, [])"
    unfolding parse_definition_def to_object.simps Let_def texts prod.case scope order parse_type_fields_def option.case fields
    using default [of "index_path (Q ''$.settings'') 0"]
    by (simp add: key contains look unknown parse_condition_def size_definition_def empty_definition_def fields)
  moreover have "map_of (to_object (Some sample_schema_value)) (Q ''settings'') = Some (JArr [JObj ob])"
    "map_of (to_object (Some sample_schema_value)) (Q ''schemaVersion'') = Some (JNum 1)"
    "unknown_fields (to_object (Some sample_schema_value)) [''schemaVersion'', ''settings''] (Q ''$'') = []"
    by (simp_all add: ob_def sample_schema_value_def json_object_def json_int_def unknown_fields_def)
  moreover have "sd_visible_when size_definition = None" by (simp add: size_definition_def empty_definition_def)
  ultimately show ?thesis
    by (simp add: parse_schema_root_def required_integer_def required_finite_number_def is_exact_json_integer_def
        maximum_exact_json_integer_def maximum_setting_count_def resolve_condition_def size_schema_def)
qed

lemma sample_schema_parsed: "parse_settings_schema sample_env (qt_compact sample_env sample_schema_value) = vr_accept size_schema"
proof -
  obtain m where m: "sample_schema_value = JObj m" by (simp add: sample_schema_value_def)
  have w: "writable 32 sample_schema_value"
    by (simp add: sample_schema_value_def json_object_def json_int_def number_kept_def write_number_def qnumber.simps
        digit_char_def normalize_json_number_def strip_trailing_zeros_def Q_def is_high_surrogate_def is_low_surrogate_def
        max_int64_def min_int64_def Let_def)
  have l: "length (write_json sample_schema_value) < nat maximum_schema_bytes"
    by (simp add: sample_schema_value_def json_object_def json_int_def write_number_def qnumber.simps write_string_def
        Q_def maximum_schema_bytes_def)
  have "parse_object sample_env maximum_schema_bytes maximum_schema_depth (qt_compact sample_env (JObj m) @ []) = vr_accept m"
    by (rule parse_written_sample) (use w l m in \<open>simp_all add: maximum_schema_depth_def\<close>)
  with sample_schema_root show ?thesis by (simp add: parse_settings_schema_def m)
qed

theorem accepted_schema_is_well_formed_witness: "schema_ok sample_env size_schema"
  using accepted_schema_is_well_formed [OF sample_normal_idempotent sample_schema_parsed] .

text \<open>
  The defaults of an accepted schema are valid settings: applying them to no settings at all
  is accepted and gives every setting of the scope its default, exactly when every default is
  stable; otherwise the component can never be configured with its own defaults.
\<close>

theorem defaults_of_accepted_schema:
  assumes "normal_idempotent E" and "parse_settings_schema E bs = vr_accept sc"
  shows "if list_all (\<lambda>d. sd_scope d = scope \<longrightarrow> stable_value d (the (sd_default d))) (ss_settings sc)
    then \<exists>m. normalize_settings E sc scope [] True = vr_accept m
      \<and> list_all (\<lambda>d. sd_scope d = scope \<longrightarrow> map_of m (sd_key d) = sd_default d) (ss_settings sc)
    else \<not> vr_ok (normalize_settings E sc scope [] True)"
proof -
  have ok: "definitions_ok E (ss_settings sc)" using parse_settings_schema_ok [OF assms] by (simp add: schema_ok_def)
  then have d: "distinct (map sd_key (ss_settings sc))" by (simp add: definitions_ok_def)
  have default: "\<exists>w. sd_default d = Some w \<and> value_ok E d w" if "d \<in> set (ss_settings sc)" for d
    using ok that by (auto simp: definitions_ok_def list_all_iff definition_ok_def default_ok_def split: option.splits)
  have a: "applies scope [] True d \<longleftrightarrow> sd_scope d = scope" for d by (simp add: applies_def)
  have r: "if stable_value d (the (sd_default d)) then setting_result E [] d = vr_accept (the (sd_default d))
      else \<not> vr_ok (setting_result E [] d)" if "d \<in> set (ss_settings sc)" for d
    using default [OF that] normalize_value_fixed [of E d _ "child_path (Q ''$'') (sd_key d)"]
    by (auto simp: setting_result_def om_contains_def)
  show ?thesis
  proof (cases "list_all (\<lambda>d. sd_scope d = scope \<longrightarrow> stable_value d (the (sd_default d))) (ss_settings sc)")
    case True
    then have stable: "stable_value d (the (sd_default d))" if "d \<in> set (ss_settings sc)" "sd_scope d = scope" for d
      using that by (simp add: list_all_iff)
    define m where "m = fold (\<lambda>d. om_insert (sd_key d) (the (vr_value (setting_result E [] d))))
      (filter (applies scope [] True) (ss_settings sc)) []"
    have n: "normalize_settings E sc scope [] True = vr_accept m"
      unfolding normalize_settings_iff using r stable by (auto simp: foreign_keys_def list_all_iff a m_def)
    have "map_of m (sd_key d) = sd_default d" if "d \<in> set (ss_settings sc)" "sd_scope d = scope" for d
      using r [OF that(1)] stable [OF that] default [OF that(1)] schema_find_member [OF d that(1)] that
      by (auto simp: normalized_lookup [OF n d] a)
    with n True show ?thesis by (simp add: list_all_iff)
  next
    case False
    then obtain d' where d': "d' \<in> set (ss_settings sc)" "sd_scope d' = scope" "\<not> stable_value d' (the (sd_default d'))"
      by (auto simp: list_all_iff)
    then have "\<not> vr_ok (setting_result E [] d')" using r by simp
    with d' have "normalize_settings E sc scope [] True \<noteq> vr_accept m" for m
      unfolding normalize_settings_iff by (auto simp: list_all_iff a)
    with False normalize_settings_reject show ?thesis by auto
  qed
qed

theorem defaults_of_accepted_schema_witness:
  "\<exists>m. normalize_settings sample_env size_schema InstanceScope [] True = vr_accept m \<and> map_of m (Q ''size'') = Some (JNum 4)"
proof -
  have "list_all (\<lambda>d. sd_scope d = InstanceScope \<longrightarrow> stable_value d (the (sd_default d))) (ss_settings size_schema)"
    by (simp add: size_schema_def stable_value_def size_definition_def empty_definition_def)
  with defaults_of_accepted_schema [OF sample_normal_idempotent sample_schema_parsed, of InstanceScope]
  show ?thesis by (simp add: size_schema_def size_definition_def empty_definition_def)
qed

section \<open>Colours\<close>

text \<open>
  C33: A colour setting accepts the hash and six or eight hexadecimal digits, also followed by one
  newline, which is kept: the normalised value is the same text in upper case.
\<close>

theorem colour_grammar:
  assumes "sd_type d = ColorSetting"
  shows "normalize_setting_value E d (Some (JStr s)) path = vr_accept w \<longleftrightarrow>
    (\<exists>h. (length h = 6 \<or> length h = 8) \<and> list_all is_hex h \<and> (s = 0x23 # h \<or> s = 0x23 # h @ [0x0A]) \<and> w = JStr (to_upper s))"
proof -
  have body: "match_classes ((\<lambda>c. c = 0x23) # replicate n is_hex) s \<longleftrightarrow>
      (\<exists>h. length h = n \<and> list_all is_hex h \<and> (s = 0x23 # h \<or> s = 0x23 # h @ [0x0A]))" for n
  proof (cases s)
    case (Cons c r)
    have "n \<le> length r \<and> list_all is_hex (take n r) \<and> at_end (drop n r) \<longleftrightarrow>
        (\<exists>h. length h = n \<and> list_all is_hex h \<and> (r = h \<or> r = h @ [0x0A]))"
    proof
      assume "n \<le> length r \<and> list_all is_hex (take n r) \<and> at_end (drop n r)"
      then show "\<exists>h. length h = n \<and> list_all is_hex h \<and> (r = h \<or> r = h @ [0x0A])"
        by (intro exI [of _ "take n r"]) (metis append_Nil2 append_take_drop_id at_end_def length_take min.absorb2)
    qed (auto simp: at_end_def)
    with Cons show ?thesis by (auto simp: match_classes_replicate)
  qed simp
  show ?thesis
    using assms unfolding normalize_setting_value_def is_color_def body
    by (auto simp: invalid_value_def body is_color_def)
qed

theorem colour_grammar_witness:
  "\<exists>w. normalize_setting_value sample_env (empty_definition\<lparr>sd_type := ColorSetting\<rparr>) (Some (JStr (0x23 # replicate 6 0x61 @ [0x0A]))) (Q ''$'')
    = vr_accept w"
proof -
  have "list_all is_hex (replicate 6 0x61)" by (simp add: list_all_iff is_hex_def)
  then show ?thesis
    using colour_grammar [of "empty_definition\<lparr>sd_type := ColorSetting\<rparr>" sample_env "0x23 # replicate 6 0x61 @ [0x0A]" "Q ''$''"
        "JStr (to_upper (0x23 # replicate 6 0x61 @ [0x0A]))"]
    by (intro exI [of _ "JStr (to_upper (0x23 # replicate 6 0x61 @ [0x0A]))"]) (auto intro!: exI [of _ "replicate 6 0x61"])
qed

end
