(* ===== verification/Configuration.thy ===== *)
theory Configuration
  imports Declarative
begin

text \<open>
  src/src/component/component_configuration.{h,cpp}: the configuration of the components that the
  user edits, its parser against a catalog and its serialiser. The records of components whose
  digest is the one in the catalog are normalised with the schema of the catalog; the others are
  kept as they are. As in Settings_Schema, a function that appends errors returns them in order.
\<close>

section \<open>Data\<close>

datatype component_origin = SystemOrigin | UserOrigin

datatype component_type = BarWidget | DesktopWidget | ShellApplication | ShellService

datatype runtime_kind = BuiltinV1 | DeclarativeV1 | QmlFullTrustV1 | ProcessV1

text \<open>\<open>ck_requested\<close> is the set of requested capabilities.\<close>

record config_entry =
  ck_package_digest :: qstring
  ck_type :: component_type
  ck_origin :: component_origin
  ck_schema :: settings_schema
  ck_requested :: "qstring list"
  ck_api_version :: qstring
  ck_runtime_kind :: runtime_kind
  ck_dependency_ids :: "qstring list"
  ck_activation_supported :: bool
  ck_declarative_runtime :: bytes

record config_catalog =
  cc_digest :: qstring
  cc_entries :: "config_entry qmap"

record configured_component =
  cm_package_digest :: qstring
  cm_enabled :: bool
  cm_grants :: "qstring list"
  cm_settings :: "json qmap"

record configured_instance =
  ci_component_id :: qstring
  ci_enabled :: bool
  ci_settings :: "json qmap"

record output_selector =
  os_mode :: qstring
  os_names :: "qstring list"

record bar_layout =
  by_outputs :: output_selector
  by_start :: "qstring list"
  by_center :: "qstring list"
  by_end :: "qstring list"

record component_configuration =
  cg_revision :: "64 word"
  cg_components :: "configured_component qmap"
  cg_instances :: "configured_instance qmap"
  cg_bars :: "bar_layout qmap"

definition maximum_configuration_bytes :: int where
  "maximum_configuration_bytes = 2 * 1024 * 1024"

definition maximum_configuration_depth :: int where
  "maximum_configuration_depth = 32"

definition maximum_components :: nat where
  "maximum_components = 512"

definition maximum_instances :: nat where
  "maximum_instances = 1024"

definition maximum_bar_layouts :: nat where
  "maximum_bar_layouts = 32"

definition maximum_region_instances :: nat where
  "maximum_region_instances = 1024"

section \<open>Helpers\<close>

definition config_unknown_fields :: "json qmap \<Rightarrow> string list \<Rightarrow> qstring \<Rightarrow> verror list" where
  "config_unknown_fields ob allowed path =
     map (\<lambda>k. \<lparr>ve_path = child_path path k, ve_code = Q ''component-config.unknown-field'',
        ve_message = Q ''Unknown field: '' @ k\<rparr>)
     (filter (\<lambda>k. k \<notin> set (map Q allowed)) (om_keys ob))"

definition parse_config_revision :: "json option \<Rightarrow> 64 word option" where
  "parse_config_revision v = (if \<not> is_string v then None else parse_revision (to_string v))"

definition is_layout_id :: "qstring \<Rightarrow> bool" where
  "is_layout_id s \<longleftrightarrow> length s \<le> 64 \<and> match_kebab s"

text \<open>The pattern of capability identifiers (src/src/component/component_contract.cpp).\<close>

definition capability_body :: "qstring \<Rightarrow> bool" where
  "capability_body s \<longleftrightarrow> 2 \<le> length (split_on 0x2E s) \<and> list_all label_body (split_on 0x2E s)"

definition is_valid_capability_id :: "qstring \<Rightarrow> bool" where
  "is_valid_capability_id s \<longleftrightarrow> length s \<le> 255
     \<and> (capability_body s \<or> (s \<noteq> [] \<and> last s = 0x0A \<and> capability_body (butlast s)))"

text \<open>What the parser requires of settings it does not normalise.\<close>

definition dormant_string_errors :: "qt_env \<Rightarrow> qstring \<Rightarrow> qstring \<Rightarrow> verror list" where
  "dormant_string_errors E path t =
     (if 4096 < length t \<or> has_control t \<or> t \<noteq> qt_normal_c E t then
        [mk_error path ''component-config.invalid-setting-string''
          ''Setting strings must be bounded normalized plain text.''] else [])"

definition dormant_number_errors :: "qstring \<Rightarrow> rat \<Rightarrow> verror list" where
  "dormant_number_errors path x =
     (if maximum_exact_json_integer < \<bar>x\<bar> then
        [mk_error path ''component-config.invalid-setting-number''
          ''Dormant numeric settings must stay within the exact JSON-safe range.''] else [])"

definition nested_key_errors :: "qstring \<Rightarrow> qstring \<Rightarrow> verror list" where
  "nested_key_errors path k =
     (if 64 < length k \<or> has_control k then
        [mk_error (child_path path k) ''component-config.invalid-nested-setting-key''
          ''Nested setting keys must be bounded plain text.''] else [])"

text \<open>The element of an array has the path of the array with its index.\<close>

function dormant_errors :: "qt_env \<Rightarrow> nat \<Rightarrow> qstring \<Rightarrow> json \<Rightarrow> verror list" where
  "dormant_errors E depth path v =
     (if 8 < depth then
        [mk_error path ''component-config.settings-depth-limit'' ''A dormant setting value is nested too deeply.'']
      else case v of
          JStr t \<Rightarrow> dormant_string_errors E path t
        | JNum x \<Rightarrow> dormant_number_errors path x
        | JArr vs \<Rightarrow>
            if 64 < length vs then
              [mk_error path ''component-config.settings-array-limit''
                ''A setting array may contain at most 64 values.'']
            else concat (map (\<lambda>i. dormant_errors E (depth + 1) (index_path path i) (vs ! i)) [0..<length vs])
        | JObj m \<Rightarrow>
            if 64 < length m then
              [mk_error path ''component-config.settings-object-limit''
                ''A setting object may contain at most 64 fields.'']
            else concat (map (\<lambda>e. nested_key_errors path (fst e)
              @ dormant_errors E (depth + 1) (child_path path (fst e)) (snd e)) m)
        | _ \<Rightarrow> [])"
  by pat_completeness auto
termination
  by (relation "measure (\<lambda>(E, depth, path, v). 9 - depth)") auto

declare dormant_errors.simps [simp del]

definition dormant_settings_errors :: "qt_env \<Rightarrow> qstring \<Rightarrow> json qmap \<Rightarrow> verror list" where
  "dormant_settings_errors E path settings =
     (if 128 < length settings then
        [mk_error path ''component-config.settings-count-limit'' ''A settings object may contain at most 128 keys.'']
      else concat (map (\<lambda>(k, v).
        (if \<not> is_setting_key k then
           [mk_error (child_path path k) ''component-config.invalid-setting-key''
             ''Setting keys must use bounded lower camel-case ASCII.''] else [])
        @ dormant_errors E 0 (child_path path k) v) settings))"

fun collect_strings :: "bool \<Rightarrow> qstring \<Rightarrow> nat \<Rightarrow> qstring \<Rightarrow> json list \<Rightarrow> qstring list \<times> verror list" where
  "collect_strings sorted_unique path i previous [] = ([], [])"
| "collect_strings sorted_unique path i previous (v # vs) =
     (if \<not> is_string (Some v) then
        (case collect_strings sorted_unique path (Suc i) previous vs of (ts, es) \<Rightarrow>
          (ts, mk_error (index_path path i) ''component-config.string-required'' ''A string is required.'' # es))
      else
        let t = to_string (Some v)
        in case collect_strings sorted_unique path (Suc i) t vs of (ts, es) \<Rightarrow>
          (t # ts, (if sorted_unique \<and> 0 < i \<and> t \<le> previous then
             [mk_error (index_path path i) ''component-config.array-not-sorted-unique''
               ''Values must be sorted and unique.''] else []) @ es))"

definition parse_strings :: "json option \<Rightarrow> qstring \<Rightarrow> nat \<Rightarrow> bool \<Rightarrow> qstring list validation_result" where
  "parse_strings v path maximum_count sorted_unique =
     (if \<not> is_array v \<or> maximum_count < length (to_array v) then
        vr_reject [mk_error path ''component-config.invalid-array'' ''A bounded string array is required.'']
      else case collect_strings sorted_unique path 0 [] (to_array v) of (ts, es) \<Rightarrow>
        if es = [] then vr_accept ts else vr_reject es)"

definition current_component_api_version :: qstring where
  "current_component_api_version = Q ''1.0''"

definition is_supported_user_declarative :: "qt_env \<Rightarrow> config_entry \<Rightarrow> bool" where
  "is_supported_user_declarative E e \<longleftrightarrow> ck_activation_supported e \<and> ck_origin e = UserOrigin
     \<and> ck_type e = BarWidget \<and> ck_api_version e = current_component_api_version
     \<and> ck_runtime_kind e = DeclarativeV1 \<and> ck_requested e = [] \<and> ck_dependency_ids e = []
     \<and> ck_declarative_runtime e \<noteq> []
     \<and> vr_ok (parse_declarative_document E (ck_declarative_runtime e) (Some (ck_schema e)))"

section \<open>Components\<close>

definition component_path :: "qstring \<Rightarrow> qstring" where
  "component_path k = Q ''$.components.'' @ k"

text \<open>The checks of a record of an installed package, before its settings are normalised.\<close>

definition grant_errors :: "qt_env \<Rightarrow> config_entry \<Rightarrow> qstring \<Rightarrow> configured_component \<Rightarrow> verror list" where
  "grant_errors E e path c =
     (if ck_origin e = UserOrigin \<and> cm_enabled c \<and> \<not> is_supported_user_declarative E e then
        [mk_error (path @ Q ''.enabled'') ''component-config.user-runtime-unavailable''
          ''This third-party component does not have an enforceable runtime on the current host.''] else [])
     @ (if is_supported_user_declarative E e \<and> cm_grants c \<noteq> [] then
        [mk_error (path @ Q ''.grantedCapabilities'') ''component-config.declarative-grants-forbidden''
          ''The data-only declarative runtime does not accept capability grants.''] else [])
     @ (if ck_origin e = SystemOrigin \<and> cm_grants c \<noteq> [] then
        [mk_error (path @ Q ''.grantedCapabilities'') ''component-config.builtin-grants-forbidden''
          ''Built-in components do not store user grants.''] else [])
     @ concat (map (\<lambda>g. if g \<notin> set (ck_requested e) then
          [mk_error (path @ Q ''.grantedCapabilities'') ''component-config.unrequested-capability''
            ''A grant was not requested by this package.''] else []) (cm_grants c))"

text \<open>The text that a declarative package takes from the settings of its component.\<close>

definition resolved_text_errors :: "qt_env \<Rightarrow> config_entry \<Rightarrow> qstring \<Rightarrow> json qmap \<Rightarrow> verror list" where
  "resolved_text_errors E e path settings =
     (let document = parse_declarative_document E (ck_declarative_runtime e) (Some (ck_schema e))
      in if is_supported_user_declarative E e \<and> vr_ok document then
           let source = dd_text (the (vr_value document)); resolved = map_of settings (ts_value source)
           in if ts_kind source = ComponentSetting
                 \<and> (\<not> is_string resolved \<or> \<not> is_valid_resolved_text E (to_string resolved)) then
                [mk_error (path @ Q ''.settings.'' @ ts_value source)
                  ''component-config.invalid-declarative-resolved-text''
                  ''The resolved declarative label must be bounded normalized plain text.'']
              else []
         else [])"

definition activate_component ::
  "qt_env \<Rightarrow> config_entry \<Rightarrow> qstring \<Rightarrow> configured_component \<Rightarrow> configured_component \<times> verror list" where
  "activate_component E e path c =
     (let normalized = normalize_settings E (ck_schema e) ComponentScope (cm_settings c) True
      in if \<not> vr_ok normalized then (c, grant_errors E e path c @ vr_errors normalized)
         else let settings = the (vr_value normalized)
              in (c\<lparr>cm_settings := settings\<rparr>, grant_errors E e path c @ resolved_text_errors E e path settings))"

text \<open>The fields of a record, without the catalog.\<close>

definition read_component :: "qt_env \<Rightarrow> qstring \<Rightarrow> json qmap \<Rightarrow> configured_component \<times> verror list" where
  "read_component E path ob =
     (let unknown = config_unknown_fields ob [''packageDigest'', ''enabled'', ''grantedCapabilities'', ''settings''] path;
          digest = map_of ob (Q ''packageDigest''); enabled = map_of ob (Q ''enabled'');
          settings = map_of ob (Q ''settings'');
          digest_ok = (is_string digest \<and> is_full_sha256_digest (to_string digest));
          digest_errors = (if digest_ok then [] else
            [mk_error (path @ Q ''.packageDigest'') ''component-config.invalid-package-digest''
              ''A lowercase SHA-256 package digest is required.'']);
          enabled_errors = (if is_bool enabled then [] else
            [mk_error (path @ Q ''.enabled'') ''component-config.boolean-required'' ''enabled must be boolean.'']);
          grants = parse_strings (map_of ob (Q ''grantedCapabilities'')) (path @ Q ''.grantedCapabilities'') 64 True;
          granted = (if vr_ok grants then the (vr_value grants) else []);
          grants_errors = (if vr_ok grants
            then concat (map (\<lambda>g. if is_valid_capability_id g then [] else
              [mk_error (path @ Q ''.grantedCapabilities'') ''component-config.invalid-capability''
                ''Capability IDs must use canonical dotted lowercase syntax.'']) granted)
            else vr_errors grants);
          settings_errors = (if \<not> is_object settings then
              [mk_error (path @ Q ''.settings'') ''component-config.settings-object-required''
                ''settings must be an object.'']
            else dormant_settings_errors E (path @ Q ''.settings'') (to_object settings))
      in (\<lparr>cm_package_digest = (if digest_ok then to_string digest else []), cm_enabled = to_bool enabled,
           cm_grants = granted, cm_settings = to_object settings\<rparr>,
          unknown @ digest_errors @ enabled_errors @ grants_errors @ settings_errors))"

definition parse_component ::
  "qt_env \<Rightarrow> config_catalog \<Rightarrow> qstring \<Rightarrow> json \<Rightarrow> configured_component option \<times> verror list" where
  "parse_component E cat k v =
     (if \<not> is_valid_component_id k \<or> \<not> is_object (Some v) then
        (None, [mk_error (component_path k) ''component-config.invalid-component-record''
          ''A valid component ID and object record are required.''])
      else case read_component E (component_path k) (to_object (Some v)) of (c, errors) \<Rightarrow>
        (case map_of (cc_entries cat) k of
           None \<Rightarrow> (Some c, errors)
         | Some e \<Rightarrow>
             if cm_package_digest c \<noteq> ck_package_digest e then (Some c, errors)
             else (case activate_component E e (component_path k) c of (c1, added) \<Rightarrow> (Some c1, errors @ added))))"

text \<open>The loops over the members of an object: what is inserted, and the errors.\<close>

fun parse_members :: "(qstring \<Rightarrow> json \<Rightarrow> 'a option \<times> verror list) \<Rightarrow> json qmap \<Rightarrow> 'a qmap \<Rightarrow> 'a qmap \<times> verror list" where
  "parse_members f [] acc = (acc, [])"
| "parse_members f ((k, v) # m) acc =
     (case f k v of (r, es) \<Rightarrow>
        (case parse_members f m (case r of None \<Rightarrow> acc | Some x \<Rightarrow> om_insert k x acc) of (final, rest) \<Rightarrow>
          (final, es @ rest)))"

definition parse_components ::
  "qt_env \<Rightarrow> config_catalog \<Rightarrow> json option \<Rightarrow> configured_component qmap \<times> verror list" where
  "parse_components E cat v =
     (if \<not> is_object v \<or> maximum_components < length (to_object v) then
        ([], [mk_error (Q ''$.components'') ''component-config.invalid-components''
          ''components must be an object with at most 512 records.''])
      else parse_members (parse_component E cat) (to_object v) [])"

section \<open>Instances\<close>

definition read_instance ::
  "qt_env \<Rightarrow> configured_component qmap \<Rightarrow> qstring \<Rightarrow> json qmap \<Rightarrow> configured_instance \<times> verror list" where
  "read_instance E components path ob =
     (let unknown = config_unknown_fields ob [''componentId'', ''enabled'', ''settings''] path;
          component = map_of ob (Q ''componentId''); enabled = map_of ob (Q ''enabled'');
          settings = map_of ob (Q ''settings'');
          known = (is_string component \<and> om_contains components (to_string component));
          component_errors = (if known then [] else
            [mk_error (path @ Q ''.componentId'') ''component-config.unknown-component-reference''
              ''The instance must reference a desired component record.'']);
          enabled_errors = (if is_bool enabled then [] else
            [mk_error (path @ Q ''.enabled'') ''component-config.boolean-required'' ''enabled must be boolean.'']);
          settings_errors = (if \<not> is_object settings then
              [mk_error (path @ Q ''.settings'') ''component-config.settings-object-required''
                ''settings must be an object.'']
            else dormant_settings_errors E (path @ Q ''.settings'') (to_object settings))
      in (\<lparr>ci_component_id = (if known then to_string component else []), ci_enabled = to_bool enabled,
           ci_settings = to_object settings\<rparr>,
          unknown @ component_errors @ enabled_errors @ settings_errors))"

definition activate_instance ::
  "qt_env \<Rightarrow> config_entry \<Rightarrow> qstring \<Rightarrow> configured_instance \<Rightarrow> configured_instance \<times> verror list" where
  "activate_instance E e path i =
     (let type_errors = (if ck_type e \<noteq> BarWidget then
            [mk_error (path @ Q ''.componentId'') ''component-config.unsupported-instance-type''
              ''The current visual host supports only bar-widget instances.''] else [])
      in if is_supported_user_declarative E e then
           (i, type_errors @ (if ci_settings i \<noteq> [] then
             [mk_error (path @ Q ''.settings'') ''component-config.declarative-instance-settings-forbidden''
               ''Version one declarative widgets use component settings only.''] else []))
         else
           let normalized = normalize_settings E (ck_schema e) InstanceScope (ci_settings i) True
           in if \<not> vr_ok normalized then (i, type_errors @ vr_errors normalized)
              else (i\<lparr>ci_settings := the (vr_value normalized)\<rparr>, type_errors))"

text \<open>The catalog entry of a component whose record is for the installed package.\<close>

definition active_entry ::
  "config_catalog \<Rightarrow> configured_component qmap \<Rightarrow> qstring \<Rightarrow> config_entry option" where
  "active_entry cat components k =
     (case (map_of components k, map_of (cc_entries cat) k) of
        (Some c, Some e) \<Rightarrow> if cm_package_digest c = ck_package_digest e then Some e else None
      | _ \<Rightarrow> None)"

definition instance_path :: "qstring \<Rightarrow> qstring" where
  "instance_path k = Q ''$.instances.'' @ k"

definition parse_instance_record ::
  "qt_env \<Rightarrow> config_catalog \<Rightarrow> configured_component qmap \<Rightarrow> qstring \<Rightarrow> json \<Rightarrow>
    configured_instance option \<times> verror list" where
  "parse_instance_record E cat components k v =
     (if \<not> is_lowercase_uuid_v4 k \<or> \<not> is_object (Some v) then
        (None, [mk_error (instance_path k) ''component-config.invalid-instance-record''
          ''A lowercase UUIDv4 and object record are required.''])
      else case read_instance E components (instance_path k) (to_object (Some v)) of (i, errors) \<Rightarrow>
        (case active_entry cat components (ci_component_id i) of
           None \<Rightarrow> (Some i, errors)
         | Some e \<Rightarrow> (case activate_instance E e (instance_path k) i of (i1, added) \<Rightarrow> (Some i1, errors @ added))))"

definition parse_instance_records ::
  "qt_env \<Rightarrow> config_catalog \<Rightarrow> configured_component qmap \<Rightarrow> json option \<Rightarrow> configured_instance qmap \<times> verror list" where
  "parse_instance_records E cat components v =
     (if \<not> is_object v \<or> maximum_instances < length (to_object v) then
        ([], [mk_error (Q ''$.instances'') ''component-config.invalid-instances''
          ''instances must be an object with at most 1024 records.''])
      else parse_members (parse_instance_record E cat components) (to_object v) [])"

section \<open>Layouts\<close>

definition default_outputs :: output_selector where
  "default_outputs = \<lparr>os_mode = Q ''all'', os_names = []\<rparr>"

definition output_name_errors :: "qt_env \<Rightarrow> qstring \<Rightarrow> qstring \<Rightarrow> verror list" where
  "output_name_errors E path n =
     (if n = [] \<or> 128 < length n \<or> n \<noteq> qt_trimmed E n \<or> has_control n \<or> n \<noteq> qt_normal_c E n then
        [mk_error (path @ Q ''.outputs.names'') ''component-config.invalid-output-name''
          ''Output names must be bounded normalized plain text.''] else [])"

text \<open>\<open>bool(result)\<close> and \<open>isEmpty\<close> of the parsed names.\<close>

definition parse_output_names :: "qt_env \<Rightarrow> qstring \<Rightarrow> json option \<Rightarrow> qstring list \<times> verror list" where
  "parse_output_names E path v =
     (let names = parse_strings v (path @ Q ''.outputs.names'') 32 True
      in if \<not> vr_ok names then ([], vr_errors names)
         else if the (vr_value names) = [] then
           ([], [mk_error (path @ Q ''.outputs.names'') ''component-config.empty-output-names''
             ''named output mode requires at least one name.''])
         else (the (vr_value names), concat (map (output_name_errors E path) (the (vr_value names)))))"

definition parse_outputs :: "qt_env \<Rightarrow> qstring \<Rightarrow> json option \<Rightarrow> output_selector \<times> verror list" where
  "parse_outputs E path v =
     (if \<not> is_object v then
        (default_outputs, [mk_error (path @ Q ''.outputs'') ''component-config.invalid-output-selector''
          ''outputs must be an object.''])
      else
        let outputs = to_object v; mode = map_of outputs (Q ''mode'');
            known = (is_string mode \<and> (to_string mode = Q ''all'' \<or> to_string mode = Q ''named''));
            mode_errors = (if known then [] else
              [mk_error (path @ Q ''.outputs.mode'') ''component-config.invalid-output-mode''
                ''Output mode must be all or named.'']);
            m = (if known then to_string mode else Q ''all'')
        in if m = Q ''all'' then
             (\<lparr>os_mode = m, os_names = []\<rparr>,
              mode_errors @ config_unknown_fields outputs [''mode''] (path @ Q ''.outputs''))
           else
             (case parse_output_names E path (map_of outputs (Q ''names'')) of (names, es) \<Rightarrow>
               (\<lparr>os_mode = m, os_names = names\<rparr>,
                mode_errors @ config_unknown_fields outputs [''mode'', ''names''] (path @ Q ''.outputs'') @ es)))"

text \<open>The regions of a layout, in the order of the code; the errors come in that order too.\<close>

definition parse_bar_regions :: "qstring \<Rightarrow> json option \<Rightarrow> (qstring list \<times> qstring list \<times> qstring list) \<times> verror list" where
  "parse_bar_regions path v =
     (if \<not> is_object v then
        (([], [], []), [mk_error (path @ Q ''.regions'') ''component-config.invalid-regions''
          ''regions must be an object.''])
      else
        let regions = to_object v;
            region = (\<lambda>name. parse_strings (map_of regions (Q name)) (path @ Q ''.regions.'' @ Q name)
              maximum_region_instances False);
            ids = (\<lambda>name. if vr_ok (region name) then the (vr_value (region name)) else []);
            es = (\<lambda>name. if vr_ok (region name) then [] else vr_errors (region name))
        in ((ids ''start'', ids ''center'', ids ''end''),
            config_unknown_fields regions [''start'', ''center'', ''end''] (path @ Q ''.regions'')
            @ es ''start'' @ es ''center'' @ es ''end''))"

definition parse_bar :: "qt_env \<Rightarrow> qstring \<Rightarrow> json \<Rightarrow> bar_layout option \<times> verror list" where
  "parse_bar E k v =
     (let path = Q ''$.layouts.bars.'' @ k
      in if \<not> is_layout_id k \<or> \<not> is_object (Some v) then
           (None, [mk_error path ''component-config.invalid-bar-layout'' ''A valid layout ID and object are required.''])
         else
           let ob = to_object (Some v);
               unknown = config_unknown_fields ob [''outputs'', ''regions''] path;
               (outputs, output_errors) = parse_outputs E path (map_of ob (Q ''outputs''));
               ((start, center, last), region_errors) = parse_bar_regions path (map_of ob (Q ''regions''))
           in (Some \<lparr>by_outputs = outputs, by_start = start, by_center = center, by_end = last\<rparr>,
               unknown @ output_errors @ region_errors))"

definition parse_bar_layouts :: "qt_env \<Rightarrow> json option \<Rightarrow> bar_layout qmap \<times> verror list" where
  "parse_bar_layouts E v =
     (if \<not> is_object v then
        ([], [mk_error (Q ''$.layouts'') ''component-config.layouts-object-required'' ''layouts must be an object.''])
      else
        let layouts = to_object v;
            unknown = config_unknown_fields layouts [''bars'', ''desktops''] (Q ''$.layouts'');
            desktops = map_of layouts (Q ''desktops'');
            desktop_errors = (if \<not> is_object desktops \<or> to_object desktops \<noteq> [] then
              [mk_error (Q ''$.layouts.desktops'') ''component-config.desktops-not-supported''
                ''Desktop component layouts are not supported yet.''] else []);
            bars = map_of layouts (Q ''bars'')
        in if \<not> is_object bars \<or> maximum_bar_layouts < length (to_object bars) then
             ([], unknown @ desktop_errors @ [mk_error (Q ''$.layouts.bars'') ''component-config.invalid-bar-layouts''
               ''bars must contain at most 32 layouts.''])
           else (case parse_members (parse_bar E) (to_object bars) [] of (m, es) \<Rightarrow> (m, unknown @ desktop_errors @ es)))"

section \<open>Placements\<close>

definition placement_path :: "qstring \<Rightarrow> string \<Rightarrow> nat \<Rightarrow> qstring" where
  "placement_path k region i = Q ''$.layouts.bars.'' @ k @ Q ''.regions.'' @ Q region @ Q ''['' @ qnumber i @ Q '']''"

text \<open>An enabled instance of a supported declarative package outside the main layout.\<close>

definition misplaced_declarative ::
  "qt_env \<Rightarrow> config_catalog \<Rightarrow> component_configuration \<Rightarrow> qstring \<Rightarrow> qstring \<Rightarrow> bool" where
  "misplaced_declarative E cat cfg k x \<longleftrightarrow>
     (case map_of (cg_instances cfg) x of
        None \<Rightarrow> False
      | Some i \<Rightarrow> k \<noteq> Q ''main'' \<and> ci_enabled i
          \<and> (case map_of (cg_components cfg) (ci_component_id i) of None \<Rightarrow> False | Some c \<Rightarrow> cm_enabled c)
          \<and> (case active_entry cat (cg_components cfg) (ci_component_id i) of None \<Rightarrow> False
             | Some e \<Rightarrow> is_supported_user_declarative E e))"

fun placement_errors ::
  "qt_env \<Rightarrow> config_catalog \<Rightarrow> component_configuration \<Rightarrow> qstring \<Rightarrow> string \<Rightarrow> nat \<Rightarrow> qstring list \<Rightarrow> qstring list \<Rightarrow>
    verror list \<times> qstring list" where
  "placement_errors E cat cfg k region i [] placed = ([], placed)"
| "placement_errors E cat cfg k region i (x # xs) placed =
     (let path = placement_path k region i;
          errors = (if \<not> is_lowercase_uuid_v4 x \<or> \<not> om_contains (cg_instances cfg) x then
              [mk_error path ''component-config.unknown-instance-placement''
                ''Every placement must reference an existing instance.'']
            else if x \<in> set placed then
              [mk_error path ''component-config.duplicate-instance-placement''
                ''An instance may appear in exactly one placement.'']
            else if misplaced_declarative E cat cfg k x then
              [mk_error path ''component-config.declarative-main-layout-required''
                ''Enabled declarative-v1 widgets must be placed in the main bar layout.'']
            else [])
      in case placement_errors E cat cfg k region (Suc i) xs (x # placed) of (es, final) \<Rightarrow> (errors @ es, final))"

fun layouts_errors ::
  "qt_env \<Rightarrow> config_catalog \<Rightarrow> component_configuration \<Rightarrow> bar_layout qmap \<Rightarrow> qstring list \<Rightarrow> verror list \<times> qstring list" where
  "layouts_errors E cat cfg [] placed = ([], placed)"
| "layouts_errors E cat cfg ((k, l) # m) placed =
     (case placement_errors E cat cfg k ''start'' 0 (by_start l) placed of (e1, p1) \<Rightarrow>
      case placement_errors E cat cfg k ''center'' 0 (by_center l) p1 of (e2, p2) \<Rightarrow>
      case placement_errors E cat cfg k ''end'' 0 (by_end l) p2 of (e3, p3) \<Rightarrow>
      case layouts_errors E cat cfg m p3 of (e4, p4) \<Rightarrow> (e1 @ e2 @ e3 @ e4, p4))"

definition unplaced_errors :: "configured_instance qmap \<Rightarrow> qstring list \<Rightarrow> verror list" where
  "unplaced_errors instances placed = map (\<lambda>k. mk_error (instance_path k) ''component-config.unplaced-instance''
     ''Every visual instance requires exactly one placement.'') (filter (\<lambda>k. k \<notin> set placed) (om_keys instances))"

section \<open>Documents\<close>

definition version_errors :: "json option \<Rightarrow> verror list" where
  "version_errors v =
     (if is_double v \<and> of_int \<lfloor>to_double v\<rfloor> = to_double v \<and> 1 < to_double v then
        [mk_error (Q ''$.formatVersion'') ''component-config.unsupported-format''
          ''This component configuration format is newer than supported.'']
      else if \<not> is_double v \<or> to_double v \<noteq> 1 then
        [mk_error (Q ''$.formatVersion'') ''component-config.invalid-format''
          ''Component configuration format version 1 is required.'']
      else [])"

definition parse_configuration_root ::
  "qt_env \<Rightarrow> config_catalog \<Rightarrow> json qmap \<Rightarrow> component_configuration validation_result" where
  "parse_configuration_root E cat root_object =
     (let unknown = config_unknown_fields root_object
            [''formatVersion'', ''revision'', ''components'', ''instances'', ''layouts''] (Q ''$'');
          revision = parse_config_revision (map_of root_object (Q ''revision''));
          revision_errors = (if revision = None then
            [mk_error (Q ''$.revision'') ''component-config.invalid-revision''
              ''revision must be a canonical unsigned decimal string.''] else []);
          (components, component_errors) = parse_components E cat (map_of root_object (Q ''components''));
          (instances, instance_errors) = parse_instance_records E cat components (map_of root_object (Q ''instances''));
          (bars, bar_errors) = parse_bar_layouts E (map_of root_object (Q ''layouts''));
          cfg = \<lparr>cg_revision = (case revision of None \<Rightarrow> 0 | Some n \<Rightarrow> n), cg_components = components,
            cg_instances = instances, cg_bars = bars\<rparr>;
          (errors, placed) = layouts_errors E cat cfg bars [];
          all_errors = unknown @ version_errors (map_of root_object (Q ''formatVersion'')) @ revision_errors
            @ component_errors @ instance_errors @ bar_errors @ errors @ unplaced_errors instances placed
      in if all_errors = [] then vr_accept cfg else vr_reject all_errors)"

definition parse_component_configuration ::
  "qt_env \<Rightarrow> bytes \<Rightarrow> config_catalog \<Rightarrow> component_configuration validation_result" where
  "parse_component_configuration E bs cat =
     (let parsed = parse_object E maximum_configuration_bytes maximum_configuration_depth bs
      in if \<not> vr_ok parsed then vr_reject (vr_errors parsed)
         else parse_configuration_root E cat (the (vr_value parsed)))"

section \<open>Serialisation\<close>

definition strings_array :: "qstring list \<Rightarrow> json" where
  "strings_array xs = JArr (map JStr xs)"

definition component_object :: "configured_component \<Rightarrow> json qmap" where
  "component_object c = json_object
     [(''packageDigest'', JStr (cm_package_digest c)), (''enabled'', JBool (cm_enabled c)),
      (''grantedCapabilities'', strings_array (cm_grants c)), (''settings'', JObj (cm_settings c))]"

definition configured_instance_object :: "configured_instance \<Rightarrow> json qmap" where
  "configured_instance_object i = json_object
     [(''componentId'', JStr (ci_component_id i)), (''enabled'', JBool (ci_enabled i)),
      (''settings'', JObj (ci_settings i))]"

definition outputs_object :: "output_selector \<Rightarrow> json qmap" where
  "outputs_object s =
     (let base = json_object [(''mode'', JStr (os_mode s))]
      in if os_mode s = Q ''named'' then om_insert (Q ''names'') (strings_array (os_names s)) base else base)"

definition bar_object :: "bar_layout \<Rightarrow> json qmap" where
  "bar_object l = json_object
     [(''outputs'', JObj (outputs_object (by_outputs l))),
      (''regions'', JObj (json_object [(''start'', strings_array (by_start l)),
         (''center'', strings_array (by_center l)), (''end'', strings_array (by_end l))]))]"

definition configuration_object :: "component_configuration \<Rightarrow> json qmap" where
  "configuration_object cfg =
     (let components = fold (\<lambda>(k, c). om_insert k (JObj (component_object c))) (cg_components cfg) [];
          instances = fold (\<lambda>(k, i). om_insert k (JObj (configured_instance_object i))) (cg_instances cfg) [];
          bars = fold (\<lambda>(k, l). om_insert k (JObj (bar_object l))) (cg_bars cfg) []
      in json_object
        [(''formatVersion'', json_int 1), (''revision'', JStr (qnumber (unat (cg_revision cfg)))),
         (''components'', JObj components), (''instances'', JObj instances),
         (''layouts'', JObj (json_object [(''bars'', JObj bars), (''desktops'', JObj [])]))])"

definition serialize_component_configuration :: "qt_env \<Rightarrow> component_configuration \<Rightarrow> bytes" where
  "serialize_component_configuration E cfg = qt_compact E (JObj (configuration_object cfg)) @ [10]"

end
