(* ===== verification/Configuration_Facts.thy ===== *)
theory Configuration_Facts
  imports Configuration Settings_Facts
begin

text \<open>
  What an accepted configuration looks like, and when the document it is serialised to is read
  back: every record is either the one that was read, or its settings are normalised.
\<close>

section \<open>Strings and members\<close>

lemma collect_strings_ok: "collect_strings b p i prev vs = (ts, []) \<Longrightarrow> vs = map JStr ts"
proof (induction vs arbitrary: i prev ts)
  case (Cons v vs)
  obtain us es where rest: "collect_strings b p (Suc i) (to_string (Some v)) vs = (us, es)" by force
  have "is_string (Some v)" using Cons.prems by (auto split: if_splits prod.splits)
  with Cons.prems rest have "ts = to_string (Some v) # us" "es = []" by (auto simp: Let_def)
  with Cons.IH [of "Suc i" "to_string (Some v)" us] rest \<open>is_string (Some v)\<close> show ?case by (auto simp: is_string_iff)
qed simp

lemma parse_strings_ok: "parse_strings v p n b = vr_accept ts \<Longrightarrow> v = Some (strings_array ts)"
  by (auto simp: parse_strings_def strings_array_def is_array_iff split: if_splits prod.splits dest: collect_strings_ok)

lemma parse_strings_decided: "vr_ok (parse_strings v p n b) \<longleftrightarrow> vr_errors (parse_strings v p n b) = []"
  by (auto simp: parse_strings_def split: prod.splits)

lemma parse_strings_value: "vr_ok (parse_strings v p n b) \<Longrightarrow> parse_strings v p n b = vr_accept (the (vr_value (parse_strings v p n b)))"
  by (auto simp: parse_strings_def split: prod.splits if_splits)

text \<open>An object with the keys and members of another one is that object.\<close>

lemma json_object_fold: "json_object fs = fold (\<lambda>x. om_insert (Q (fst x)) (snd x)) fs []"
  unfolding json_object_def case_prod_unfold ..

lemma object_eqI:
  assumes "om_inv m" "config_unknown_fields m (map fst fs) p = []" "distinct (map fst fs)"
    and "\<And>k v. (k, v) \<in> set fs \<Longrightarrow> map_of m (Q k) = Some v"
  shows "m = json_object fs"
proof (rule om_ext)
  have d: "distinct (map Q (map fst fs))"
    using assms(3) by (simp add: distinct_map inj_on_def del: map_map)
  have "map_of (json_object fs) (Q k) = Some v" if "(k, v) \<in> set fs" for k v
  proof -
    have look: "map_of (json_object fs) (Q k) = (case find (\<lambda>x. Q (fst x) = Q k) (rev fs) of None \<Rightarrow> None | Some x \<Rightarrow> Some (snd x))"
      unfolding json_object_fold using om.lookup_puts [of "[]" "\<lambda>x. Q (fst x)" snd fs "Q k"] by (simp split: option.splits)
    have "find (\<lambda>x. Q (fst x) = Q k) (rev fs) = find (\<lambda>x. Q (fst x) = Q k) fs"
      using d by (intro find_rev_distinct) (simp add: comp_def)
    also have "\<dots> = Some (k, v)" using d that by (subst find_key_iff) (simp_all add: comp_def)
    finally show ?thesis by (simp add: look)
  qed
  moreover have "map_of (json_object fs) x = None" if "x \<notin> Q ` fst ` set fs" for x
  proof -
    have "map_of (json_object fs) x = (case find (\<lambda>y. Q (fst y) = x) (rev fs) of None \<Rightarrow> None | Some y \<Rightarrow> Some (snd y))"
      unfolding json_object_fold using om.lookup_puts [of "[]" "\<lambda>y. Q (fst y)" snd fs x] by (simp split: option.splits)
    also have "find (\<lambda>y. Q (fst y) = x) (rev fs) = None" using that by (force simp: find_None_iff)
    finally show ?thesis by simp
  qed
  moreover have "map_of m x = None" if "x \<notin> Q ` fst ` set fs" for x
  proof (rule ccontr)
    assume "map_of m x \<noteq> None"
    then have "x \<in> set (om_keys m)" by (auto simp: map_of_eq_None_iff)
    with assms(2) have "x \<in> set (map Q (map fst fs))" unfolding config_unknown_fields_def map_is_Nil_conv filter_empty_conv by blast
    with that show False by (simp add: image_comp)
  qed
  ultimately have "map_of m x = map_of (json_object fs) x" for x
  proof (cases "x \<in> Q ` fst ` set fs")
    case True
    then obtain k v where "(k, v) \<in> set fs" "x = Q k" by force
    then show ?thesis using assms(4) \<open>\<And>k v. (k, v) \<in> set fs \<Longrightarrow> map_of (json_object fs) (Q k) = Some v\<close> by simp
  qed simp
  then show "map_of m = map_of (json_object fs)" ..
qed (use assms(1) in simp_all)

lemma parse_members_snoc:
  assumes f: "\<forall>(k, v) \<in> set m. f k v \<noteq> (None, [])"
    and p: "parse_members f m acc = (r, [])" and inv: "om_inv m" and after: "\<forall>k \<in> fst ` set acc. \<forall>j \<in> fst ` set m. k < j"
  shows "\<exists>xs. map fst xs = map fst m \<and> r = acc @ xs \<and> (\<forall>i < length m. f (fst (m ! i)) (snd (m ! i)) = (Some (snd (xs ! i)), []))"
  using f p inv after
proof (induction m arbitrary: acc)
  case (Cons e m)
  obtain k v where e: "e = (k, v)" by force
  obtain o1 es where f: "f k v = (o1, es)" by force
  obtain fin rest where p: "parse_members f m (case o1 of None \<Rightarrow> acc | Some x \<Rightarrow> om_insert k x acc) = (fin, rest)" by force
  have eqs: "fin = r" "es = []" "rest = []" using Cons.prems(2) e f p by auto
  with Cons.prems(1) e f obtain x where x: "o1 = Some x" by (cases o1) auto
  have snoc: "om_insert k x acc = acc @ [(k, x)]" using Cons.prems(4) e by (intro om_insert_last) auto
  have "parse_members f m (acc @ [(k, x)]) = (r, [])" using p eqs x snoc by simp
  moreover have "om_inv m" "\<forall>j \<in> fst ` set (acc @ [(k, x)]). \<forall>i \<in> fst ` set m. j < i"
    using Cons.prems(3,4) e by auto
  ultimately obtain xs where xs: "map fst xs = map fst m" "r = (acc @ [(k, x)]) @ xs"
    "\<forall>i < length m. f (fst (m ! i)) (snd (m ! i)) = (Some (snd (xs ! i)), [])"
    using Cons.IH [of "acc @ [(k, x)]"] Cons.prems(1) by auto
  then show ?case
    using f x eqs e by (intro exI [of _ "(k, x) # xs"]) (auto simp: nth_Cons split: nat.split)
qed simp

text \<open>What the members of an object are parsed to, one by one.\<close>

lemma parse_members_ok:
  assumes f: "\<forall>(k, v) \<in> set m. f k v \<noteq> (None, [])"
    and p: "parse_members f m [] = (r, [])" and inv: "om_inv m"
  shows "om_inv r" "om_keys r = om_keys m"
    and "\<And>k x. (k, x) \<in> set r \<Longrightarrow> \<exists>v. (k, v) \<in> set m \<and> f k v = (Some x, [])"
proof -
  obtain xs where xs: "map fst xs = map fst m" "r = xs"
    "\<forall>i < length m. f (fst (m ! i)) (snd (m ! i)) = (Some (snd (xs ! i)), [])"
    using parse_members_snoc [OF f p inv] by auto
  then show "om_inv r" "om_keys r = om_keys m" using inv by (simp_all add: om_inv_def)
  fix k x assume "(k, x) \<in> set r"
  then obtain i where i: "i < length xs" "xs ! i = (k, x)" using xs(2) by (metis in_set_conv_nth)
  have len: "length xs = length m" using xs(1) by (metis length_map)
  then have "fst (m ! i) = k" using i xs(1) by (metis fst_conv nth_map)
  then show "\<exists>v. (k, v) \<in> set m \<and> f k v = (Some x, [])"
    using xs(3) i len by (metis nth_mem prod.collapse snd_conv)
qed

lemma parse_members_map:
  assumes "om_inv (acc @ m)" and "\<And>k x. (k, x) \<in> set m \<Longrightarrow> f k (h x) = (Some x, es k x)"
  shows "parse_members f (map (\<lambda>(k, x). (k, h x)) m) acc = (acc @ m, concat (map (\<lambda>(k, x). es k x) m))"
  using assms
proof (induction m arbitrary: acc)
  case (Cons e m)
  obtain k x where e: "e = (k, x)" by force
  have inv: "om_inv ((acc @ [(k, x)]) @ m)" using Cons.prems e by simp
  then have "om_inv (acc @ [(k, x)])" by (metis om_inv_def map_append sorted_wrt_append)
  then have "om_insert k x acc = acc @ [(k, x)]" by (intro om_insert_last) (simp add: om_inv_snoc)
  with Cons.IH [OF inv] Cons.prems(2) e show ?case by simp
qed simp

section \<open>Records of components\<close>

lemma component_object_lookup [simp]:
  "map_of (component_object c) (Q ''packageDigest'') = Some (JStr (cm_package_digest c))"
  "map_of (component_object c) (Q ''enabled'') = Some (JBool (cm_enabled c))"
  "map_of (component_object c) (Q ''grantedCapabilities'') = Some (strings_array (cm_grants c))"
  "map_of (component_object c) (Q ''settings'') = Some (JObj (cm_settings c))"
  "config_unknown_fields (component_object c) [''packageDigest'', ''enabled'', ''grantedCapabilities'', ''settings''] p = []"
  by (simp_all add: component_object_def json_object_def config_unknown_fields_def)

text \<open>A record that is read without an error is the one it would be written to.\<close>

lemma errors_unless [simp]: "(if P then [] else [e]) = [] \<longleftrightarrow> P"
  by simp

lemma concat_unless [simp]: "concat (map (\<lambda>x. if P x then [] else [e x]) xs) = [] \<longleftrightarrow> list_all P xs"
  by (induction xs) simp_all

lemma parse_strings_cases:
  obtains ts where "parse_strings v p n b = vr_accept ts" "v = Some (strings_array ts)"
  | es where "parse_strings v p n b = vr_reject es" "es \<noteq> []"
proof (cases "vr_ok (parse_strings v p n b)")
  case True
  then show thesis using that(1) parse_strings_value parse_strings_ok by metis
next
  case False
  moreover have "vr_value (parse_strings v p n b) = None \<or> vr_ok (parse_strings v p n b)"
    by (auto simp: parse_strings_def split: prod.splits)
  ultimately have "parse_strings v p n b = vr_reject (vr_errors (parse_strings v p n b))" by (cases "parse_strings v p n b") auto
  with False that(2) show thesis using parse_strings_decided by blast
qed

lemma read_component_iff:
  "read_component E path ob = (c, []) \<longleftrightarrow>
     config_unknown_fields ob [''packageDigest'', ''enabled'', ''grantedCapabilities'', ''settings''] path = []
     \<and> map_of ob (Q ''packageDigest'') = Some (JStr (cm_package_digest c)) \<and> is_full_sha256_digest (cm_package_digest c)
     \<and> map_of ob (Q ''enabled'') = Some (JBool (cm_enabled c))
     \<and> parse_strings (map_of ob (Q ''grantedCapabilities'')) (path @ Q ''.grantedCapabilities'') 64 True = vr_accept (cm_grants c)
     \<and> list_all is_valid_capability_id (cm_grants c)
     \<and> map_of ob (Q ''settings'') = Some (JObj (cm_settings c))
     \<and> dormant_settings_errors E (path @ Q ''.settings'') (cm_settings c) = []"
  (is "_ \<longleftrightarrow> ?u = [] \<and> ?d = _ \<and> _ \<and> ?e = _ \<and> ?g = _ \<and> _ \<and> ?s = _ \<and> _")
proof (cases "is_string ?d \<and> is_bool ?e \<and> is_object ?s")
  case False
  then have "snd (read_component E path ob) \<noteq> []" by (auto simp: read_component_def Let_def)
  with False show ?thesis by auto
next
  case True
  then obtain t b m where v: "?d = Some (JStr t)" "?e = Some (JBool b)" "?s = Some (JObj m)" by (auto simp: is_kind_iffs)
  show ?thesis
  proof (cases rule: parse_strings_cases [of "map_of ob (Q ''grantedCapabilities'')" "path @ Q ''.grantedCapabilities''" 64 True])
    case (1 ts)
    have "read_component E path ob = (\<lparr>cm_package_digest = (if is_full_sha256_digest t then t else []), cm_enabled = b,
        cm_grants = ts, cm_settings = m\<rparr>, ?u @ (if is_full_sha256_digest t then [] else
            [mk_error (path @ Q ''.packageDigest'') ''component-config.invalid-package-digest''
              ''A lowercase SHA-256 package digest is required.''])
        @ concat (map (\<lambda>g. if is_valid_capability_id g then [] else
              [mk_error (path @ Q ''.grantedCapabilities'') ''component-config.invalid-capability''
                ''Capability IDs must use canonical dotted lowercase syntax.'']) ts)
        @ dormant_settings_errors E (path @ Q ''.settings'') m)"
      by (simp add: read_component_def Let_def v 1(1))
    then have "read_component E path ob = (c, []) \<longleftrightarrow> ?u = [] \<and> is_full_sha256_digest t \<and> list_all is_valid_capability_id ts
        \<and> dormant_settings_errors E (path @ Q ''.settings'') m = []
        \<and> c = \<lparr>cm_package_digest = t, cm_enabled = b, cm_grants = ts, cm_settings = m\<rparr>"
      by (simp only: prod.inject append_is_Nil_conv errors_unless concat_unless) (metis (full_types))
    then show ?thesis unfolding v 1(1) by (cases c) auto
  next
    case (2 es)
    have "snd (read_component E path ob) \<noteq> []" by (simp add: read_component_def Let_def v 2)
    then show ?thesis by (auto simp: 2(1))
  qed
qed

lemma read_component_ok:
  assumes r: "read_component E path ob = (c, [])" and inv: "om_inv ob"
  shows "ob = component_object c"
proof -
  have "map_of ob (Q ''grantedCapabilities'') = Some (strings_array (cm_grants c))"
    using r parse_strings_ok unfolding read_component_iff by blast
  then show ?thesis
    unfolding component_object_def by (intro object_eqI [OF inv]) (use r [unfolded read_component_iff] in auto)
qed

lemma read_component_again:
  assumes "read_component E path (component_object c) = (c, [])"
  shows "dormant_settings_errors E (path @ Q ''.settings'') s = [] \<Longrightarrow>
      read_component E path (component_object (c\<lparr>cm_settings := s\<rparr>)) = (c\<lparr>cm_settings := s\<rparr>, [])"
    and "dormant_settings_errors E (path @ Q ''.settings'') s \<noteq> [] \<Longrightarrow>
      snd (read_component E path (component_object (c\<lparr>cm_settings := s\<rparr>))) \<noteq> []"
proof -
  show "read_component E path (component_object (c\<lparr>cm_settings := s\<rparr>)) = (c\<lparr>cm_settings := s\<rparr>, [])"
    if "dormant_settings_errors E (path @ Q ''.settings'') s = []"
    using assms that unfolding read_component_iff by simp
  show "snd (read_component E path (component_object (c\<lparr>cm_settings := s\<rparr>))) \<noteq> []"
    if "dormant_settings_errors E (path @ Q ''.settings'') s \<noteq> []"
    using that by (simp add: read_component_def Let_def)
qed

text \<open>When the settings of a record are still accepted after it is written.\<close>

definition stable_settings :: "settings_schema \<Rightarrow> json qmap \<Rightarrow> bool" where
  "stable_settings sc m \<longleftrightarrow> list_all (\<lambda>e. stable_value (the (schema_find sc (fst e))) (snd e)) m"

definition component_storable :: "qt_env \<Rightarrow> config_catalog \<Rightarrow> qstring \<Rightarrow> configured_component \<Rightarrow> bool" where
  "component_storable E cat k c \<longleftrightarrow>
     dormant_settings_errors E (component_path k @ Q ''.settings'') (cm_settings c) = []
     \<and> (case map_of (cc_entries cat) k of
          None \<Rightarrow> True
        | Some e \<Rightarrow> cm_package_digest c = ck_package_digest e \<longrightarrow> stable_settings (ck_schema e) (cm_settings c))"

definition catalog_ok :: "config_catalog \<Rightarrow> bool" where
  "catalog_ok cat \<longleftrightarrow> list_all (\<lambda>(k, e). distinct (map sd_key (ss_settings (ck_schema e)))) (cc_entries cat)"

lemma catalog_schema: "catalog_ok cat \<Longrightarrow> map_of (cc_entries cat) k = Some e \<Longrightarrow> distinct (map sd_key (ss_settings (ck_schema e)))"
  by (drule map_of_SomeD) (auto simp: catalog_ok_def list_all_iff)

lemma normalized_stable:
  assumes "normal_idempotent E" "distinct (map sd_key (ss_settings sc))" "normalize_settings E sc scope settings True = vr_accept m"
  shows "stable_settings sc m \<Longrightarrow> normalize_settings E sc scope m True = vr_accept m"
    and "\<not> stable_settings sc m \<Longrightarrow> \<not> vr_ok (normalize_settings E sc scope m True)"
  using normalized_again [OF assms] by (simp_all add: stable_settings_def)

text \<open>The records of the parser: as written in the document, or for the installed package with its settings normalised.\<close>

lemma vr_ok_accept: "vr_ok r \<Longrightarrow> r = vr_accept (the (vr_value r))"
  by (cases r) (auto simp: vr_ok_def)

lemma normalize_settings_errors: "\<not> vr_ok (normalize_settings E sc scope s d) \<Longrightarrow> vr_errors (normalize_settings E sc scope s d) \<noteq> []"
  by (auto simp: normalize_settings_def Let_def split: prod.splits if_splits)

lemma grant_errors_settings [simp]: "grant_errors E e path (c\<lparr>cm_settings := s\<rparr>) = grant_errors E e path c"
  by (simp add: grant_errors_def)

lemma activate_component_ok:
  assumes "activate_component E e path c = (c1, [])"
  obtains m where "normalize_settings E (ck_schema e) ComponentScope (cm_settings c) True = vr_accept m"
    "c1 = c\<lparr>cm_settings := m\<rparr>" "grant_errors E e path c = []" "resolved_text_errors E e path m = []"
proof -
  let ?n = "normalize_settings E (ck_schema e) ComponentScope (cm_settings c) True"
  have ok: "vr_ok ?n" using assms normalize_settings_errors by (auto simp: activate_component_def Let_def split: if_splits)
  with assms have "c1 = c\<lparr>cm_settings := the (vr_value ?n)\<rparr>" "grant_errors E e path c = []"
    "resolved_text_errors E e path (the (vr_value ?n)) = []" by (auto simp: activate_component_def Let_def)
  with vr_ok_accept [OF ok] that show thesis by blast
qed

lemma activate_component_again:
  assumes "normal_idempotent E" "distinct (map sd_key (ss_settings (ck_schema e)))" and a: "activate_component E e path c = (c1, [])"
  shows "stable_settings (ck_schema e) (cm_settings c1) \<Longrightarrow> activate_component E e path c1 = (c1, [])"
    and "\<not> stable_settings (ck_schema e) (cm_settings c1) \<Longrightarrow> snd (activate_component E e path c1) \<noteq> []"
proof -
  obtain m where m: "normalize_settings E (ck_schema e) ComponentScope (cm_settings c) True = vr_accept m"
    "c1 = c\<lparr>cm_settings := m\<rparr>" "grant_errors E e path c = []" "resolved_text_errors E e path m = []"
    using activate_component_ok [OF a] .
  note again = normalized_stable [OF assms(1,2) m(1)]
  show "activate_component E e path c1 = (c1, [])" if "stable_settings (ck_schema e) (cm_settings c1)"
    using again(1) that m by (simp add: activate_component_def Let_def)
  show "snd (activate_component E e path c1) \<noteq> []" if "\<not> stable_settings (ck_schema e) (cm_settings c1)"
    using again(2) normalize_settings_errors that m by (simp add: activate_component_def Let_def)
qed

text \<open>What a member of \<open>components\<close> is parsed to, and what its record is parsed to.\<close>

definition active_component :: "config_catalog \<Rightarrow> qstring \<Rightarrow> configured_component \<Rightarrow> config_entry option" where
  "active_component cat k c = (case map_of (cc_entries cat) k of None \<Rightarrow> None
     | Some e \<Rightarrow> if cm_package_digest c = ck_package_digest e then Some e else None)"

lemma parse_component_ok:
  assumes p: "parse_component E cat k v = (Some c1, [])"
  obtains ob c where "v = JObj ob" "is_valid_component_id k" "read_component E (component_path k) ob = (c, [])"
    "case active_component cat k c of None \<Rightarrow> c1 = c | Some e \<Rightarrow> activate_component E e (component_path k) c = (c1, [])"
proof -
  obtain ob where v: "v = JObj ob" using p by (cases v) (auto simp: parse_component_def)
  obtain c es where r: "read_component E (component_path k) ob = (c, es)" by force
  show thesis
    using that [OF v, of c] p r
    by (auto simp: parse_component_def active_component_def v split: option.splits if_splits prod.splits)
qed

lemma parse_component_object:
  assumes "is_valid_component_id k" "read_component E (component_path k) (component_object c) = (c, [])"
  shows "parse_component E cat k (JObj (component_object c)) = (case active_component cat k c of
      None \<Rightarrow> (Some c, [])
    | Some e \<Rightarrow> (case activate_component E e (component_path k) c of (c1, added) \<Rightarrow> (Some c1, added)))"
  using assms by (simp add: parse_component_def active_component_def split: option.split)

lemma component_storable_iff:
  "component_storable E cat k c \<longleftrightarrow>
     dormant_settings_errors E (component_path k @ Q ''.settings'') (cm_settings c) = []
     \<and> (case active_component cat k c of None \<Rightarrow> True | Some e \<Rightarrow> stable_settings (ck_schema e) (cm_settings c))"
  by (simp add: component_storable_def active_component_def split: option.split)

lemma parse_component_again:
  assumes idem: "normal_idempotent E" and cat: "catalog_ok cat" and inv: "\<And>ob. v = JObj ob \<Longrightarrow> om_inv ob"
    and p: "parse_component E cat k v = (Some c1, [])"
  shows "component_storable E cat k c1 \<Longrightarrow> parse_component E cat k (JObj (component_object c1)) = (Some c1, [])"
    and "\<not> component_storable E cat k c1 \<Longrightarrow> snd (parse_component E cat k (JObj (component_object c1))) \<noteq> []"
proof -
  obtain ob c where v: "v = JObj ob" and k: "is_valid_component_id k"
    and r: "read_component E (component_path k) ob = (c, [])"
    and a: "case active_component cat k c of None \<Rightarrow> c1 = c | Some e \<Rightarrow> activate_component E e (component_path k) c = (c1, [])"
    using parse_component_ok [OF p] .
  have rc: "read_component E (component_path k) (component_object c) = (c, [])"
    using r read_component_ok [OF r inv [OF v]] by simp
  have "(component_storable E cat k c1 \<longrightarrow> parse_component E cat k (JObj (component_object c1)) = (Some c1, []))
    \<and> (\<not> component_storable E cat k c1 \<longrightarrow> snd (parse_component E cat k (JObj (component_object c1))) \<noteq> [])"
  proof (cases "active_component cat k c")
    case None
    with a rc have "component_storable E cat k c1" by (simp add: component_storable_iff read_component_iff)
    with None a show ?thesis by (simp add: parse_component_object [OF k rc])
  next
    case (Some e)
    with a have act: "activate_component E e (component_path k) c = (c1, [])" by simp
    obtain m where c1: "c1 = c\<lparr>cm_settings := m\<rparr>" using activate_component_ok [OF act] by blast
    have entry: "map_of (cc_entries cat) k = Some e" "cm_package_digest c = ck_package_digest e"
      using Some by (auto simp: active_component_def split: option.splits if_splits)
    then have same: "active_component cat k c1 = Some e" by (simp add: active_component_def c1)
    note e = catalog_schema [OF cat entry(1)]
    note again = activate_component_again [OF idem e act] and read = read_component_again [OF rc, of m, folded c1]
    show ?thesis
    proof (cases "dormant_settings_errors E (component_path k @ Q ''.settings'') m = []")
      case True
      have st: "component_storable E cat k c1 \<longleftrightarrow> stable_settings (ck_schema e) (cm_settings c1)"
        using True same c1 by (simp add: component_storable_iff)
      show ?thesis
        using again unfolding st parse_component_object [OF k read(1) [OF True]] same
        by (cases "activate_component E e (component_path k) c1") auto
    next
      case False
      then have "\<not> component_storable E cat k c1" by (simp add: component_storable_iff c1)
      moreover have "snd (parse_component E cat k (JObj (component_object c1))) \<noteq> []"
        using read(2) [OF False] k by (auto simp: parse_component_def split: option.split prod.split)
      ultimately show ?thesis by simp
    qed
  qed
  then show "component_storable E cat k c1 \<Longrightarrow> parse_component E cat k (JObj (component_object c1)) = (Some c1, [])"
    and "\<not> component_storable E cat k c1 \<Longrightarrow> snd (parse_component E cat k (JObj (component_object c1))) \<noteq> []" by blast+
qed

section \<open>Records of instances\<close>

lemma instance_object_lookup [simp]:
  "map_of (configured_instance_object i) (Q ''componentId'') = Some (JStr (ci_component_id i))"
  "map_of (configured_instance_object i) (Q ''enabled'') = Some (JBool (ci_enabled i))"
  "map_of (configured_instance_object i) (Q ''settings'') = Some (JObj (ci_settings i))"
  "config_unknown_fields (configured_instance_object i) [''componentId'', ''enabled'', ''settings''] p = []"
  by (simp_all add: configured_instance_object_def json_object_def config_unknown_fields_def)

lemma read_instance_iff:
  "read_instance E components path ob = (i, []) \<longleftrightarrow>
     config_unknown_fields ob [''componentId'', ''enabled'', ''settings''] path = []
     \<and> map_of ob (Q ''componentId'') = Some (JStr (ci_component_id i)) \<and> om_contains components (ci_component_id i)
     \<and> map_of ob (Q ''enabled'') = Some (JBool (ci_enabled i))
     \<and> map_of ob (Q ''settings'') = Some (JObj (ci_settings i))
     \<and> dormant_settings_errors E (path @ Q ''.settings'') (ci_settings i) = []"
  (is "_ \<longleftrightarrow> ?u = [] \<and> ?d = _ \<and> _ \<and> ?e = _ \<and> ?s = _ \<and> _")
proof (cases "is_string ?d \<and> is_bool ?e \<and> is_object ?s")
  case False
  then have "snd (read_instance E components path ob) \<noteq> []" by (auto simp: read_instance_def Let_def)
  with False show ?thesis by auto
next
  case True
  then obtain t b m where v: "?d = Some (JStr t)" "?e = Some (JBool b)" "?s = Some (JObj m)" by (auto simp: is_kind_iffs)
  have "read_instance E components path ob = (\<lparr>ci_component_id = (if om_contains components t then t else []), ci_enabled = b,
      ci_settings = m\<rparr>, ?u @ (if om_contains components t then [] else
          [mk_error (path @ Q ''.componentId'') ''component-config.unknown-component-reference''
            ''The instance must reference a desired component record.'']) @ dormant_settings_errors E (path @ Q ''.settings'') m)"
    by (simp add: read_instance_def Let_def v)
  then have "read_instance E components path ob = (i, []) \<longleftrightarrow> ?u = [] \<and> om_contains components t
      \<and> dormant_settings_errors E (path @ Q ''.settings'') m = []
      \<and> i = \<lparr>ci_component_id = t, ci_enabled = b, ci_settings = m\<rparr>"
    by (simp only: prod.inject append_is_Nil_conv errors_unless) (metis (full_types))
  then show ?thesis unfolding v by (cases i) auto
qed

lemma read_instance_ok:
  assumes r: "read_instance E components path ob = (i, [])" and inv: "om_inv ob"
  shows "ob = configured_instance_object i"
  unfolding configured_instance_object_def by (rule object_eqI [OF inv]) (use r [unfolded read_instance_iff] in auto)

lemma read_instance_again:
  assumes "read_instance E components path (configured_instance_object i) = (i, [])"
  shows "dormant_settings_errors E (path @ Q ''.settings'') s = [] \<Longrightarrow>
      read_instance E components path (configured_instance_object (i\<lparr>ci_settings := s\<rparr>)) = (i\<lparr>ci_settings := s\<rparr>, [])"
    and "dormant_settings_errors E (path @ Q ''.settings'') s \<noteq> [] \<Longrightarrow>
      snd (read_instance E components path (configured_instance_object (i\<lparr>ci_settings := s\<rparr>))) \<noteq> []"
proof -
  show "read_instance E components path (configured_instance_object (i\<lparr>ci_settings := s\<rparr>)) = (i\<lparr>ci_settings := s\<rparr>, [])"
    if "dormant_settings_errors E (path @ Q ''.settings'') s = []"
    using assms that unfolding read_instance_iff by simp
  show "snd (read_instance E components path (configured_instance_object (i\<lparr>ci_settings := s\<rparr>))) \<noteq> []"
    if "dormant_settings_errors E (path @ Q ''.settings'') s \<noteq> []"
    using that by (simp add: read_instance_def Let_def)
qed

end
