(* ===== verification/Configuration_Layouts.thy ===== *)
theory Configuration_Layouts
  imports Configuration_Facts
begin

text \<open>
  The instances and the bar layouts of an accepted configuration: layouts are read as they are
  written, and the placements of the layouts are the instances, each of them once.
\<close>

section \<open>Instances\<close>

definition stable_instance :: "qt_env \<Rightarrow> config_entry \<Rightarrow> configured_instance \<Rightarrow> bool" where
  "stable_instance E e i \<longleftrightarrow> is_supported_user_declarative E e \<or> stable_settings (ck_schema e) (ci_settings i)"

lemma activate_instance_again:
  assumes "normal_idempotent E" "distinct (map sd_key (ss_settings (ck_schema e)))" and a: "activate_instance E e path i = (i1, [])"
  shows "\<exists>m. i1 = i\<lparr>ci_settings := m\<rparr>"
    and "stable_instance E e i1 \<Longrightarrow> activate_instance E e path i1 = (i1, [])"
    and "\<not> stable_instance E e i1 \<Longrightarrow> snd (activate_instance E e path i1) \<noteq> []"
proof -
  let ?n = "normalize_settings E (ck_schema e) InstanceScope (ci_settings i) True"
  have "(\<exists>m. i1 = i\<lparr>ci_settings := m\<rparr>) \<and> (stable_instance E e i1 \<longrightarrow> activate_instance E e path i1 = (i1, []))
    \<and> (\<not> stable_instance E e i1 \<longrightarrow> snd (activate_instance E e path i1) \<noteq> [])"
  proof (cases "is_supported_user_declarative E e")
    case True
    with a have "i1 = i" by (auto simp: activate_instance_def Let_def split: if_splits)
    moreover have "i = i\<lparr>ci_settings := ci_settings i\<rparr>" by simp
    ultimately show ?thesis using True a by (metis stable_instance_def)
  next
    case False
    have ok: "vr_ok ?n" using a False normalize_settings_errors by (auto simp: activate_instance_def Let_def split: if_splits)
    define m where "m = the (vr_value ?n)"
    have n: "?n = vr_accept m" using vr_ok_accept [OF ok] by (simp add: m_def)
    have i1: "i1 = i\<lparr>ci_settings := m\<rparr>" "ck_type e = BarWidget"
      using a False n by (auto simp: activate_instance_def Let_def split: if_splits)
    note again = normalized_stable [OF assms(1,2) n]
    have "stable_instance E e i1 \<longleftrightarrow> stable_settings (ck_schema e) m" using False i1 by (simp add: stable_instance_def)
    then show ?thesis
      using again normalize_settings_errors [of E "ck_schema e" InstanceScope m True] i1 False
      by (auto simp: activate_instance_def Let_def)
  qed
  then show "\<exists>m. i1 = i\<lparr>ci_settings := m\<rparr>"
    and "stable_instance E e i1 \<Longrightarrow> activate_instance E e path i1 = (i1, [])"
    and "\<not> stable_instance E e i1 \<Longrightarrow> snd (activate_instance E e path i1) \<noteq> []" by blast+
qed

definition instance_storable ::
  "qt_env \<Rightarrow> config_catalog \<Rightarrow> configured_component qmap \<Rightarrow> qstring \<Rightarrow> configured_instance \<Rightarrow> bool" where
  "instance_storable E cat components k i \<longleftrightarrow>
     dormant_settings_errors E (instance_path k @ Q ''.settings'') (ci_settings i) = []
     \<and> (case active_entry cat components (ci_component_id i) of None \<Rightarrow> True | Some e \<Rightarrow> stable_instance E e i)"

lemma parse_instance_record_valid:
  assumes p: "parse_instance_record E cat components k v = (Some i1, [])"
  obtains ob i where "v = JObj ob" "is_lowercase_uuid_v4 k" "read_instance E components (instance_path k) ob = (i, [])"
    "case active_entry cat components (ci_component_id i) of None \<Rightarrow> i1 = i
     | Some e \<Rightarrow> activate_instance E e (instance_path k) i = (i1, [])"
proof -
  obtain ob where v: "v = JObj ob" using p by (cases v) (auto simp: parse_instance_record_def)
  obtain i es where r: "read_instance E components (instance_path k) ob = (i, es)" by force
  show thesis
    using that [OF v, of i] p r by (auto simp: parse_instance_record_def v split: option.splits if_splits prod.splits)
qed

lemma parse_instance_record_object:
  assumes "is_lowercase_uuid_v4 k" "read_instance E components (instance_path k) (configured_instance_object i) = (i, [])"
  shows "parse_instance_record E cat components k (JObj (configured_instance_object i)) =
    (case active_entry cat components (ci_component_id i) of
      None \<Rightarrow> (Some i, [])
    | Some e \<Rightarrow> (case activate_instance E e (instance_path k) i of (i1, added) \<Rightarrow> (Some i1, added)))"
  using assms by (simp add: parse_instance_record_def split: option.split)

lemma active_entry_catalog: "active_entry cat components k = Some e \<Longrightarrow> map_of (cc_entries cat) k = Some e"
  by (auto simp: active_entry_def split: option.splits if_splits)

lemma parse_instance_again:
  assumes idem: "normal_idempotent E" and cat: "catalog_ok cat" and inv: "\<And>ob. v = JObj ob \<Longrightarrow> om_inv ob"
    and p: "parse_instance_record E cat components k v = (Some i1, [])"
  shows "om_contains components (ci_component_id i1)"
    and "instance_storable E cat components k i1 \<Longrightarrow>
      parse_instance_record E cat components k (JObj (configured_instance_object i1)) = (Some i1, [])"
    and "\<not> instance_storable E cat components k i1 \<Longrightarrow>
      snd (parse_instance_record E cat components k (JObj (configured_instance_object i1))) \<noteq> []"
proof -
  let ?p = "parse_instance_record E cat components k (JObj (configured_instance_object i1))"
  let ?st = "instance_storable E cat components k i1"
  obtain ob i where v: "v = JObj ob" and k: "is_lowercase_uuid_v4 k"
    and r: "read_instance E components (instance_path k) ob = (i, [])"
    and a: "case active_entry cat components (ci_component_id i) of None \<Rightarrow> i1 = i
      | Some e \<Rightarrow> activate_instance E e (instance_path k) i = (i1, [])"
    using parse_instance_record_valid [OF p] .
  have known: "om_contains components (ci_component_id i)" using r by (simp add: read_instance_iff)
  have ri: "read_instance E components (instance_path k) (configured_instance_object i) = (i, [])"
    using r read_instance_ok [OF r inv [OF v]] by simp
  have "om_contains components (ci_component_id i1) \<and> (?st \<longrightarrow> ?p = (Some i1, [])) \<and> (\<not> ?st \<longrightarrow> snd ?p \<noteq> [])"
  proof (cases "active_entry cat components (ci_component_id i)")
    case None
    with a ri have ?st by (simp add: instance_storable_def read_instance_iff)
    with None a known show ?thesis by (simp add: parse_instance_record_object [OF k ri])
  next
    case (Some e)
    with a have act: "activate_instance E e (instance_path k) i = (i1, [])" by simp
    note e = catalog_schema [OF cat active_entry_catalog [OF Some]]
    note again = activate_instance_again [OF idem e act]
    obtain m where i1: "i1 = i\<lparr>ci_settings := m\<rparr>" using again(1) by blast
    have same: "active_entry cat components (ci_component_id i1) = Some e" using Some i1 by simp
    note read = read_instance_again [OF ri, of m, folded i1]
    show ?thesis
    proof (cases "dormant_settings_errors E (instance_path k @ Q ''.settings'') m = []")
      case True
      have st: "?st \<longleftrightarrow> stable_instance E e i1" using True same i1 by (simp add: instance_storable_def)
      have known1: "om_contains components (ci_component_id i1)" using known i1 by simp
      show ?thesis
        using again(2,3) known1 unfolding st parse_instance_record_object [OF k read(1) [OF True]] same
        by (cases "activate_instance E e (instance_path k) i1") auto
    next
      case False
      then have "\<not> ?st" by (simp add: instance_storable_def i1)
      moreover have "snd ?p \<noteq> []"
        using read(2) [OF False] k by (auto simp: parse_instance_record_def split: option.split prod.split)
      ultimately show ?thesis using known i1 by simp
    qed
  qed
  then show "om_contains components (ci_component_id i1)"
    and "?st \<Longrightarrow> ?p = (Some i1, [])" and "\<not> ?st \<Longrightarrow> snd ?p \<noteq> []" by blast+
qed

section \<open>Bar layouts\<close>

lemma outputs_object_fields:
  "outputs_object s = json_object ((''mode'', JStr (os_mode s))
     # (if os_mode s = Q ''named'' then [(''names'', strings_array (os_names s))] else []))"
  by (simp add: outputs_object_def json_object_def)

lemma parse_output_names_ok: "parse_output_names E path v = (names, []) \<Longrightarrow> v = Some (strings_array names)"
  by (cases rule: parse_strings_cases [of v "path @ Q ''.outputs.names''" 32 True])
    (auto simp: parse_output_names_def Let_def split: if_splits)

lemma parse_outputs_ok:
  assumes p: "parse_outputs E path v = (s, [])" and inv: "\<And>ob. v = Some (JObj ob) \<Longrightarrow> om_inv ob"
  shows "v = Some (JObj (outputs_object s))"
proof -
  obtain ob where v: "v = Some (JObj ob)" using p by (auto simp: parse_outputs_def is_object_iff split: if_splits)
  obtain t where t: "map_of ob (Q ''mode'') = Some (JStr t)" "t = Q ''all'' \<or> t = Q ''named''"
    using p by (auto simp: parse_outputs_def v Let_def is_string_iff split: if_splits prod.splits)
  show ?thesis
  proof (cases "t = Q ''all''")
    case True
    then have "s = \<lparr>os_mode = t, os_names = []\<rparr>" "config_unknown_fields ob [''mode''] (path @ Q ''.outputs'') = []"
      using p t by (auto simp: parse_outputs_def v)
    then show ?thesis
      using object_eqI [OF inv [OF v], of "[(''mode'', JStr t)]" "path @ Q ''.outputs''"] t True
      by (simp add: v outputs_object_fields)
  next
    case False
    obtain names es where n: "parse_output_names E path (map_of ob (Q ''names'')) = (names, es)" by force
    have s: "s = \<lparr>os_mode = t, os_names = names\<rparr>" "es = []"
      "config_unknown_fields ob [''mode'', ''names''] (path @ Q ''.outputs'') = []"
      using p t False n by (auto simp: parse_outputs_def v)
    have "map_of ob (Q ''names'') = Some (strings_array names)" using parse_output_names_ok n s(2) by blast
    then show ?thesis
      using object_eqI [OF inv [OF v], of "[(''mode'', JStr t), (''names'', strings_array names)]" "path @ Q ''.outputs''"] t False s
      by (simp add: v outputs_object_fields) blast
  qed
qed

lemma region_cases:
  assumes "(if vr_ok (parse_strings v p n b) then [] else vr_errors (parse_strings v p n b)) = []"
  shows "v = Some (strings_array (if vr_ok (parse_strings v p n b) then the (vr_value (parse_strings v p n b)) else []))"
  using assms by (cases rule: parse_strings_cases [of v p n b]) auto

lemma parse_bar_regions_ok:
  assumes p: "parse_bar_regions path v = ((a, b, c), [])" and inv: "\<And>ob. v = Some (JObj ob) \<Longrightarrow> om_inv ob"
  shows "v = Some (JObj (json_object [(''start'', strings_array a), (''center'', strings_array b), (''end'', strings_array c)]))"
proof -
  obtain ob where v: "v = Some (JObj ob)" using p by (auto simp: parse_bar_regions_def is_object_iff split: if_splits)
  let ?r = "\<lambda>name. parse_strings (map_of ob (Q name)) (path @ Q ''.regions.'' @ Q name) maximum_region_instances False"
  let ?ids = "\<lambda>name. if vr_ok (?r name) then the (vr_value (?r name)) else []"
  have "parse_bar_regions path v = ((?ids ''start'', ?ids ''center'', ?ids ''end''),
    config_unknown_fields ob [''start'', ''center'', ''end''] (path @ Q ''.regions'')
    @ (if vr_ok (?r ''start'') then [] else vr_errors (?r ''start''))
    @ (if vr_ok (?r ''center'') then [] else vr_errors (?r ''center''))
    @ (if vr_ok (?r ''end'') then [] else vr_errors (?r ''end'')))"
    unfolding parse_bar_regions_def v Let_def is_object.simps to_object.simps by (simp only: simp_thms if_False)
  from trans [OF p [symmetric] this]
  have ids: "a = ?ids ''start''" "b = ?ids ''center''" "c = ?ids ''end''"
    and u: "config_unknown_fields ob [''start'', ''center'', ''end''] (path @ Q ''.regions'') = []"
    and es: "(if vr_ok (?r ''start'') then [] else vr_errors (?r ''start'')) = []"
      "(if vr_ok (?r ''center'') then [] else vr_errors (?r ''center'')) = []"
      "(if vr_ok (?r ''end'') then [] else vr_errors (?r ''end'')) = []"
    unfolding prod.inject append_is_Nil_conv eq_commute [of "[]"] by blast+
  have "map_of ob (Q ''start'') = Some (strings_array a)" "map_of ob (Q ''center'') = Some (strings_array b)"
    "map_of ob (Q ''end'') = Some (strings_array c)"
    unfolding ids by (rule region_cases [OF es(1)], rule region_cases [OF es(2)], rule region_cases [OF es(3)])
  with u have "ob = json_object [(''start'', strings_array a), (''center'', strings_array b), (''end'', strings_array c)]"
    by (intro object_eqI [OF inv [OF v]]) auto
  then show ?thesis by (simp add: v)
qed

lemma parse_bar_ok:
  assumes p: "parse_bar E k v = (Some l, [])" and ok: "json_ok d v"
  shows "v = JObj (bar_object l)"
proof -
  let ?path = "Q ''$.layouts.bars.'' @ k"
  obtain ob where v: "v = JObj ob" using p by (cases v) (auto simp: parse_bar_def Let_def)
  have inv: "om_inv ob" using ok by (simp add: v)
  have nested: "om_inv m" if "map_of ob x = Some (JObj m)" for x m
    using map_of_SomeD [OF that] ok by (auto simp: v list_all_iff)
  obtain s e1 where o: "parse_outputs E ?path (map_of ob (Q ''outputs'')) = (s, e1)" by force
  obtain abc e2 where r0: "parse_bar_regions ?path (map_of ob (Q ''regions'')) = (abc, e2)" by (rule prod.exhaust)
  obtain a b c where "abc = (a, b, c)" by (cases abc)
  with r0 have r: "parse_bar_regions ?path (map_of ob (Q ''regions'')) = ((a, b, c), e2)" by simp
  have l: "l = \<lparr>by_outputs = s, by_start = a, by_center = b, by_end = c\<rparr>" "e1 = []" "e2 = []"
    "config_unknown_fields ob [''outputs'', ''regions''] ?path = []"
    using p by (simp_all add: parse_bar_def v Let_def o r split: if_splits)
  have "map_of ob (Q ''outputs'') = Some (JObj (outputs_object s))"
    using parse_outputs_ok [OF o [unfolded l(2)]] nested by blast
  moreover have "map_of ob (Q ''regions'') = Some (JObj (json_object [(''start'', strings_array a), (''center'', strings_array b), (''end'', strings_array c)]))"
    using parse_bar_regions_ok [OF r [unfolded l(3)]] nested by blast
  ultimately have "ob = json_object [(''outputs'', JObj (outputs_object s)),
      (''regions'', JObj (json_object [(''start'', strings_array a), (''center'', strings_array b), (''end'', strings_array c)]))]"
    using l(4) by (intro object_eqI [OF inv]) auto
  then show ?thesis by (simp add: v bar_object_def l(1))
qed

section \<open>Placements\<close>

lemma placement_errors_ok:
  "placement_errors E cat cfg k region i xs placed = ([], final) \<Longrightarrow>
     final = rev xs @ placed \<and> distinct xs \<and> set xs \<inter> set placed = {}
     \<and> list_all (\<lambda>x. is_lowercase_uuid_v4 x \<and> om_contains (cg_instances cfg) x) xs"
proof (induction xs arbitrary: i placed)
  case (Cons x xs)
  obtain es where rest: "placement_errors E cat cfg k region (Suc i) xs (x # placed) = (es, final)"
    using Cons.prems by (auto simp: Let_def split: prod.splits)
  with Cons.prems have "es = []" "is_lowercase_uuid_v4 x" "om_contains (cg_instances cfg) x" "x \<notin> set placed"
    by (auto simp: Let_def split: if_splits)
  with Cons.IH [of "Suc i" "x # placed"] rest show ?case by auto
qed simp

text \<open>The instances that the layouts place, in the order of the layouts.\<close>

definition bar_placements :: "bar_layout qmap \<Rightarrow> qstring list" where
  "bar_placements m = concat (map (\<lambda>(k, l). by_start l @ by_center l @ by_end l) m)"

lemma layouts_errors_ok:
  "layouts_errors E cat cfg m placed = ([], final) \<Longrightarrow>
     set final = set (bar_placements m) \<union> set placed \<and> distinct (bar_placements m)
     \<and> set (bar_placements m) \<inter> set placed = {} \<and> list_all (om_contains (cg_instances cfg)) (bar_placements m)"
proof (induction m arbitrary: placed)
  case (Cons e m)
  obtain k l where e: "e = (k, l)" by force
  obtain e1 p1 where 1: "placement_errors E cat cfg k ''start'' 0 (by_start l) placed = (e1, p1)" by force
  obtain e2 p2 where 2: "placement_errors E cat cfg k ''center'' 0 (by_center l) p1 = (e2, p2)" by force
  obtain e3 p3 where 3: "placement_errors E cat cfg k ''end'' 0 (by_end l) p2 = (e3, p3)" by force
  obtain e4 p4 where 4: "layouts_errors E cat cfg m p3 = (e4, p4)" by force
  have nil: "e1 = []" "e2 = []" "e3 = []" "e4 = []" "p4 = final" using Cons.prems e 1 2 3 4 by auto
  note parts = placement_errors_ok [OF 1 [unfolded nil]] placement_errors_ok [OF 2 [unfolded nil]]
    placement_errors_ok [OF 3 [unfolded nil]]
  define here where "here = by_start l @ by_center l @ by_end l"
  have p3: "set p3 = set here \<union> set placed" using parts by (auto simp: here_def)
  have d: "distinct here" "set here \<inter> set placed = {}" "list_all (om_contains (cg_instances cfg)) here"
    using parts by (simp_all add: here_def list_all_iff) blast+
  have all: "bar_placements (e # m) = here @ bar_placements m" by (simp add: bar_placements_def e here_def)
  note rest = Cons.IH [OF 4 [unfolded nil], unfolded p3]
  show ?case
  proof (intro conjI)
    show "set final = set (bar_placements (e # m)) \<union> set placed" using rest by (simp add: all Un_ac)
    show "distinct (bar_placements (e # m))" using rest d by (auto simp: all)
    show "set (bar_placements (e # m)) \<inter> set placed = {}" using rest d by (auto simp: all)
    show "list_all (om_contains (cg_instances cfg)) (bar_placements (e # m))" using rest d by (simp add: all)
  qed
qed (simp add: bar_placements_def)

lemma unplaced_errors_iff: "unplaced_errors m placed = [] \<longleftrightarrow> fst ` set m \<subseteq> set placed"
  by (auto simp: unplaced_errors_def filter_empty_conv)

end
