(* ===== verification/Configuration_Documents.thy ===== *)
theory Configuration_Documents
  imports Configuration_Layouts
begin

text \<open>
  Whole configuration documents: what the parser accepts, the invariant of the configuration it
  returns, and when the document that the configuration is serialised to is accepted again.
\<close>

section \<open>Accepted documents\<close>

lemma parse_configuration_root_iff:
  "parse_configuration_root E cat ob = vr_accept cfg \<longleftrightarrow>
     config_unknown_fields ob [''formatVersion'', ''revision'', ''components'', ''instances'', ''layouts''] (Q ''$'') = []
     \<and> version_errors (map_of ob (Q ''formatVersion'')) = []
     \<and> parse_config_revision (map_of ob (Q ''revision'')) = Some (cg_revision cfg)
     \<and> parse_components E cat (map_of ob (Q ''components'')) = (cg_components cfg, [])
     \<and> parse_instance_records E cat (cg_components cfg) (map_of ob (Q ''instances'')) = (cg_instances cfg, [])
     \<and> parse_bar_layouts E (map_of ob (Q ''layouts'')) = (cg_bars cfg, [])
     \<and> (\<exists>placed. layouts_errors E cat cfg (cg_bars cfg) [] = ([], placed) \<and> unplaced_errors (cg_instances cfg) placed = [])"
  (is "?lhs \<longleftrightarrow> ?rhs")
proof -
  obtain cs e1 where c: "parse_components E cat (map_of ob (Q ''components'')) = (cs, e1)" by force
  obtain ins e2 where i: "parse_instance_records E cat cs (map_of ob (Q ''instances'')) = (ins, e2)" by force
  obtain bars e3 where b: "parse_bar_layouts E (map_of ob (Q ''layouts'')) = (bars, e3)" by force
  let ?rev = "parse_config_revision (map_of ob (Q ''revision''))"
  let ?cfg = "\<lparr>cg_revision = (case ?rev of None \<Rightarrow> 0 | Some n \<Rightarrow> n), cg_components = cs, cg_instances = ins, cg_bars = bars\<rparr>"
  obtain e4 placed where l: "layouts_errors E cat ?cfg bars [] = (e4, placed)" by force
  let ?all = "config_unknown_fields ob [''formatVersion'', ''revision'', ''components'', ''instances'', ''layouts''] (Q ''$'')
    @ version_errors (map_of ob (Q ''formatVersion'')) @ (if ?rev = None then
            [mk_error (Q ''$.revision'') ''component-config.invalid-revision''
              ''revision must be a canonical unsigned decimal string.''] else [])
    @ e1 @ e2 @ e3 @ e4 @ unplaced_errors ins placed"
  have root: "parse_configuration_root E cat ob = (if ?all = [] then vr_accept ?cfg else vr_reject ?all)"
    unfolding parse_configuration_root_def Let_def c prod.case i b l ..
  show ?thesis
  proof (cases ?rev)
    case None
    then show ?thesis using root by auto
  next
    case (Some n)
    then have cfg: "?cfg = \<lparr>cg_revision = n, cg_components = cs, cg_instances = ins, cg_bars = bars\<rparr>" by simp
    have lhs: "?lhs \<longleftrightarrow> ?all = [] \<and> ?cfg = cfg" using root by auto
    show ?thesis
    proof
      assume ?lhs
      then have a: "?all = []" and d: "cfg = ?cfg" using lhs by auto
      then show ?rhs using c i b l Some unfolding d append_is_Nil_conv by (simp add: cfg)
    next
      assume r: ?rhs
      then have d: "cfg = ?cfg" using c i b Some by (cases cfg) auto
      have "?all = []" using r l c i b Some unfolding d append_is_Nil_conv by (simp add: cfg)
      then show ?lhs using lhs d by blast
    qed
  qed
qed

lemma parse_configuration_root_rejects:
  "\<not> vr_ok (parse_configuration_root E cat ob) \<longleftrightarrow> (\<forall>cfg. parse_configuration_root E cat ob \<noteq> vr_accept cfg)"
  by (auto simp: parse_configuration_root_def Let_def split: prod.splits)

lemma version_errors_iff: "version_errors v = [] \<longleftrightarrow> v = Some (JNum 1)"
  by (cases v rule: is_double.cases) (auto simp: version_errors_def)

lemma parse_config_revision_iff: "parse_config_revision v = Some n \<longleftrightarrow> v = Some (JStr (qnumber (unat n)))"
  by (cases v rule: is_string.cases) (auto simp: parse_config_revision_def parse_revision_iff)

lemma parse_components_ok:
  assumes p: "parse_components E cat v = (cs, [])"
  obtains m where "v = Some (JObj m)" "length m \<le> maximum_components" "parse_members (parse_component E cat) m [] = (cs, [])"
  using p that by (auto simp: parse_components_def is_object_iff not_less split: if_splits)

lemma parse_instance_records_ok:
  assumes p: "parse_instance_records E cat cs v = (ins, [])"
  obtains m where "v = Some (JObj m)" "length m \<le> maximum_instances"
    "parse_members (parse_instance_record E cat cs) m [] = (ins, [])"
  using p that by (auto simp: parse_instance_records_def is_object_iff not_less split: if_splits)

lemma parse_bar_layouts_ok:
  assumes p: "parse_bar_layouts E v = (bars, [])"
  obtains ob m where "v = Some (JObj ob)" "config_unknown_fields ob [''bars'', ''desktops''] (Q ''$.layouts'') = []"
    "map_of ob (Q ''desktops'') = Some (JObj [])" "map_of ob (Q ''bars'') = Some (JObj m)"
    "length m \<le> maximum_bar_layouts" "parse_members (parse_bar E) m [] = (bars, [])"
proof -
  obtain ob where v: "v = Some (JObj ob)" using p by (auto simp: parse_bar_layouts_def is_object_iff split: if_splits)
  note q = p [unfolded parse_bar_layouts_def v Let_def is_object.simps to_object.simps]
  have o: "is_object (map_of ob (Q ''bars''))" "length (to_object (map_of ob (Q ''bars''))) \<le> maximum_bar_layouts"
    using q by (auto split: if_splits)
  have d: "is_object (map_of ob (Q ''desktops''))" "to_object (map_of ob (Q ''desktops'')) = []"
    using q by (auto split: if_splits prod.splits)
  from o d obtain m where m: "map_of ob (Q ''bars'') = Some (JObj m)" "map_of ob (Q ''desktops'') = Some (JObj [])"
    by (auto simp: is_object_iff)
  obtain bs es where pm: "parse_members (parse_bar E) m [] = (bs, es)" by force
  then show thesis using that [OF v _ m(2,1)] q o m by (auto split: if_splits)
qed

text \<open>A function that inserts nothing reports why.\<close>

lemma parse_component_decided: "parse_component E cat k v \<noteq> (None, [])"
  by (auto simp: parse_component_def split: option.splits prod.splits)

lemma parse_instance_decided: "parse_instance_record E cat cs k v \<noteq> (None, [])"
  by (auto simp: parse_instance_record_def split: option.splits prod.splits)

lemma parse_bar_decided: "parse_bar E k v \<noteq> (None, [])"
  by (auto simp: parse_bar_def Let_def split: prod.splits)

lemma parse_members_errors: "snd (parse_members f m acc) = [] \<longleftrightarrow> (\<forall>(k, v) \<in> set m. snd (f k v) = [])"
proof (induction m arbitrary: acc)
  case (Cons e m)
  obtain k v where e: "e = (k, v)" by force
  show ?case by (simp add: e split_beta Cons.IH)
qed simp

section \<open>The configuration that is written\<close>

definition configuration_storable :: "qt_env \<Rightarrow> config_catalog \<Rightarrow> component_configuration \<Rightarrow> bool" where
  "configuration_storable E cat cfg \<longleftrightarrow>
     list_all (\<lambda>(k, c). component_storable E cat k c) (cg_components cfg)
     \<and> list_all (\<lambda>(k, i). instance_storable E cat (cg_components cfg) k i) (cg_instances cfg)"

text \<open>What the parser establishes of a document whose nested objects have distinct keys.\<close>

lemma accepted_parts:
  assumes a: "parse_configuration_root E cat ob = vr_accept cfg" and ok: "json_ok d (JObj ob)"
  obtains mc mi mb lob where
    "parse_components E cat (Some (JObj mc)) = (cg_components cfg, [])"
    "parse_instance_records E cat (cg_components cfg) (Some (JObj mi)) = (cg_instances cfg, [])"
    "map_of ob (Q ''components'') = Some (JObj mc)" "map_of ob (Q ''instances'') = Some (JObj mi)"
    "parse_bar_layouts E (Some (JObj lob)) = (cg_bars cfg, [])" "map_of lob (Q ''bars'') = Some (JObj mb)"
    "json_ok (d - 1) (JObj mc)" "json_ok (d - 1) (JObj mi)" "json_ok (d - 2) (JObj mb)"
    "length mc \<le> maximum_components" "length mi \<le> maximum_instances" "length mb \<le> maximum_bar_layouts"
    "parse_members (parse_component E cat) mc [] = (cg_components cfg, [])"
    "parse_members (parse_instance_record E cat (cg_components cfg)) mi [] = (cg_instances cfg, [])"
    "parse_members (parse_bar E) mb [] = (cg_bars cfg, [])"
proof -
  have nested: "json_ok (n - 1) v" if "json_ok n (JObj m)" "map_of m k = Some v" for n m k v
    using that map_of_SomeD [OF that(2)] by (auto simp: list_all_iff)
  note p = a [unfolded parse_configuration_root_iff]
  have pc: "parse_components E cat (map_of ob (Q ''components'')) = (cg_components cfg, [])"
    and pi: "parse_instance_records E cat (cg_components cfg) (map_of ob (Q ''instances'')) = (cg_instances cfg, [])"
    and pb: "parse_bar_layouts E (map_of ob (Q ''layouts'')) = (cg_bars cfg, [])" using p by blast+
  obtain mc where mc: "map_of ob (Q ''components'') = Some (JObj mc)" "length mc \<le> maximum_components"
    "parse_members (parse_component E cat) mc [] = (cg_components cfg, [])" using parse_components_ok [OF pc] .
  obtain mi where mi: "map_of ob (Q ''instances'') = Some (JObj mi)" "length mi \<le> maximum_instances"
    "parse_members (parse_instance_record E cat (cg_components cfg)) mi [] = (cg_instances cfg, [])"
    using parse_instance_records_ok [OF pi] .
  obtain lob mb where lob: "map_of ob (Q ''layouts'') = Some (JObj lob)" and mb: "map_of lob (Q ''bars'') = Some (JObj mb)"
    "length mb \<le> maximum_bar_layouts" "parse_members (parse_bar E) mb [] = (cg_bars cfg, [])"
    using parse_bar_layouts_ok [OF pb] by metis
  have "json_ok (d - 2) (JObj mb)" using nested [OF nested [OF ok lob] mb(1)] by (simp add: algebra_simps)
  then show thesis
    using that pc pi pb mc mi lob mb nested [OF ok mc(1)] nested [OF ok mi(1)] by (simp only: mc(1) mi(1) lob)
qed

lemma members_inv: "json_ok d (JObj m) \<Longrightarrow> om_inv m \<and> ((k, JObj ob) \<in> set m \<longrightarrow> om_inv ob)"
  by (auto simp: list_all_iff)

text \<open>The records of an accepted configuration, and what their own documents are parsed to.\<close>

lemma accepted_components:
  assumes idem: "normal_idempotent E" and cat: "catalog_ok cat"
    and p: "parse_members (parse_component E cat) m [] = (cs, [])" and ok: "json_ok d (JObj m)"
  shows "om_inv cs" "om_keys cs = om_keys m"
    and "\<And>k c. (k, c) \<in> set cs \<Longrightarrow> component_storable E cat k c \<Longrightarrow>
      parse_component E cat k (JObj (component_object c)) = (Some c, [])"
    and "\<And>k c. (k, c) \<in> set cs \<Longrightarrow> \<not> component_storable E cat k c \<Longrightarrow>
      snd (parse_component E cat k (JObj (component_object c))) \<noteq> []"
proof -
  have inv: "om_inv m" using members_inv [OF ok] by blast
  have f: "\<forall>(k, v) \<in> set m. parse_component E cat k v \<noteq> (None, [])" using parse_component_decided by blast
  note parts = parse_members_ok [OF f p inv]
  show "om_inv cs" "om_keys cs = om_keys m" using parts(1,2) .
  fix k c assume "(k, c) \<in> set cs"
  then obtain v where v: "(k, v) \<in> set m" "parse_component E cat k v = (Some c, [])" using parts(3) by blast
  have vi: "om_inv ob" if "v = JObj ob" for ob using members_inv [OF ok] v(1) that by blast
  show "component_storable E cat k c \<Longrightarrow> parse_component E cat k (JObj (component_object c)) = (Some c, [])"
    and "\<not> component_storable E cat k c \<Longrightarrow> snd (parse_component E cat k (JObj (component_object c))) \<noteq> []"
    using parse_component_again [OF idem cat vi v(2)] by blast+
qed

lemma accepted_instances:
  assumes idem: "normal_idempotent E" and cat: "catalog_ok cat"
    and p: "parse_members (parse_instance_record E cat cs) m [] = (ins, [])" and ok: "json_ok d (JObj m)"
  shows "om_inv ins" "om_keys ins = om_keys m"
    and "\<And>k i. (k, i) \<in> set ins \<Longrightarrow> om_contains cs (ci_component_id i)"
    and "\<And>k i. (k, i) \<in> set ins \<Longrightarrow> instance_storable E cat cs k i \<Longrightarrow>
      parse_instance_record E cat cs k (JObj (configured_instance_object i)) = (Some i, [])"
    and "\<And>k i. (k, i) \<in> set ins \<Longrightarrow> \<not> instance_storable E cat cs k i \<Longrightarrow>
      snd (parse_instance_record E cat cs k (JObj (configured_instance_object i))) \<noteq> []"
proof -
  have inv: "om_inv m" using members_inv [OF ok] by blast
  have f: "\<forall>(k, v) \<in> set m. parse_instance_record E cat cs k v \<noteq> (None, [])" using parse_instance_decided by blast
  note parts = parse_members_ok [OF f p inv]
  show "om_inv ins" "om_keys ins = om_keys m" using parts(1,2) .
  fix k i assume "(k, i) \<in> set ins"
  then obtain v where v: "(k, v) \<in> set m" "parse_instance_record E cat cs k v = (Some i, [])" using parts(3) by blast
  have vi: "om_inv ob" if "v = JObj ob" for ob using members_inv [OF ok] v(1) that by blast
  show "om_contains cs (ci_component_id i)"
    and "instance_storable E cat cs k i \<Longrightarrow> parse_instance_record E cat cs k (JObj (configured_instance_object i)) = (Some i, [])"
    and "\<not> instance_storable E cat cs k i \<Longrightarrow> snd (parse_instance_record E cat cs k (JObj (configured_instance_object i))) \<noteq> []"
    using parse_instance_again [OF idem cat vi v(2)] by blast+
qed

lemma accepted_bars:
  assumes p: "parse_members (parse_bar E) m [] = (bars, [])" and ok: "json_ok d (JObj m)"
  shows "om_inv bars" "om_keys bars = om_keys m" "m = map (\<lambda>(k, l). (k, JObj (bar_object l))) bars"
proof -
  have inv: "om_inv m" using members_inv [OF ok] by blast
  have f: "\<forall>(k, v) \<in> set m. parse_bar E k v \<noteq> (None, [])" using parse_bar_decided by blast
  note parts = parse_members_ok [OF f p inv]
  show b: "om_inv bars" "om_keys bars = om_keys m" using parts(1,2) .
  have "v = JObj (bar_object l)" if "(k, l) \<in> set bars" "(k, v) \<in> set m" for k l v
  proof -
    obtain w where w: "(k, w) \<in> set m" "parse_bar E k w = (Some l, [])" using parts(3) \<open>(k, l) \<in> set bars\<close> by blast
    have "json_ok (d - 1) w" using ok w(1) by (auto simp: list_all_iff)
    with w(2) have "w = JObj (bar_object l)" by (rule parse_bar_ok)
    moreover have "w = v" using om_inv_lookup [OF inv] w(1) that(2) by (metis option.inject)
    ultimately show ?thesis by simp
  qed
  moreover have "length m = length bars" using b(2) by (metis length_map)
  ultimately show "m = map (\<lambda>(k, l). (k, JObj (bar_object l))) bars"
    using b(2) by (intro nth_equalityI) (auto simp: split_beta, metis nth_map nth_mem prod.collapse)
qed

lemma configuration_object_lookup:
  assumes "om_inv (cg_components cfg)" "om_inv (cg_instances cfg)" "om_inv (cg_bars cfg)"
  shows "map_of (configuration_object cfg) (Q ''formatVersion'') = Some (JNum 1)"
    "map_of (configuration_object cfg) (Q ''revision'') = Some (JStr (qnumber (unat (cg_revision cfg))))"
    "map_of (configuration_object cfg) (Q ''components'')
      = Some (JObj (map (\<lambda>(k, c). (k, JObj (component_object c))) (cg_components cfg)))"
    "map_of (configuration_object cfg) (Q ''instances'')
      = Some (JObj (map (\<lambda>(k, i). (k, JObj (configured_instance_object i))) (cg_instances cfg)))"
    "map_of (configuration_object cfg) (Q ''layouts'')
      = Some (JObj (json_object [(''bars'', JObj (map (\<lambda>(k, l). (k, JObj (bar_object l))) (cg_bars cfg))), (''desktops'', JObj [])]))"
    "config_unknown_fields (configuration_object cfg)
      [''formatVersion'', ''revision'', ''components'', ''instances'', ''layouts''] p = []"
proof -
  note lists = fold_om_insert_map [of "[]", simplified, OF om_inv_map [OF assms(1)], of "\<lambda>c. JObj (component_object c)"]
    fold_om_insert_map [of "[]", simplified, OF om_inv_map [OF assms(2)], of "\<lambda>i. JObj (configured_instance_object i)"]
    fold_om_insert_map [of "[]", simplified, OF om_inv_map [OF assms(3)], of "\<lambda>l. JObj (bar_object l)"]
  let ?layouts = "json_object [(''bars'', JObj (map (\<lambda>(k, l). (k, JObj (bar_object l))) (cg_bars cfg))), (''desktops'', JObj [])]"
  have ob: "configuration_object cfg = json_object
        [(''formatVersion'', json_int 1), (''revision'', JStr (qnumber (unat (cg_revision cfg)))),
         (''components'', JObj (map (\<lambda>(k, c). (k, JObj (component_object c))) (cg_components cfg))),
         (''instances'', JObj (map (\<lambda>(k, i). (k, JObj (configured_instance_object i))) (cg_instances cfg))),
         (''layouts'', JObj ?layouts)]"
    unfolding configuration_object_def Let_def lists ..
  show "map_of (configuration_object cfg) (Q ''formatVersion'') = Some (JNum 1)"
    "map_of (configuration_object cfg) (Q ''revision'') = Some (JStr (qnumber (unat (cg_revision cfg))))"
    "map_of (configuration_object cfg) (Q ''components'')
      = Some (JObj (map (\<lambda>(k, c). (k, JObj (component_object c))) (cg_components cfg)))"
    "map_of (configuration_object cfg) (Q ''instances'')
      = Some (JObj (map (\<lambda>(k, i). (k, JObj (configured_instance_object i))) (cg_instances cfg)))"
    "map_of (configuration_object cfg) (Q ''layouts'') = Some (JObj ?layouts)"
    "config_unknown_fields (configuration_object cfg)
      [''formatVersion'', ''revision'', ''components'', ''instances'', ''layouts''] p = []"
    unfolding ob by (simp_all add: json_object_fold json_int_def config_unknown_fields_def)
qed

lemma parse_members_exact:
  assumes "om_inv m" and "\<And>k x. (k, x) \<in> set m \<Longrightarrow> f k (h x) = (Some x, [])"
  shows "parse_members f (map (\<lambda>(k, x). (k, h x)) m) [] = (m, [])"
  using parse_members_map [of "[]" m f h "\<lambda>_ _. []"] assms by (simp add: split_beta concat_eq_Nil_conv)

text \<open>
  The document of an accepted configuration: exactly the configuration, or an error for settings
  that cannot be stored.
\<close>

lemma parse_configuration_again:
  assumes idem: "normal_idempotent E" and cat: "catalog_ok cat"
    and a: "parse_configuration_root E cat ob = vr_accept cfg" and ok: "json_ok d (JObj ob)"
  shows "if configuration_storable E cat cfg then parse_configuration_root E cat (configuration_object cfg) = vr_accept cfg
    else \<not> vr_ok (parse_configuration_root E cat (configuration_object cfg))"
proof -
  obtain mc mi mb where mc: "json_ok (d - 1) (JObj mc)" "length mc \<le> maximum_components"
      "parse_members (parse_component E cat) mc [] = (cg_components cfg, [])"
    and mi: "json_ok (d - 1) (JObj mi)" "length mi \<le> maximum_instances"
      "parse_members (parse_instance_record E cat (cg_components cfg)) mi [] = (cg_instances cfg, [])"
    and mb: "json_ok (d - 2) (JObj mb)" "length mb \<le> maximum_bar_layouts" "parse_members (parse_bar E) mb [] = (cg_bars cfg, [])"
    using accepted_parts [OF a ok] by metis
  note cs = accepted_components [OF idem cat mc(3,1)]
  note ins = accepted_instances [OF idem cat mi(3,1)]
  note bars = accepted_bars [OF mb(3,1)]
  note look = configuration_object_lookup [OF cs(1) ins(1) bars(1)]
  have len: "length (cg_components cfg) \<le> maximum_components" "length (cg_instances cfg) \<le> maximum_instances"
    using mc(2) mi(2) cs(2) ins(2) by (metis length_map)+
  have layouts: "parse_bar_layouts E (map_of (configuration_object cfg) (Q ''layouts'')) = (cg_bars cfg, [])"
    using mb(2,3) unfolding look bars(3) by (simp add: parse_bar_layouts_def json_object_def config_unknown_fields_def)
  let ?cv = "map_of (configuration_object cfg) (Q ''components'')" and ?iv = "map_of (configuration_object cfg) (Q ''instances'')"
  have cm: "parse_components E cat ?cv = parse_members (parse_component E cat)
      (map (\<lambda>(k, c). (k, JObj (component_object c))) (cg_components cfg)) []"
    using len by (simp add: look parse_components_def)
  have im: "parse_instance_records E cat (cg_components cfg) ?iv = parse_members (parse_instance_record E cat (cg_components cfg))
      (map (\<lambda>(k, i). (k, JObj (configured_instance_object i))) (cg_instances cfg)) []"
    using len by (simp add: look parse_instance_records_def)
  let ?sc = "list_all (\<lambda>(k, c). component_storable E cat k c) (cg_components cfg)"
  let ?si = "list_all (\<lambda>(k, i). instance_storable E cat (cg_components cfg) k i) (cg_instances cfg)"
  have c1: "parse_components E cat ?cv = (cg_components cfg, [])" if ?sc
    unfolding cm by (rule parse_members_exact [OF cs(1)]) (use cs(3) that in \<open>auto simp: list_all_iff\<close>)
  have c2: "snd (parse_components E cat ?cv) \<noteq> []" if "\<not> ?sc"
    unfolding cm parse_members_errors using cs(4) that by (fastforce simp: list_all_iff)
  have i1: "parse_instance_records E cat (cg_components cfg) ?iv = (cg_instances cfg, [])" if ?si
    unfolding im by (rule parse_members_exact [OF ins(1)]) (use ins(4) that in \<open>auto simp: list_all_iff\<close>)
  have i2: "snd (parse_instance_records E cat (cg_components cfg) ?iv) \<noteq> []" if "\<not> ?si"
    unfolding im parse_members_errors using ins(5) that by (fastforce simp: list_all_iff)
  note p = a [unfolded parse_configuration_root_iff]
  show ?thesis
  proof (cases "?sc \<and> ?si")
    case True
    then have "parse_configuration_root E cat (configuration_object cfg) = vr_accept cfg"
      unfolding parse_configuration_root_iff
      using p c1 i1 layouts by (simp add: look(1,2,6) version_errors_iff parse_config_revision_iff)
    with True show ?thesis by (simp add: configuration_storable_def)
  next
    case False
    have "parse_configuration_root E cat (configuration_object cfg) \<noteq> vr_accept c" for c
    proof
      assume "parse_configuration_root E cat (configuration_object cfg) = vr_accept c"
      note q = this [unfolded parse_configuration_root_iff]
      have sc: ?sc using c2 q by (metis snd_conv)
      with c1 q have "cg_components c = cg_components cfg" by simp
      with q i2 have ?si by (metis snd_conv)
      with sc False show False by blast
    qed
    then show ?thesis using False parse_configuration_root_rejects by (auto simp: configuration_storable_def)
  qed
qed

section \<open>The invariant\<close>

definition configuration_ok :: "component_configuration \<Rightarrow> bool" where
  "configuration_ok cfg \<longleftrightarrow> om_inv (cg_components cfg) \<and> om_inv (cg_instances cfg) \<and> om_inv (cg_bars cfg)
     \<and> length (cg_components cfg) \<le> maximum_components \<and> length (cg_instances cfg) \<le> maximum_instances
     \<and> length (cg_bars cfg) \<le> maximum_bar_layouts
     \<and> list_all (\<lambda>(k, i). om_contains (cg_components cfg) (ci_component_id i)) (cg_instances cfg)
     \<and> distinct (bar_placements (cg_bars cfg))
     \<and> set (bar_placements (cg_bars cfg)) = set (om_keys (cg_instances cfg))"

lemma parse_configuration_root_ok:
  assumes "normal_idempotent E" "catalog_ok cat"
    and a: "parse_configuration_root E cat ob = vr_accept cfg" and ok: "json_ok d (JObj ob)"
  shows "configuration_ok cfg"
proof -
  obtain mc mi mb where mc: "json_ok (d - 1) (JObj mc)" "length mc \<le> maximum_components"
      "parse_members (parse_component E cat) mc [] = (cg_components cfg, [])"
    and mi: "json_ok (d - 1) (JObj mi)" "length mi \<le> maximum_instances"
      "parse_members (parse_instance_record E cat (cg_components cfg)) mi [] = (cg_instances cfg, [])"
    and mb: "json_ok (d - 2) (JObj mb)" "length mb \<le> maximum_bar_layouts" "parse_members (parse_bar E) mb [] = (cg_bars cfg, [])"
    using accepted_parts [OF a ok] by metis
  note cs = accepted_components [OF assms(1,2) mc(3,1)]
  note ins = accepted_instances [OF assms(1,2) mi(3,1)]
  note bars = accepted_bars [OF mb(3,1)]
  obtain placed where "layouts_errors E cat cfg (cg_bars cfg) [] = ([], placed)" "unplaced_errors (cg_instances cfg) placed = []"
    using a unfolding parse_configuration_root_iff by blast
  note l = layouts_errors_ok [OF this(1)] this(2) [unfolded unplaced_errors_iff]
  have pl: "distinct (bar_placements (cg_bars cfg))" "list_all (om_contains (cg_instances cfg)) (bar_placements (cg_bars cfg))"
    "fst ` set (cg_instances cfg) \<subseteq> set (bar_placements (cg_bars cfg))"
    using l by auto
  have "set (bar_placements (cg_bars cfg)) = set (om_keys (cg_instances cfg))"
    using pl(2,3) by (auto simp: list_all_iff om_contains_def map_of_eq_None_iff simp del: not_None_eq)
  moreover have "length (cg_components cfg) = length mc" "length (cg_instances cfg) = length mi" "length (cg_bars cfg) = length mb"
    using cs(2) ins(2) bars(2) by (metis length_map)+
  moreover have "list_all (\<lambda>(k, i). om_contains (cg_components cfg) (ci_component_id i)) (cg_instances cfg)"
    using ins(3) by (auto simp: list_all_iff)
  ultimately show ?thesis using cs(1) ins(1) bars(1) pl(1) mc(2) mi(2) mb(2) by (simp add: configuration_ok_def)
qed

section \<open>Where the records come from\<close>

text \<open>What the checks of an active record allow it.\<close>

definition rights_ok :: "qt_env \<Rightarrow> config_entry \<Rightarrow> configured_component \<Rightarrow> bool" where
  "rights_ok E e c \<longleftrightarrow> set (cm_grants c) \<subseteq> set (ck_requested e)
     \<and> (if ck_origin e = SystemOrigin then cm_grants c = []
        else \<not> cm_enabled c \<or> (is_supported_user_declarative E e \<and> cm_grants c = []))"

lemma grant_errors_rights: "grant_errors E e path c = [] \<Longrightarrow> rights_ok E e c"
  unfolding grant_errors_def rights_ok_def append_is_Nil_conv
  by (cases "ck_origin e") (auto simp: list_all_iff split: if_splits)

lemma activated_rights:
  assumes "activate_component E e path c0 = (c, [])"
  shows "(\<exists>s. normalize_settings E (ck_schema e) ComponentScope (cm_settings c0) True = vr_accept s \<and> c = c0\<lparr>cm_settings := s\<rparr>)
    \<and> rights_ok E e c"
  using activate_component_ok [OF assms] grant_errors_rights [of E e path c0]
  by (metis grant_errors_rights grant_errors_settings)

text \<open>A record of the parser is a record of the document, or what that one is activated to.\<close>

lemma component_of_document:
  assumes "parse_members (parse_component E cat) m [] = (cs, [])" and ok: "json_ok d (JObj m)" and "map_of cs k = Some c"
  shows "\<exists>c0. map_of m k = Some (JObj (component_object c0)) \<and> (case active_component cat k c of
        None \<Rightarrow> c = c0
      | Some e \<Rightarrow> activate_component E e (component_path k) c0 = (c, []))"
proof -
  have inv: "om_inv m" using members_inv [OF ok] by blast
  have f: "\<forall>(k, v) \<in> set m. parse_component E cat k v \<noteq> (None, [])" using parse_component_decided by blast
  obtain v where v: "(k, v) \<in> set m" "parse_component E cat k v = (Some c, [])"
    using parse_members_ok(3) [OF f assms(1) inv] map_of_SomeD [OF assms(3)] by blast
  obtain ob c0 where v0: "v = JObj ob" and r: "read_component E (component_path k) ob = (c0, [])"
    and s: "case active_component cat k c0 of None \<Rightarrow> c = c0 | Some e \<Rightarrow> activate_component E e (component_path k) c0 = (c, [])"
    using parse_component_ok [OF v(2)] .
  have same: "active_component cat k c = active_component cat k c0"
  proof (cases "active_component cat k c0")
    case (Some e)
    with s have "activate_component E e (component_path k) c0 = (c, [])" by simp
    then obtain n where "c = c0\<lparr>cm_settings := n\<rparr>" by (rule activate_component_ok) blast
    then show ?thesis by (simp add: active_component_def cong: option.case_cong)
  qed (use s in simp)
  have "om_inv ob" using members_inv [OF ok] v(1) v0 by blast
  then have "map_of m k = Some (JObj (component_object c0))"
    using read_component_ok [OF r] v0 v(1) om_inv_lookup [OF inv] by simp
  with s show ?thesis unfolding same by blast
qed

section \<open>Documents as bytes\<close>

lemma parse_component_configuration_accept:
  "parse_component_configuration E bs cat = vr_accept cfg \<longleftrightarrow>
     (\<exists>ob. parse_object E maximum_configuration_bytes maximum_configuration_depth bs = vr_accept ob
       \<and> parse_configuration_root E cat ob = vr_accept cfg)"
  by (cases rule: parse_object_cases [of E maximum_configuration_bytes maximum_configuration_depth bs])
    (auto simp: parse_component_configuration_def Let_def)

lemma accepted_document:
  assumes "parse_component_configuration E bs cat = vr_accept cfg"
  obtains ob where "parse_object E maximum_configuration_bytes maximum_configuration_depth bs = vr_accept ob"
    "parse_configuration_root E cat ob = vr_accept cfg" "json_ok maximum_configuration_depth (JObj ob)"
  using assms unfolding parse_component_configuration_accept
  by (metis parse_object_ok vr_ok_simps(1) validation_result.ext_inject option.inject)

lemma parsed_configuration_ok:
  assumes "normal_idempotent E" "catalog_ok cat" "parse_component_configuration E bs cat = vr_accept cfg"
  shows "configuration_ok cfg"
  using accepted_document [OF assms(3)] parse_configuration_root_ok [OF assms(1,2)] by metis

end
