(* ===== verification/Sample_Configuration.thy ===== *)
theory Sample_Configuration
  imports Configuration_Documents Settings_Guarantees Sample_Run
begin

text \<open>
  A catalog with one built-in bar widget that has a number setting with a given default, and a
  configuration that enables the widget and places one instance of it on the main bar.
\<close>

definition gap_definition :: "rat \<Rightarrow> setting_definition" where
  "gap_definition x = empty_definition\<lparr>sd_key := Q ''gap'', sd_scope := ComponentScope, sd_type := NumberSetting,
     sd_label := Q ''Gap'', sd_description := Q ''Gap'', sd_group := Q ''look'', sd_order := 1,
     sd_default := Some (JNum x), sd_minimum := Some 0, sd_maximum := Some 100000000000000000\<rparr>"

definition gap_schema :: "rat \<Rightarrow> settings_schema" where
  "gap_schema x = \<lparr>ss_version = 1, ss_settings = [gap_definition x]\<rparr>"

definition gap_entry :: "rat \<Rightarrow> config_entry" where
  "gap_entry x = \<lparr>ck_package_digest = sample_digest, ck_type = BarWidget, ck_origin = SystemOrigin,
     ck_schema = gap_schema x, ck_requested = [], ck_api_version = current_component_api_version,
     ck_runtime_kind = BuiltinV1, ck_dependency_ids = [], ck_activation_supported = True, ck_declarative_runtime = []\<rparr>"

definition gap_catalog :: "rat \<Rightarrow> config_catalog" where
  "gap_catalog x = \<lparr>cc_digest = sample_digest, cc_entries = [(sample_id, gap_entry x)]\<rparr>"

definition gap_component :: "json qmap \<Rightarrow> configured_component" where
  "gap_component m = \<lparr>cm_package_digest = sample_digest, cm_enabled = True, cm_grants = [], cm_settings = m\<rparr>"

definition gap_instance :: configured_instance where
  "gap_instance = \<lparr>ci_component_id = sample_id, ci_enabled = True, ci_settings = []\<rparr>"

definition gap_bar :: bar_layout where
  "gap_bar = \<lparr>by_outputs = default_outputs, by_start = [sample_instance_id], by_center = [], by_end = []\<rparr>"

definition gap_configuration_at :: "64 word \<Rightarrow> json qmap \<Rightarrow> component_configuration" where
  "gap_configuration_at n m = \<lparr>cg_revision = n, cg_components = [(sample_id, gap_component m)],
     cg_instances = [(sample_instance_id, gap_instance)], cg_bars = [(Q ''main'', gap_bar)]\<rparr>"

abbreviation gap_configuration :: "json qmap \<Rightarrow> component_configuration" where
  "gap_configuration \<equiv> gap_configuration_at 1"

section \<open>The sample is accepted\<close>

lemma no_user_runtime: "\<not> is_supported_user_declarative E (gap_entry x)"
  by (simp add: is_supported_user_declarative_def gap_entry_def)

lemma sample_read_component:
  assumes "dormant_settings_errors E (p @ Q ''.settings'') m = []"
  shows "read_component E p (component_object (gap_component m)) = (gap_component m, [])"
  unfolding read_component_iff using assms
  by (simp add: gap_component_def strings_array_def parse_strings_def)

text \<open>The settings of the component in a document, and in the configuration it is parsed to.\<close>

definition gap_filled :: "rat \<Rightarrow> json qmap \<Rightarrow> json qmap \<Rightarrow> bool" where
  "gap_filled x m m' \<longleftrightarrow> m = [] \<and> m' = [(Q ''gap'', JNum x)]
     \<or> m' = m \<and> (\<exists>y. 0 \<le> y \<and> y \<le> 100000000000000000 \<and> m = [(Q ''gap'', JNum y)])"

lemma gap_normalized:
  assumes "0 \<le> x" "x \<le> 100000000000000000"
  shows "gap_filled x m m' \<Longrightarrow> normalize_settings E (gap_schema x) ComponentScope m True = vr_accept m'"
    and "normalize_settings E (gap_schema x) InstanceScope [] True = vr_accept []"
proof -
  have v: "0 \<le> y \<Longrightarrow> y \<le> 100000000000000000 \<Longrightarrow>
      normalize_setting_value E (gap_definition x) (Some (JNum y)) path = vr_accept (JNum y)" for y path
    by (simp add: normalize_setting_value_def normalize_number_def gap_definition_def empty_definition_def)
  have d: "sd_key (gap_definition x) = Q ''gap''" "sd_scope (gap_definition x) = ComponentScope"
    "sd_default (gap_definition x) = Some (JNum x)" by (simp_all add: gap_definition_def)
  show "normalize_settings E (gap_schema x) ComponentScope m True = vr_accept m'" if "gap_filled x m m'"
    using that assms
    by (auto simp: gap_filled_def normalize_settings_def foreign_keys_def gap_schema_def schema_find_def om_contains_def d v)
  show "normalize_settings E (gap_schema x) InstanceScope [] True = vr_accept []"
    by (simp add: normalize_settings_def foreign_keys_def gap_schema_def schema_find_def om_contains_def d v)
qed

lemma sample_parse_component:
  assumes x: "0 \<le> x" "x \<le> 100000000000000000" and m: "gap_filled x m m'"
    and d: "dormant_settings_errors E (component_path sample_id @ Q ''.settings'') m = []"
  shows "parse_component E (gap_catalog x) sample_id (JObj (component_object (gap_component m)))
    = (Some (gap_component m'), [])"
proof -
  have a: "active_component (gap_catalog x) sample_id (gap_component m) = Some (gap_entry x)"
    by (simp add: active_component_def gap_catalog_def gap_component_def gap_entry_def)
  have "activate_component E (gap_entry x) p (gap_component m) = (gap_component m', [])" for p
    using gap_normalized(1) [OF x m, of E] no_user_runtime [of E x]
    by (simp add: activate_component_def grant_errors_def resolved_text_errors_def gap_component_def gap_entry_def Let_def)
  then show ?thesis by (simp add: parse_component_object sample_read_component [OF d] a)
qed

lemma sample_parse_instance:
  assumes x: "0 \<le> x" "x \<le> 100000000000000000"
  shows "parse_instance_record E (gap_catalog x) [(sample_id, gap_component m)] sample_instance_id
    (JObj (configured_instance_object gap_instance)) = (Some gap_instance, [])"
proof -
  have r: "read_instance E [(sample_id, gap_component m)] p (configured_instance_object gap_instance) = (gap_instance, [])" for p
    unfolding read_instance_iff by (simp add: gap_instance_def om_contains_def dormant_settings_errors_def)
  have a: "active_entry (gap_catalog x) [(sample_id, gap_component m)] (ci_component_id gap_instance) = Some (gap_entry x)"
    by (simp add: active_entry_def gap_catalog_def gap_component_def gap_entry_def gap_instance_def)
  have "activate_instance E (gap_entry x) p gap_instance = (gap_instance, [])" for p
    using no_user_runtime [of E x] gap_normalized(2) [OF x]
    by (simp add: activate_instance_def gap_instance_def gap_entry_def)
  then show ?thesis unfolding parse_instance_record_object [OF sample_instance_id_ok r] a by simp
qed

lemma sample_parse_bar: "parse_bar E (Q ''main'') (JObj (bar_object gap_bar)) = (Some gap_bar, [])"
proof -
  have k: "is_layout_id (Q ''main'')"
    by (simp add: is_layout_id_def match_kebab_def kebab_body_def Q_def is_lower_def is_lower_alnum_def)
  have o: "parse_outputs E p (Some (JObj (outputs_object default_outputs))) = (default_outputs, [])" for p
    by (simp add: parse_outputs_def outputs_object_def default_outputs_def json_object_def config_unknown_fields_def)
  have r: "parse_bar_regions p (Some (JObj (json_object [(''start'', strings_array [sample_instance_id]),
      (''center'', strings_array []), (''end'', strings_array [])]))) = (([sample_instance_id], [], []), [])" for p
    by (simp add: parse_bar_regions_def json_object_def config_unknown_fields_def parse_strings_def strings_array_def
        maximum_region_instances_def Let_def)
  show ?thesis
    by (simp add: parse_bar_def k bar_object_def gap_bar_def json_object_def config_unknown_fields_def o r [unfolded json_object_def, simplified])
qed

text \<open>The document of the sample configuration, with any catalog under which its parts are accepted.\<close>

lemma sample_parse_root_with:
  assumes component: "parse_component E cat sample_id (JObj (component_object (gap_component m))) = (Some (gap_component m'), [])"
    and inst: "parse_instance_record E cat [(sample_id, gap_component m')] sample_instance_id
      (JObj (configured_instance_object gap_instance)) = (Some gap_instance, [])"
    and placed: "layouts_errors E cat (gap_configuration_at n m') [(Q ''main'', gap_bar)] [] = ([], [sample_instance_id])"
  shows "parse_configuration_root E cat (configuration_object (gap_configuration_at n m)) = vr_accept (gap_configuration_at n m')"
proof -
  let ?c = "gap_configuration_at n m"
  have inv: "om_inv (cg_components ?c)" "om_inv (cg_instances ?c)" "om_inv (cg_bars ?c)"
    by (simp_all add: gap_configuration_at_def)
  note look = configuration_object_lookup [OF inv]
  have sel: "cg_components ?c = [(sample_id, gap_component m)]" "cg_instances ?c = [(sample_instance_id, gap_instance)]"
    "cg_bars ?c = [(Q ''main'', gap_bar)]" "cg_revision ?c = n" by (simp_all add: gap_configuration_at_def)
  have layouts: "parse_bar_layouts E (map_of (configuration_object ?c) (Q ''layouts'')) = ([(Q ''main'', gap_bar)], [])"
    unfolding look sel by (simp add: parse_bar_layouts_def json_object_def config_unknown_fields_def sample_parse_bar maximum_bar_layouts_def)
  let ?r = "gap_configuration_at n m'"
  have r: "cg_components ?r = [(sample_id, gap_component m')]" "cg_instances ?r = [(sample_instance_id, gap_instance)]"
    "cg_bars ?r = [(Q ''main'', gap_bar)]" "cg_revision ?r = n" by (simp_all add: gap_configuration_at_def)
  have cs: "parse_components E cat (map_of (configuration_object ?c) (Q ''components'')) = (cg_components ?r, [])"
    unfolding look sel r by (simp add: parse_components_def component maximum_components_def)
  have ins: "parse_instance_records E cat (cg_components ?r) (map_of (configuration_object ?c) (Q ''instances''))
      = (cg_instances ?r, [])"
    unfolding look sel r by (simp add: parse_instance_records_def inst maximum_instances_def)
  have un: "unplaced_errors (cg_instances ?r) [sample_instance_id] = []" unfolding r by (simp add: unplaced_errors_def)
  show ?thesis
    unfolding parse_configuration_root_iff
    using cs ins layouts placed un
    by (simp only: look(1,2,6) version_errors_iff parse_config_revision_iff sel r simp_thms) blast
qed

lemma sample_placed: "layouts_errors E cat (gap_configuration_at n m) [(Q ''main'', gap_bar)] [] = ([], [sample_instance_id])"
  if "cat = gap_catalog x \<or> cc_entries cat = []"
  using that by (auto simp: gap_bar_def gap_configuration_at_def om_contains_def misplaced_declarative_def Let_def split: option.split)

lemma sample_parse_root:
  assumes x: "0 \<le> x" "x \<le> 100000000000000000" and m: "gap_filled x m m'"
    and d: "dormant_settings_errors E (component_path sample_id @ Q ''.settings'') m = []"
  shows "parse_configuration_root E (gap_catalog x) (configuration_object (gap_configuration_at n m))
    = vr_accept (gap_configuration_at n m')"
  by (rule sample_parse_root_with [OF sample_parse_component [OF x m d] sample_parse_instance [OF x] sample_placed [OF disjI1 [OF refl]]])

text \<open>The widget is not installed: its record is kept as it is.\<close>

definition bare_catalog :: config_catalog where
  "bare_catalog = \<lparr>cc_digest = sample_digest, cc_entries = []\<rparr>"

lemma bare_parse_root:
  assumes d: "dormant_settings_errors E (component_path sample_id @ Q ''.settings'') m = []"
  shows "parse_configuration_root E bare_catalog (configuration_object (gap_configuration_at n m)) = vr_accept (gap_configuration_at n m)"
proof -
  have r: "read_instance E [(sample_id, gap_component m)] p (configured_instance_object gap_instance) = (gap_instance, [])" for p
    unfolding read_instance_iff by (simp add: gap_instance_def om_contains_def dormant_settings_errors_def)
  have "active_component bare_catalog sample_id (gap_component m) = None"
    by (simp add: active_component_def bare_catalog_def)
  then have component: "parse_component E bare_catalog sample_id (JObj (component_object (gap_component m))) = (Some (gap_component m), [])"
    by (simp add: parse_component_object sample_read_component [OF d])
  have "active_entry bare_catalog [(sample_id, gap_component m)] (ci_component_id gap_instance) = None"
    by (simp add: active_entry_def bare_catalog_def)
  then have inst: "parse_instance_record E bare_catalog [(sample_id, gap_component m)] sample_instance_id
      (JObj (configured_instance_object gap_instance)) = (Some gap_instance, [])"
    unfolding parse_instance_record_object [OF sample_instance_id_ok r] by simp
  show ?thesis by (rule sample_parse_root_with [OF component inst sample_placed]) (simp add: bare_catalog_def)
qed

section \<open>The sample document\<close>

definition gap_bytes :: bytes where
  "gap_bytes = serialize_component_configuration sample_env (gap_configuration [])"

lemma number_texts: "number_kept 1" "number_kept 4" "number_kept 10000000000000000"
  by (simp_all add: number_kept_def write_number_def qnumber.simps digit_char_def normalize_json_number_def
      strip_trailing_zeros_def Let_def max_int64_def min_int64_def)

text \<open>The settings used in the samples.\<close>

definition gap_sample :: "json qmap \<Rightarrow> bool" where
  "gap_sample m \<longleftrightarrow> m = [] \<or> m = [(Q ''gap'', JNum 1)] \<or> m = [(Q ''gap'', JNum 4)] \<or> m = [(Q ''gap'', JNum 10000000000000000)]"

lemma gap_samples [simp]: "gap_sample []" "gap_sample [(Q ''gap'', JNum 1)]" "gap_sample [(Q ''gap'', JNum 4)]"
  "gap_sample [(Q ''gap'', JNum 10000000000000000)]"
  by (simp_all add: gap_sample_def)

text \<open>The strict reader returns the object of the sample configuration.\<close>

lemma revision_texts: "qnumber (unat (1 :: 64 word)) = Q ''1''" "qnumber (unat (2 :: 64 word)) = Q ''2''"
  by (simp_all add: qnumber.simps digit_char_def Q_def)

lemma gap_object:
  "configuration_object (gap_configuration_at n m) = json_object
     [(''formatVersion'', json_int 1), (''revision'', JStr (qnumber (unat n))),
      (''components'', JObj [(sample_id, JObj (component_object (gap_component m)))]),
      (''instances'', JObj [(sample_instance_id, JObj (configured_instance_object gap_instance))]),
      (''layouts'', JObj (json_object [(''bars'', JObj [(Q ''main'', JObj (bar_object gap_bar))]), (''desktops'', JObj [])]))]"
  by (simp add: configuration_object_def gap_configuration_at_def)

lemmas gap_objects = gap_object json_object_def json_int_def component_object_def configured_instance_object_def bar_object_def
  outputs_object_def strings_array_def gap_component_def gap_instance_def gap_bar_def default_outputs_def

lemma gap_writable:
  assumes n: "n = 1 \<or> n = 2" and m: "gap_sample m"
  shows "writable 32 (JObj (configuration_object (gap_configuration_at n m)))"
proof -
  have texts: "utf16_ok (Q k)" if "k \<in> {''formatVersion'', ''revision'', ''components'', ''instances'', ''layouts'', ''bars'',
      ''desktops'', ''packageDigest'', ''enabled'', ''grantedCapabilities'', ''settings'', ''componentId'', ''mode'', ''outputs'',
      ''regions'', ''start'', ''center'', ''end'', ''main'', ''all'', ''1'', ''2''}" for k
    using that by (intro Q_utf16) (auto simp: Q_def)
  have "utf16_ok (Q ''gap'')" by (intro Q_utf16) (simp add: Q_def)
  then have "om_inv m" "\<forall>e \<in> set m. utf16_ok (fst e) \<and> writable 28 (snd e)" using m number_texts by (auto simp: gap_sample_def)
  moreover have "utf16_ok (qnumber (unat n))"
    using n texts [of "''1''"] texts [of "''2''"] by (elim disjE) (simp_all only: revision_texts insert_iff simp_thms)
  ultimately show ?thesis using texts number_texts(1) by (simp add: gap_objects list_all_iff)
qed

lemma gap_length:
  assumes n: "n = 1 \<or> n = 2" and m: "gap_sample m"
  shows "length (write_json (JObj (configuration_object (gap_configuration_at n m)))) < nat maximum_configuration_bytes"
proof -
  have w: "write_number 1 = Q ''1''" "write_number 4 = Q ''4''" "write_number 10000000000000000 = Q ''10000000000000000''"
    by (simp_all add: write_number_def qnumber.simps digit_char_def Q_def)
  define j where "j = length (write_json (JObj m))"
  have j: "j \<le> 100" using m by (auto simp: gap_sample_def j_def w write_string_def Q_def)
  have r: "length (write_chars (qnumber (unat n))) = 1" using n by (elim disjE) (simp_all only: revision_texts, simp_all add: Q_def)
  show ?thesis
    using length_write_chars [of sample_digest] length_write_chars [of sample_instance_id] length_write_chars [of sample_id] j r
    by (simp add: gap_objects maximum_configuration_bytes_def sample_lengths write_string_def Q_def w j_def)
qed

lemma gap_written:
  assumes n: "n = 1 \<or> n = 2" and m: "gap_sample m"
  shows "parse_object sample_env maximum_configuration_bytes maximum_configuration_depth
    (serialize_component_configuration sample_env (gap_configuration_at n m)) = vr_accept (configuration_object (gap_configuration_at n m))"
  unfolding serialize_component_configuration_def maximum_configuration_depth_def
  by (rule parse_written_sample [OF gap_writable [OF n m] gap_length [OF n m]]) simp

lemma gap_dormant: "dormant_settings_errors E p [] = []" "dormant_settings_errors E p [(Q ''gap'', JNum 1)] = []"
  "dormant_settings_errors E p [(Q ''gap'', JNum 4)] = []"
  "dormant_settings_errors E p [(Q ''gap'', JNum 10000000000000000)] \<noteq> []"
  by (simp_all add: dormant_settings_errors_def dormant_errors.simps [of _ 0] dormant_number_errors_def
      maximum_exact_json_integer_def is_setting_key_def setting_key_body_def Q_def is_lower_def is_alnum_def)

lemma gap_filled_samples [simp]:
  "gap_filled x [] [(Q ''gap'', JNum x)]" "gap_filled x [(Q ''gap'', JNum 1)] [(Q ''gap'', JNum 1)]"
  "gap_filled x [(Q ''gap'', JNum 4)] [(Q ''gap'', JNum 4)]"
  by (simp_all add: gap_filled_def)

lemma gap_parsed:
  assumes "x = 1 \<or> x = 4 \<or> x = 10000000000000000" and "n = 1 \<or> n = 2" and "gap_sample m" "gap_filled x m m'"
    and "m \<noteq> [(Q ''gap'', JNum 10000000000000000)]"
  shows "parse_component_configuration sample_env (serialize_component_configuration sample_env (gap_configuration_at n m))
    (gap_catalog x) = vr_accept (gap_configuration_at n m')"
proof -
  have "dormant_settings_errors sample_env p m = []" for p using assms(3,5) gap_dormant by (auto simp: gap_sample_def)
  moreover have "0 \<le> x" "x \<le> 100000000000000000" using assms(1) by auto
  ultimately show ?thesis
    unfolding parse_component_configuration_accept gap_written [OF assms(2,3)]
    using sample_parse_root [OF _ _ assms(4), of sample_env n] by auto
qed

lemma gap_accepted:
  assumes "x = 1 \<or> x = 4 \<or> x = 10000000000000000"
  shows "parse_component_configuration sample_env gap_bytes (gap_catalog x) = vr_accept (gap_configuration [(Q ''gap'', JNum x)])"
  unfolding gap_bytes_def by (rule gap_parsed [OF assms]) simp_all

lemma gap_catalog_ok: "catalog_ok (gap_catalog x)"
  by (simp add: catalog_ok_def gap_catalog_def gap_entry_def gap_schema_def)

lemma gap_storable: "configuration_storable sample_env (gap_catalog 4) (gap_configuration [(Q ''gap'', JNum 4)])"
  using no_user_runtime
  by (simp add: configuration_storable_def gap_configuration_at_def component_storable_def instance_storable_def gap_dormant
      gap_component_def gap_instance_def gap_catalog_def gap_entry_def gap_schema_def stable_settings_def schema_find_def
      gap_definition_def empty_definition_def stable_value_def active_entry_def stable_instance_def)

lemma gap_not_storable:
  "\<not> configuration_storable sample_env (gap_catalog x) (gap_configuration_at n [(Q ''gap'', JNum 10000000000000000)])"
  by (simp add: configuration_storable_def gap_configuration_at_def component_storable_def gap_dormant gap_component_def)

text \<open>The document of a configuration with the large default is refused.\<close>

lemma gap_refused:
  assumes n: "n = 1 \<or> n = 2"
  shows "\<not> vr_ok (parse_component_configuration sample_env
    (serialize_component_configuration sample_env (gap_configuration_at n [(Q ''gap'', JNum 10000000000000000)]))
    (gap_catalog 10000000000000000))"
proof -
  have "parse_component_configuration sample_env (serialize_component_configuration sample_env (gap_configuration_at n []))
      (gap_catalog 10000000000000000) = vr_accept (gap_configuration_at n [(Q ''gap'', JNum 10000000000000000)])"
    by (rule gap_parsed [OF _ n]) simp_all
  from accepted_document [OF this] obtain ob where
    "parse_configuration_root sample_env (gap_catalog 10000000000000000) ob
      = vr_accept (gap_configuration_at n [(Q ''gap'', JNum 10000000000000000)])"
    "json_ok maximum_configuration_depth (JObj ob)" by metis
  from parse_configuration_again [OF sample_normal_idempotent gap_catalog_ok this] show ?thesis
    using gap_written [OF n] gap_not_storable by (simp add: parse_component_configuration_def)
qed

text \<open>The schema is one that the parser of schemas returns.\<close>

lemma gap_schema_ok: "schema_ok sample_env (gap_schema 10000000000000000)"
proof -
  let ?d = "gap_definition 10000000000000000"
  have t: "text_field_ok sample_env n w" if "w = Q ''gap'' \<or> w = Q ''Gap'' \<or> w = Q ''look''" "64 \<le> n" for w n
    using that by (auto simp: text_field_ok_def sample_env_def Q_def has_disallowed_control_def is_high_surrogate_def is_low_surrogate_def)
  have k: "is_setting_key (Q ''gap'')" by (simp add: is_setting_key_def setting_key_body_def Q_def is_lower_def is_alnum_def)
  have g: "is_valid_group (Q ''look'')"
    by (simp add: is_valid_group_def match_kebab_def kebab_body_def is_lower_alnum_def Q_def is_lower_def)
  have fields: "sd_key ?d = Q ''gap''" "sd_label ?d = Q ''Gap''" "sd_description ?d = Q ''Gap''" "sd_group ?d = Q ''look''"
    "sd_order ?d = 1" "sd_type ?d = NumberSetting" "sd_visible_when ?d = None" "sd_default ?d = Some (JNum 10000000000000000)"
    "sd_minimum ?d = Some 0" "sd_maximum ?d = Some 100000000000000000" "sd_step ?d = None"
    by (simp_all add: gap_definition_def empty_definition_def)
  have "default_ok sample_env ?d" by (simp add: default_ok_def fields value_ok_def)
  moreover have "type_fields_ok sample_env ?d" by (simp add: type_fields_ok_def fields)
  ultimately have "definition_ok sample_env ?d" using t k g by (simp add: definition_ok_def fields)
  moreover have "condition_ok sample_env [] ?d" by (simp add: condition_ok_def fields)
  ultimately show ?thesis by (simp add: schema_ok_def gap_schema_def maximum_setting_count_def definitions_ok_def)
qed

end
