(* ===== verification/Configuration_Guarantees.thy ===== *)
theory Configuration_Guarantees
  imports Sample_Configuration
begin

text \<open>
  What the rest of the system may rely on of a configuration the parser accepts, and when the
  document it is written to is accepted again.
\<close>

section \<open>Accepted configurations\<close>

text \<open>
  C26: An accepted configuration is well formed: at most 512 components, 1024 instances and 32 bar
  layouts; every instance is of a component of the configuration; and the placements of the
  layouts are exactly the instances, each of them once.
\<close>

theorem accepted_configuration_is_well_formed:
  assumes "normal_idempotent E" and "catalog_ok cat" and "parse_component_configuration E bs cat = vr_accept cfg"
  shows "configuration_ok cfg"
  using accepted_document [OF assms(3)] parse_configuration_root_ok [OF assms(1,2)] by metis

theorem accepted_configuration_is_well_formed_witness:
  "configuration_ok (gap_configuration [(Q ''gap'', JNum 4)])"
  using accepted_configuration_is_well_formed [OF sample_normal_idempotent gap_catalog_ok gap_accepted [of 4]] by simp

text \<open>
  C27: Every component record of an accepted configuration is a record of the document. A record
  whose package is not the installed one is kept as it is written. A record of the installed package
  differs in its settings only, which are the normalised ones; its grants are capabilities the
  package requests; a built-in package has none, and an enabled package of the user is a supported
  declarative one, without grants.
\<close>

theorem records_follow_the_catalog:
  assumes accepted: "parse_component_configuration E bs cat = vr_accept cfg" and c: "map_of (cg_components cfg) k = Some c"
  shows "\<exists>ob m c0. parse_object E maximum_configuration_bytes maximum_configuration_depth bs = vr_accept ob
    \<and> map_of ob (Q ''components'') = Some (JObj m) \<and> map_of m k = Some (JObj (component_object c0))
    \<and> (case active_component cat k c of
        None \<Rightarrow> c = c0
      | Some e \<Rightarrow> (\<exists>s. normalize_settings E (ck_schema e) ComponentScope (cm_settings c0) True = vr_accept s
            \<and> c = c0\<lparr>cm_settings := s\<rparr>) \<and> rights_ok E e c)"
proof -
  obtain ob where ob: "parse_object E maximum_configuration_bytes maximum_configuration_depth bs = vr_accept ob"
    and root: "parse_configuration_root E cat ob = vr_accept cfg" and ok: "json_ok maximum_configuration_depth (JObj ob)"
    using accepted_document [OF accepted] .
  obtain m where m: "map_of ob (Q ''components'') = Some (JObj m)" "json_ok (maximum_configuration_depth - 1) (JObj m)"
    "parse_members (parse_component E cat) m [] = (cg_components cfg, [])" using accepted_parts [OF root ok] by metis
  obtain c0 where "map_of m k = Some (JObj (component_object c0))" "case active_component cat k c of
        None \<Rightarrow> c = c0
      | Some e \<Rightarrow> activate_component E e (component_path k) c0 = (c, [])"
    using component_of_document [OF m(3,2) c] by blast
  then show ?thesis using ob m activated_rights by (fastforce split: option.splits)
qed

theorem records_follow_the_catalog_witness:
  "\<exists>ob m. parse_object sample_env maximum_configuration_bytes maximum_configuration_depth gap_bytes = vr_accept ob
    \<and> map_of ob (Q ''components'') = Some (JObj m)
    \<and> (\<exists>c0. map_of m sample_id = Some (JObj (component_object c0))
      \<and> gap_component [(Q ''gap'', JNum 4)] = c0\<lparr>cm_settings := [(Q ''gap'', JNum 4)]\<rparr>)"
proof -
  have c: "map_of (cg_components (gap_configuration [(Q ''gap'', JNum 4)])) sample_id = Some (gap_component [(Q ''gap'', JNum 4)])"
    by (simp add: gap_configuration_at_def)
  have a: "active_component (gap_catalog 4) sample_id (gap_component [(Q ''gap'', JNum 4)]) = Some (gap_entry 4)"
    by (simp add: active_component_def gap_catalog_def gap_component_def gap_entry_def)
  obtain ob m c0 s where "parse_object sample_env maximum_configuration_bytes maximum_configuration_depth gap_bytes = vr_accept ob"
    "map_of ob (Q ''components'') = Some (JObj m)" "map_of m sample_id = Some (JObj (component_object c0))"
    and s: "gap_component [(Q ''gap'', JNum 4)] = c0\<lparr>cm_settings := s\<rparr>"
    using records_follow_the_catalog [OF gap_accepted [of 4] c] unfolding a option.case by auto
  moreover have "s = [(Q ''gap'', JNum 4)]" using arg_cong [OF s, of cm_settings] by (simp add: gap_component_def)
  ultimately show ?thesis by blast
qed

text \<open>
  C28: An accepted configuration is read back from the document it is serialised to, when the reader
  returns the object that was written, exactly when its settings can be stored: every setting
  within the limits the parser puts on settings it does not normalise, and every normalised value
  stable. Otherwise its own document is refused.
\<close>

theorem configuration_round_trip:
  assumes "normal_idempotent E" and "catalog_ok cat" and "parse_component_configuration E bs cat = vr_accept cfg"
    and "parse_object E maximum_configuration_bytes maximum_configuration_depth (serialize_component_configuration E cfg)
      = vr_accept (configuration_object cfg)"
  shows "if configuration_storable E cat cfg
    then parse_component_configuration E (serialize_component_configuration E cfg) cat = vr_accept cfg
    else \<not> vr_ok (parse_component_configuration E (serialize_component_configuration E cfg) cat)"
proof -
  obtain ob where "parse_configuration_root E cat ob = vr_accept cfg" "json_ok maximum_configuration_depth (JObj ob)"
    using accepted_document [OF assms(3)] by metis
  from parse_configuration_again [OF assms(1,2) this] assms(4) show ?thesis
    by (simp add: parse_component_configuration_def)
qed

theorem configuration_round_trip_witness:
  "parse_component_configuration sample_env
     (serialize_component_configuration sample_env (gap_configuration [(Q ''gap'', JNum 4)])) (gap_catalog 4)
   = vr_accept (gap_configuration [(Q ''gap'', JNum 4)])"
  using configuration_round_trip [OF sample_normal_idempotent gap_catalog_ok gap_accepted [of 4] gap_written] gap_storable
  by simp

end
