(* ===== verification/Component_Store.thy ===== *)
theory Component_Store
  imports Configuration_Documents Posix_Fs Surface_Plan
begin

text \<open>
  src/src/configd/component_store.{h,cpp}: the two snapshots of the component configuration, how
  they are read and written, the migration of the workspace switcher, and which snapshot a start
  selects. \<open>T\<close> is the text with which the platform describes a failure of a call on a path
  (\<open>strerror\<close>, \<open>QFile::errorString\<close>). \<open>QSaveFile\<close> replaces a missing or regular file in the rename
  of \<open>commit\<close>; on any other kind of node the model lets it fail to open
  (\<open>QSaveFile\<close> itself would follow a symbolic link). A socket, which \<open>open\<close> refuses, is read as a node that is not
  a regular file: the status is the one of the code, the text of the error is not.
\<close>

section \<open>Data\<close>

datatype file_status = MissingFile | ValidFile | DamagedFile | UnsupportedFile | UnreadableFile

record config_read =
  rd_status :: file_status
  rd_state :: component_configuration
  rd_error :: qstring

datatype component_load_state = LoadNormal | LoadRecovered | LoadDefaulted | LoadUnsupported | LoadUnavailable

record component_paths =
  cp_active :: file_path
  cp_recovery :: file_path
  cp_defaults :: file_path

definition standard_component_paths :: "file_path \<Rightarrow> file_path \<Rightarrow> file_path \<Rightarrow> component_paths" where
  "standard_component_paths config_root state_root defaults_file =
     \<lparr>cp_active = config_root @ [Q ''hyprshelld'', Q ''components.json''],
      cp_recovery = state_root @ [Q ''hyprshelld'', Q ''components.last-good.json''],
      cp_defaults = defaults_file\<rparr>"

record component_load =
  ld_available :: bool
  ld_writable :: bool
  ld_state :: component_configuration
  ld_load_state :: component_load_state
  ld_error :: qstring

record component_migration =
  mg_changed :: bool
  mg_writable :: bool
  mg_state :: component_configuration
  mg_error :: qstring

text \<open>src/src/configd/legacy_workspace_settings.h\<close>

record legacy_settings =
  lw_label_mode :: qstring
  lw_show_applications :: bool
  lw_maximum_applications :: "32 word"
  lw_occupied_only :: bool
  lw_scroll_mode :: qstring

text \<open>The result of a writer is the error, if any; a store may have a writer of its own.\<close>

type_synonym snapshot_writer = "file_path \<Rightarrow> component_configuration \<Rightarrow> fs \<Rightarrow> qstring option \<times> fs"

record component_store =
  sr_paths :: component_paths
  sr_writer :: "snapshot_writer option"

definition empty_configuration :: component_configuration where
  "empty_configuration = \<lparr>cg_revision = 0, cg_components = [], cg_instances = [], cg_bars = []\<rparr>"

definition component_load_state_name :: "component_load_state \<Rightarrow> qstring" where
  "component_load_state_name st = (case st of LoadNormal \<Rightarrow> Q ''normal'' | LoadRecovered \<Rightarrow> Q ''recovered''
     | LoadDefaulted \<Rightarrow> Q ''defaulted'' | LoadUnsupported \<Rightarrow> Q ''unsupported'' | LoadUnavailable \<Rightarrow> Q ''unavailable'')"

section \<open>Reading a snapshot\<close>

definition describe_error :: "verror \<Rightarrow> qstring" where
  "describe_error e = ve_path e @ Q '' ['' @ ve_code e @ Q '']: '' @ ve_message e"

fun join_texts :: "qstring \<Rightarrow> qstring list \<Rightarrow> qstring" where
  "join_texts d [] = []"
| "join_texts d [t] = t"
| "join_texts d (t # ts) = t @ d @ join_texts d ts"

definition describe_errors :: "verror list \<Rightarrow> qstring" where
  "describe_errors es = join_texts (Q ''; '') (map describe_error es)"

definition has_unsupported_format :: "verror list \<Rightarrow> bool" where
  "has_unsupported_format es \<longleftrightarrow> list_ex (\<lambda>e. ve_code e = Q ''component-config.unsupported-format'') es"

definition rd_failure :: "file_status \<Rightarrow> qstring \<Rightarrow> config_read" where
  "rd_failure st e = \<lparr>rd_status = st, rd_state = empty_configuration, rd_error = e\<rparr>"

definition rd_missing :: config_read where
  "rd_missing = \<lparr>rd_status = MissingFile, rd_state = empty_configuration, rd_error = []\<rparr>"

definition read_content :: "qt_env \<Rightarrow> config_catalog \<Rightarrow> file_path \<Rightarrow> bytes \<Rightarrow> config_read" where
  "read_content E cat p bs =
     (let parsed = parse_component_configuration E bs cat
      in if \<not> vr_ok parsed then
           rd_failure (if has_unsupported_format (vr_errors parsed) then UnsupportedFile else DamagedFile)
             (Q ''Invalid component configuration in '' @ path_string p @ Q '': '' @ describe_errors (vr_errors parsed))
         else \<lparr>rd_status = ValidFile, rd_state = the (vr_value parsed), rd_error = []\<rparr>)"

text \<open>
  \<open>open\<close> with \<open>O_NOFOLLOW\<close>, \<open>fstat\<close>, \<open>QFile::open\<close> and \<open>QFile::read\<close> each consult the schedule of
  failures. The file does not change while it is read, so the second test of its size is never the
  one that fails.
\<close>

definition read_snapshot ::
  "qt_env \<Rightarrow> (file_path \<Rightarrow> qstring) \<Rightarrow> config_catalog \<Rightarrow> file_path \<Rightarrow> fs \<Rightarrow> config_read \<times> fs" where
  "read_snapshot E T cat p s =
     (let cannot_open = rd_failure UnreadableFile (Q ''Cannot safely read '' @ path_string p @ Q '': '' @ T p);
          cannot_read = rd_failure UnreadableFile (Q ''Cannot read '' @ path_string p @ Q '': '' @ T p);
          (open_fault, s1) = next_fault s
      in if open_fault then (cannot_open, s1)
         else case fs_nodes s1 p of
             None \<Rightarrow> (rd_missing, s1)
           | Some n \<Rightarrow>
               if in_kind n = Symlink then (cannot_open, s1)
               else let (stat_fault, s2) = next_fault s1
                    in if stat_fault then (cannot_open, s2)
                       else if in_kind n \<noteq> Regular then
                         (rd_failure UnreadableFile (Q ''Component configuration is not a regular file: '' @ path_string p), s2)
                       else if maximum_configuration_bytes < int (length (in_data n)) then
                         (rd_failure DamagedFile (Q ''Component configuration exceeds the size limit: '' @ path_string p), s2)
                       else let (file_fault, s3) = next_fault s2
                            in if file_fault then (cannot_read, s3)
                               else let (read_fault, s4) = next_fault s3
                                    in if read_fault then (cannot_read, s4)
                                       else (read_content E cat p (in_data n), s4))"

section \<open>Writing a snapshot\<close>

definition write_snapshot :: "qt_env \<Rightarrow> (file_path \<Rightarrow> qstring) \<Rightarrow> snapshot_writer" where
  "write_snapshot E T p cfg s =
     (let failed = (\<lambda>what. Some (Q what @ path_string p @ Q '': '' @ T p));
          (made, s1) = mkpath s (butlast p)
      in if \<not> made then (Some (Q ''Cannot create component configuration directory '' @ path_string (butlast p)), s1)
         else let (open_fault, s2) = next_fault s1
              in if open_fault \<or> (case fs_nodes s2 p of None \<Rightarrow> False | Some n \<Rightarrow> in_kind n \<noteq> Regular) then
                   (failed ''Cannot write '', s2)
                 else let (mode_fault, s3) = next_fault s2
                      in if mode_fault then (failed ''Cannot protect '', s3)
                         else let (write_fault, s4) = next_fault s3
                              in if write_fault then (failed ''Cannot write '', s4)
                                 else let (commit_fault, s5) = next_fault s4
                                      in if commit_fault then (failed ''Cannot commit '', s5)
                                         else (None, rename_over s5 p (serialize_component_configuration E cfg)))"

definition store_write :: "qt_env \<Rightarrow> (file_path \<Rightarrow> qstring) \<Rightarrow> component_store \<Rightarrow> snapshot_writer" where
  "store_write E T S = (case sr_writer S of Some w \<Rightarrow> w | None \<Rightarrow> write_snapshot E T)"

section \<open>The migration of the workspace switcher\<close>

definition label_mode_package_digest :: qstring where
  "label_mode_package_digest = Q ''f4febcab5a093a803d35b93ae5300df3149f9bff5a571c759c771fe61699f0f7''"

definition identifier_flags_package_digest :: qstring where
  "identifier_flags_package_digest = Q ''4887e8c9e981ce892d39382e696de83d5b2dee4236e83db6da84780064aeaf54''"

text \<open>\<open>showIdentifiers\<close> and \<open>showNames\<close> of a label mode.\<close>

definition label_mode_flags :: "qstring \<Rightarrow> (bool \<times> bool) option" where
  "label_mode_flags mode =
     (if mode = Q ''numbers'' then Some (True, False)
      else if mode = Q ''names'' then Some (True, True)
      else if mode = Q ''compact'' then Some (False, False)
      else None)"

definition migrate_label_mode :: "json qmap \<Rightarrow> json qmap option" where
  "migrate_label_mode settings =
     (let label_mode = map_of settings (Q ''labelMode''); show_applications = map_of settings (Q ''showApplications'');
          maximum_applications = map_of settings (Q ''maximumApplications'');
          occupied_only = map_of settings (Q ''occupiedOnly''); scroll_mode = map_of settings (Q ''scrollMode'')
      in if \<not> exact_keys settings [''labelMode'', ''showApplications'', ''maximumApplications'', ''occupiedOnly'', ''scrollMode'']
         then None
         else if \<not> is_string label_mode \<or> \<not> is_bool show_applications \<or> \<not> is_exact_integer maximum_applications 1 5
           \<or> \<not> is_bool occupied_only \<or> \<not> is_string scroll_mode then None
         else case label_mode_flags (to_string label_mode) of
             None \<Rightarrow> None
           | Some (identifiers, names) \<Rightarrow>
               if to_string scroll_mode \<notin> {Q ''disabled'', Q ''normal'', Q ''reversed''} then None
               else Some (json_object
                 [(''showIdentifiers'', JBool identifiers), (''showNames'', JBool names),
                  (''showApplications'', the show_applications), (''maximumApplications'', the maximum_applications),
                  (''occupiedOnly'', the occupied_only), (''scrollMode'', the scroll_mode)]))"

fun migrate_instances :: "configured_instance qmap \<Rightarrow> configured_instance qmap option" where
  "migrate_instances [] = Some []"
| "migrate_instances ((k, i) # m) =
     (if ci_component_id i \<noteq> workspace_switcher_id then map_option (\<lambda>n. (k, i) # n) (migrate_instances m)
      else case migrate_label_mode (ci_settings i) of
          None \<Rightarrow> None
        | Some settings \<Rightarrow> map_option (\<lambda>n. (k, i\<lparr>ci_settings := settings\<rparr>) # n) (migrate_instances m))"

definition migration_applies :: "component_configuration \<Rightarrow> config_catalog \<Rightarrow> bool" where
  "migration_applies current cat \<longleftrightarrow>
     (case (map_of (cg_components current) workspace_switcher_id, map_of (cc_entries cat) workspace_switcher_id) of
        (Some desired, Some live) \<Rightarrow>
          cm_package_digest desired = label_mode_package_digest \<and> ck_package_digest live = identifier_flags_package_digest
          \<and> ck_origin live = SystemOrigin \<and> ck_type live = BarWidget
          \<and> cm_grants desired = [] \<and> cm_settings desired = [] \<and> cg_revision current \<noteq> - 1
      | _ \<Rightarrow> False)"

definition migration_candidate ::
  "qt_env \<Rightarrow> component_configuration \<Rightarrow> config_catalog \<Rightarrow> component_configuration option" where
  "migration_candidate E current cat =
     (if \<not> migration_applies current cat then None
      else case migrate_instances (cg_instances current) of
          None \<Rightarrow> None
        | Some instances \<Rightarrow>
            let desired = the (map_of (cg_components current) workspace_switcher_id);
                live = the (map_of (cc_entries cat) workspace_switcher_id);
                next = current\<lparr>cg_instances := instances,
                  cg_components := om_insert workspace_switcher_id (desired\<lparr>cm_package_digest := ck_package_digest live\<rparr>)
                    (cg_components current),
                  cg_revision := cg_revision current + 1\<rparr>;
                validated = parse_component_configuration E (serialize_component_configuration E next) cat
            in if \<not> vr_ok validated \<or> the (vr_value validated) \<noteq> next then None else Some next)"

definition migrate_configuration ::
  "qt_env \<Rightarrow> (file_path \<Rightarrow> qstring) \<Rightarrow> component_store \<Rightarrow> component_configuration \<Rightarrow> config_catalog \<Rightarrow> fs \<Rightarrow>
    component_migration \<times> fs" where
  "migrate_configuration E T S current cat s =
     (case migration_candidate E current cat of
        None \<Rightarrow> (\<lparr>mg_changed = False, mg_writable = True, mg_state = current, mg_error = []\<rparr>, s)
      | Some next \<Rightarrow>
          (case store_write E T S (cp_recovery (sr_paths S)) next s of
             (Some e, s1) \<Rightarrow> (\<lparr>mg_changed = False, mg_writable = False, mg_state = current, mg_error = e\<rparr>, s1)
           | (None, s1) \<Rightarrow>
               (case store_write E T S (cp_active (sr_paths S)) next s1 of
                  (Some e, s2) \<Rightarrow> (\<lparr>mg_changed = True, mg_writable = False, mg_state = next, mg_error = e\<rparr>, s2)
                | (None, s2) \<Rightarrow> (\<lparr>mg_changed = True, mg_writable = True, mg_state = next, mg_error = []\<rparr>, s2))))"

definition recognizes_migration ::
  "qt_env \<Rightarrow> component_configuration \<Rightarrow> component_configuration \<Rightarrow> config_catalog \<Rightarrow> bool" where
  "recognizes_migration E current candidate cat \<longleftrightarrow> migration_candidate E current cat = Some candidate"

section \<open>The first configuration\<close>

definition workspace_switcher_default_instance_id :: qstring where
  "workspace_switcher_default_instance_id = Q ''7b4e2329-4320-4e15-894d-218fa690d782''"

definition default_bar_layout_id :: qstring where
  "default_bar_layout_id = Q ''main''"

definition first_run_composition :: "component_configuration \<Rightarrow> configured_component \<Rightarrow> bool" where
  "first_run_composition state desired \<longleftrightarrow>
     cg_revision state = 0 \<and> length (cg_components state) = 1 \<and> cm_enabled desired \<and> cm_grants desired = []
     \<and> cm_settings desired = [] \<and> length (cg_instances state) = 1 \<and> length (cg_bars state) = 1
     \<and> (case (map_of (cg_instances state) workspace_switcher_default_instance_id, map_of (cg_bars state) default_bar_layout_id) of
          (Some i, Some l) \<Rightarrow> ci_component_id i = workspace_switcher_id \<and> ci_enabled i
            \<and> ci_settings i = workspace_switcher_default_settings
            \<and> os_mode (by_outputs l) = Q ''all'' \<and> os_names (by_outputs l) = []
            \<and> by_start l = [workspace_switcher_default_instance_id] \<and> by_center l = [] \<and> by_end l = []
        | _ \<Rightarrow> False)"

text \<open>The error, if any.\<close>

definition protected_default_error :: "component_configuration \<Rightarrow> config_catalog \<Rightarrow> qstring option" where
  "protected_default_error state cat =
     (case (map_of (cg_components state) workspace_switcher_id, map_of (cc_entries cat) workspace_switcher_id) of
        (Some desired, Some e) \<Rightarrow>
          if cm_package_digest desired \<noteq> ck_package_digest e then
            Some (Q ''Protected component defaults do not match the workspace catalog digest'')
          else if \<not> first_run_composition state desired then
            Some (Q ''Protected component defaults do not match the compiled first-run composition'')
          else None
      | _ \<Rightarrow> Some (Q ''Protected component defaults do not match the workspace catalog digest''))"

definition settings_from_legacy :: "legacy_settings \<Rightarrow> json qmap option" where
  "settings_from_legacy l =
     (case migrate_label_mode (json_object
         [(''labelMode'', JStr (lw_label_mode l)), (''showApplications'', JBool (lw_show_applications l)),
          (''maximumApplications'', json_int (uint (lw_maximum_applications l))),
          (''occupiedOnly'', JBool (lw_occupied_only l)), (''scrollMode'', JStr (lw_scroll_mode l))]) of
        None \<Rightarrow> None
      | Some m \<Rightarrow> if is_valid_workspace_switcher_settings m then Some m else None)"

section \<open>Loading\<close>

definition load_refused :: "component_load_state \<Rightarrow> qstring \<Rightarrow> component_load" where
  "load_refused st e = \<lparr>ld_available = False, ld_writable = False, ld_state = empty_configuration, ld_load_state = st, ld_error = e\<rparr>"

definition load_read_only :: "component_configuration \<Rightarrow> component_load_state \<Rightarrow> qstring \<Rightarrow> component_load" where
  "load_read_only cfg st e = \<lparr>ld_available = True, ld_writable = False, ld_state = cfg, ld_load_state = st, ld_error = e\<rparr>"

definition load_ready :: "component_configuration \<Rightarrow> component_load_state \<Rightarrow> component_load" where
  "load_ready cfg st = \<lparr>ld_available = True, ld_writable = True, ld_state = cfg, ld_load_state = st, ld_error = []\<rparr>"

definition load_migrated :: "component_migration \<Rightarrow> component_load_state \<Rightarrow> component_load" where
  "load_migrated m st = \<lparr>ld_available = True, ld_writable = mg_writable m, ld_state = mg_state m,
     ld_load_state = (if mg_writable m then st else LoadUnavailable), ld_error = mg_error m\<rparr>"

text \<open>A valid active snapshot: it is migrated, or mirrored to the recovery file.\<close>

definition load_active ::
  "qt_env \<Rightarrow> (file_path \<Rightarrow> qstring) \<Rightarrow> component_store \<Rightarrow> config_catalog \<Rightarrow> config_read \<Rightarrow> config_read \<Rightarrow> fs \<Rightarrow>
    component_load \<times> fs" where
  "load_active E T S cat active recovery s =
     (if rd_status recovery = UnsupportedFile then (load_read_only (rd_state active) LoadUnsupported (rd_error recovery), s)
      else if rd_status recovery = UnreadableFile then (load_read_only (rd_state active) LoadUnavailable (rd_error recovery), s)
      else case migrate_configuration E T S (rd_state active) cat s of (m, s1) \<Rightarrow>
        if mg_changed m \<or> \<not> mg_writable m then (load_migrated m LoadNormal, s1)
        else if rd_status recovery \<noteq> ValidFile \<or> rd_state recovery \<noteq> rd_state active then
          (case store_write E T S (cp_recovery (sr_paths S)) (rd_state active) s1 of
             (Some e, s2) \<Rightarrow> (load_read_only (rd_state active) LoadUnavailable e, s2)
           | (None, s2) \<Rightarrow> (load_ready (rd_state active) LoadNormal, s2))
        else (load_ready (rd_state active) LoadNormal, s1))"

text \<open>A valid recovery snapshot beside a missing or damaged active one.\<close>

definition load_recovery ::
  "qt_env \<Rightarrow> (file_path \<Rightarrow> qstring) \<Rightarrow> component_store \<Rightarrow> config_catalog \<Rightarrow> config_read \<Rightarrow> fs \<Rightarrow> component_load \<times> fs" where
  "load_recovery E T S cat recovery s =
     (case migrate_configuration E T S (rd_state recovery) cat s of (m, s1) \<Rightarrow>
        if mg_changed m \<or> \<not> mg_writable m then (load_migrated m LoadRecovered, s1)
        else (case store_write E T S (cp_active (sr_paths S)) (rd_state recovery) s1 of
             (Some e, s2) \<Rightarrow> (load_read_only (rd_state recovery) LoadUnavailable e, s2)
           | (None, s2) \<Rightarrow> (load_ready (rd_state recovery) LoadRecovered, s2)))"

text \<open>The protected defaults, with the settings of an earlier format on the first run.\<close>

definition initial_configuration :: "component_configuration \<Rightarrow> bool \<Rightarrow> legacy_settings option \<Rightarrow> component_configuration" where
  "initial_configuration defaults first_run legacy =
     (case legacy of
        None \<Rightarrow> defaults
      | Some l \<Rightarrow>
          if \<not> first_run then defaults
          else case settings_from_legacy l of
              None \<Rightarrow> defaults
            | Some m \<Rightarrow>
                let i = the (map_of (cg_instances defaults) workspace_switcher_default_instance_id)
                in defaults\<lparr>cg_instances :=
                  om_insert workspace_switcher_default_instance_id (i\<lparr>ci_settings := m\<rparr>) (cg_instances defaults)\<rparr>)"

definition load_defaults ::
  "qt_env \<Rightarrow> (file_path \<Rightarrow> qstring) \<Rightarrow> component_store \<Rightarrow> config_catalog \<Rightarrow> bool \<Rightarrow> legacy_settings option \<Rightarrow> fs \<Rightarrow>
    component_load \<times> fs" where
  "load_defaults E T S cat first_run legacy s =
     (case read_snapshot E T cat (cp_defaults (sr_paths S)) s of (defaults, s1) \<Rightarrow>
        if rd_status defaults \<noteq> ValidFile then
          (load_refused (if rd_status defaults = UnsupportedFile then LoadUnsupported else LoadUnavailable)
             (if rd_error defaults = [] then Q ''Protected component defaults are unavailable'' else rd_error defaults), s1)
        else case protected_default_error (rd_state defaults) cat of
            Some e \<Rightarrow> (load_refused LoadUnavailable e, s1)
          | None \<Rightarrow>
              let initial = initial_configuration (rd_state defaults) first_run legacy
              in case store_write E T S (cp_recovery (sr_paths S)) initial s1 of
                  (Some e, s2) \<Rightarrow> (load_refused LoadUnavailable e, s2)
                | (None, s2) \<Rightarrow>
                    (case store_write E T S (cp_active (sr_paths S)) initial s2 of
                       (Some e, s3) \<Rightarrow> (load_refused LoadUnavailable e, s3)
                     | (None, s3) \<Rightarrow> (load_ready initial (if first_run then LoadNormal else LoadDefaulted), s3)))"

definition load_configuration ::
  "qt_env \<Rightarrow> (file_path \<Rightarrow> qstring) \<Rightarrow> component_store \<Rightarrow> config_catalog \<Rightarrow> legacy_settings option \<Rightarrow> fs \<Rightarrow>
    component_load \<times> fs" where
  "load_configuration E T S cat legacy s =
     (case read_snapshot E T cat (cp_active (sr_paths S)) s of (active, s1) \<Rightarrow>
      case read_snapshot E T cat (cp_recovery (sr_paths S)) s1 of (recovery, s2) \<Rightarrow>
        if rd_status active = ValidFile then load_active E T S cat active recovery s2
        else if rd_status active = UnsupportedFile then (load_refused LoadUnsupported (rd_error active), s2)
        else if rd_status active = UnreadableFile then (load_refused LoadUnavailable (rd_error active), s2)
        else if rd_status recovery = UnsupportedFile then (load_refused LoadUnsupported (rd_error recovery), s2)
        else if rd_status recovery = UnreadableFile then (load_refused LoadUnavailable (rd_error recovery), s2)
        else if rd_status recovery = ValidFile then load_recovery E T S cat recovery s2
        else load_defaults E T S cat (rd_status active = MissingFile \<and> rd_status recovery = MissingFile) legacy s2)"

section \<open>Persisting\<close>

text \<open>The error, if any; a failure to refresh the recovery file is only logged.\<close>

definition persist_configuration ::
  "qt_env \<Rightarrow> (file_path \<Rightarrow> qstring) \<Rightarrow> component_store \<Rightarrow> component_configuration \<Rightarrow> component_configuration \<Rightarrow> fs \<Rightarrow>
    qstring option \<times> fs" where
  "persist_configuration E T S current next s =
     (case store_write E T S (cp_recovery (sr_paths S)) current s of
        (Some e, s1) \<Rightarrow> (Some e, s1)
      | (None, s1) \<Rightarrow>
          (case store_write E T S (cp_active (sr_paths S)) next s1 of
             (Some e, s2) \<Rightarrow> (Some e, s2)
           | (None, s2) \<Rightarrow> (None, snd (store_write E T S (cp_recovery (sr_paths S)) next s2))))"

end
