(* ===== verification/Component_Service.thy ===== *)
theory Component_Service
  imports Component_Store
begin

text \<open>
  src/src/configd/component_config_service.{h,cpp}: the D-Bus service that owns the component
  configuration. Its handlers are functions on its members, the file system and the signals it
  sent; \<open>store\<close> and \<open>T\<close> are those of Component_Store. A reply is the error reported to the caller,
  if any, with the return values.
\<close>

section \<open>State\<close>

datatype property_value = PBool bool | PRevision "64 word" | PText qstring

datatype service_event = PropertiesChanged "property_value qmap" | SnapshotEstablished

record config_service =
  sv_state :: component_configuration
  sv_catalog :: config_catalog
  sv_catalog_digest :: qstring
  sv_load_state :: qstring
  sv_available :: bool
  sv_writable :: bool
  sv_catalog_available :: bool
  sv_loaded_once :: bool
  sv_legacy :: "legacy_settings option"
  sv_disk :: fs
  sv_events :: "service_event list"

definition new_service :: "legacy_settings option \<Rightarrow> fs \<Rightarrow> config_service" where
  "new_service legacy d = \<lparr>sv_state = empty_configuration, sv_catalog = \<lparr>cc_digest = [], cc_entries = []\<rparr>,
     sv_catalog_digest = [], sv_load_state = Q ''unavailable'', sv_available = False, sv_writable = False,
     sv_catalog_available = False, sv_loaded_once = False, sv_legacy = legacy, sv_disk = d, sv_events = []\<rparr>"

definition service_revision :: "config_service \<Rightarrow> 64 word" where
  "service_revision v = (if sv_available v then cg_revision (sv_state v) else 0)"

definition emit_event :: "service_event \<Rightarrow> config_service \<Rightarrow> config_service" where
  "emit_event e v = v\<lparr>sv_events := sv_events v @ [e]\<rparr>"

definition publish_properties :: "property_value qmap \<Rightarrow> config_service \<Rightarrow> config_service" where
  "publish_properties changed v = (if changed = [] then v else emit_event (PropertiesChanged changed) v)"

definition set_catalog_unavailable :: "config_service \<Rightarrow> config_service" where
  "set_catalog_unavailable v =
     (if \<not> sv_catalog_available v then v
      else publish_properties [(Q ''CatalogAvailable'', PBool False)] (v\<lparr>sv_catalog_available := False\<rparr>))"

section \<open>Catalogs\<close>

text \<open>The members after an assignment of \<open>loadState_\<close>, and the property it announces.\<close>

definition set_load_state :: "qstring \<Rightarrow> config_service \<times> property_value qmap \<Rightarrow> config_service \<times> property_value qmap" where
  "set_load_state st vc =
     (if sv_load_state (fst vc) = st then vc
      else ((fst vc)\<lparr>sv_load_state := st\<rparr>, om_insert (Q ''LoadState'') (PText st) (snd vc)))"

definition announce_revision :: "config_service \<times> property_value qmap \<Rightarrow> config_service \<times> property_value qmap" where
  "announce_revision vc = (fst vc, om_insert (Q ''Revision'') (PRevision (cg_revision (sv_state (fst vc)))) (snd vc))"

definition first_load ::
  "qt_env \<Rightarrow> (file_path \<Rightarrow> qstring) \<Rightarrow> component_store \<Rightarrow> config_catalog \<Rightarrow> config_service \<Rightarrow>
    config_service \<times> property_value qmap" where
  "first_load E T S cat v =
     (case load_configuration E T S cat (sv_legacy v) (sv_disk v) of (loaded, d) \<Rightarrow>
        let v1 = v\<lparr>sv_disk := d, sv_state := ld_state loaded, sv_writable := ld_writable loaded,
              sv_loaded_once := ld_available loaded, sv_legacy := (if ld_available loaded then None else sv_legacy v)\<rparr>;
            vc1 = (if sv_available v1 \<noteq> ld_available loaded
              then (v1\<lparr>sv_available := ld_available loaded\<rparr>, om_insert (Q ''Available'') (PBool (ld_available loaded)) [])
              else (v1, []));
            vc2 = set_load_state (component_load_state_name (ld_load_state loaded)) vc1
        in if sv_available (fst vc2) then announce_revision vc2 else vc2)"

definition retry_load ::
  "qt_env \<Rightarrow> (file_path \<Rightarrow> qstring) \<Rightarrow> component_store \<Rightarrow> config_catalog \<Rightarrow> config_service \<Rightarrow>
    config_service \<times> property_value qmap" where
  "retry_load E T S cat v =
     (case load_configuration E T S cat None (sv_disk v) of (retried, d) \<Rightarrow>
        let v1 = v\<lparr>sv_disk := d\<rparr>
        in if ld_available retried
             \<and> (ld_state retried = sv_state v \<or> recognizes_migration E (sv_state v) (ld_state retried) cat) then
             let vc1 = (if ld_state retried \<noteq> sv_state v
                   then announce_revision (v1\<lparr>sv_state := ld_state retried\<rparr>, []) else (v1, []))
             in set_load_state (component_load_state_name (ld_load_state retried))
               ((fst vc1)\<lparr>sv_writable := ld_writable retried\<rparr>, snd vc1)
           else (v1, []))"

definition migrate_loaded ::
  "qt_env \<Rightarrow> (file_path \<Rightarrow> qstring) \<Rightarrow> component_store \<Rightarrow> config_catalog \<Rightarrow> config_service \<Rightarrow>
    config_service \<times> property_value qmap" where
  "migrate_loaded E T S cat v =
     (case migrate_configuration E T S (sv_state v) cat (sv_disk v) of (migrated, d) \<Rightarrow>
        let v1 = v\<lparr>sv_disk := d\<rparr>;
            vc1 = (if mg_changed migrated then announce_revision (v1\<lparr>sv_state := mg_state migrated\<rparr>, []) else (v1, []))
        in if \<not> mg_writable migrated
           then set_load_state (component_load_state_name LoadUnavailable) ((fst vc1)\<lparr>sv_writable := False\<rparr>, snd vc1)
           else vc1)"

definition revalidates :: "qt_env \<Rightarrow> config_catalog \<Rightarrow> component_configuration \<Rightarrow> bool" where
  "revalidates E cat cfg \<longleftrightarrow>
     (let r = parse_component_configuration E (serialize_component_configuration E cfg) cat
      in vr_ok r \<and> the (vr_value r) = cfg)"

definition load_for_catalog ::
  "qt_env \<Rightarrow> (file_path \<Rightarrow> qstring) \<Rightarrow> component_store \<Rightarrow> config_catalog \<Rightarrow> config_service \<Rightarrow>
    config_service \<times> property_value qmap" where
  "load_for_catalog E T S cat v =
     (if \<not> sv_loaded_once v then first_load E T S cat v
      else if sv_available v \<and> \<not> sv_writable v then retry_load E T S cat v
      else if sv_available v then migrate_loaded E T S cat v
      else (v, []))"

definition install_catalog :: "config_catalog \<Rightarrow> config_service \<times> property_value qmap \<Rightarrow> config_service" where
  "install_catalog cat vc =
     (let v = fst vc;
          c1 = (if sv_catalog_available v then snd vc else om_insert (Q ''CatalogAvailable'') (PBool True) (snd vc));
          c2 = (if sv_catalog_digest v = cc_digest cat then c1
            else om_insert (Q ''CatalogDigest'') (PText (cc_digest cat)) c1);
          v1 = publish_properties c2
            (v\<lparr>sv_catalog_available := True, sv_catalog_digest := cc_digest cat, sv_catalog := cat\<rparr>)
      in if sv_available v1 then emit_event SnapshotEstablished v1 else v1)"

definition apply_catalog ::
  "qt_env \<Rightarrow> (file_path \<Rightarrow> qstring) \<Rightarrow> component_store \<Rightarrow> config_catalog \<Rightarrow> config_service \<Rightarrow> config_service" where
  "apply_catalog E T S cat v =
     (if \<not> is_full_sha256_digest (cc_digest cat) then set_catalog_unavailable v
      else let vc = load_for_catalog E T S cat v
           in if sv_loaded_once (fst vc) \<and> sv_available (fst vc) \<and> \<not> revalidates E cat (sv_state (fst vc))
              then set_catalog_unavailable (fst vc)
              else install_catalog cat vc)"

section \<open>What a new configuration must preserve\<close>

fun index_in :: "'a \<Rightarrow> 'a list \<Rightarrow> nat option" where
  "index_in x [] = None"
| "index_in x (y # ys) = (if x = y then Some 0 else map_option Suc (index_in x ys))"

definition region_placement :: "qstring \<Rightarrow> output_selector \<Rightarrow> string \<Rightarrow> qstring list \<Rightarrow> qstring \<Rightarrow> qstring option" where
  "region_placement k outs name region x =
     map_option (\<lambda>i. k @ Q ''/'' @ os_mode outs @ Q ''/'' @ join_texts [0x0A] (os_names outs) @ Q ''/'' @ Q name
       @ Q ''/'' @ qnumber i) (index_in x region)"

fun placement_of :: "bar_layout qmap \<Rightarrow> qstring \<Rightarrow> qstring" where
  "placement_of [] x = []"
| "placement_of ((k, l) # m) x =
     (case region_placement k (by_outputs l) ''start'' (by_start l) x of
        Some t \<Rightarrow> t
      | None \<Rightarrow>
          (case region_placement k (by_outputs l) ''center'' (by_center l) x of
             Some t \<Rightarrow> t
           | None \<Rightarrow>
               (case region_placement k (by_outputs l) ''end'' (by_end l) x of
                  Some t \<Rightarrow> t
                | None \<Rightarrow> placement_of m x)))"

text \<open>A loop that returns at its first error.\<close>

fun first_error :: "('a \<Rightarrow> 'e option) \<Rightarrow> 'a list \<Rightarrow> 'e option" where
  "first_error f [] = None"
| "first_error f (x # xs) = (case f x of Some e \<Rightarrow> Some e | None \<Rightarrow> first_error f xs)"

definition is_dormant :: "config_catalog \<Rightarrow> qstring \<Rightarrow> configured_component \<Rightarrow> bool" where
  "is_dormant cat k c \<longleftrightarrow> (case map_of (cc_entries cat) k of None \<Rightarrow> True | Some e \<Rightarrow> ck_package_digest e \<noteq> cm_package_digest c)"

definition adopts_updated_package ::
  "config_catalog \<Rightarrow> qstring \<Rightarrow> configured_component \<Rightarrow> configured_component \<Rightarrow> bool" where
  "adopts_updated_package cat k desired proposed \<longleftrightarrow>
     (case map_of (cc_entries cat) k of
        None \<Rightarrow> False
      | Some live \<Rightarrow> ck_origin live = UserOrigin \<and> cm_package_digest desired \<noteq> ck_package_digest live
          \<and> cm_package_digest proposed = ck_package_digest live \<and> \<not> cm_enabled proposed \<and> cm_grants proposed = [])"

definition places :: "bar_layout \<Rightarrow> qstring \<Rightarrow> bool" where
  "places l x \<longleftrightarrow> x \<in> set (by_start l) \<or> x \<in> set (by_center l) \<or> x \<in> set (by_end l)"

definition layout_changed :: "bar_layout qmap \<Rightarrow> qstring \<Rightarrow> qstring \<times> bar_layout \<Rightarrow> qstring option" where
  "layout_changed proposed x e =
     (if places (snd e) x \<and> map_of proposed (fst e) \<noteq> Some (snd e)
      then Some (Q ''A layout containing a dormant instance must be preserved unchanged'') else None)"

definition dormant_instance_changed ::
  "component_configuration \<Rightarrow> component_configuration \<Rightarrow> qstring \<Rightarrow> qstring \<times> configured_instance \<Rightarrow> qstring option" where
  "dormant_instance_changed current candidate k e =
     (if ci_component_id (snd e) \<noteq> k then None
      else if map_of (cg_instances candidate) (fst e) \<noteq> Some (snd e)
        \<or> placement_of (cg_bars candidate) (fst e) \<noteq> placement_of (cg_bars current) (fst e) then
        Some (Q ''Dormant instances and placements must be preserved unchanged'')
      else first_error (layout_changed (cg_bars candidate) (fst e)) (cg_bars current))"

definition dormant_record_changed ::
  "config_catalog \<Rightarrow> component_configuration \<Rightarrow> component_configuration \<Rightarrow> qstring \<times> configured_component \<Rightarrow> qstring option" where
  "dormant_record_changed cat current candidate e =
     (if \<not> is_dormant cat (fst e) (snd e) then None
      else if (case map_of (cg_components candidate) (fst e) of
            None \<Rightarrow> True
          | Some proposed \<Rightarrow> proposed \<noteq> snd e \<and> \<not> adopts_updated_package cat (fst e) (snd e) proposed) then
        Some (Q ''Dormant component records must be preserved unchanged'')
      else first_error (dormant_instance_changed current candidate (fst e)) (cg_instances current))"

definition dormant_ids :: "config_catalog \<Rightarrow> component_configuration \<Rightarrow> qstring list" where
  "dormant_ids cat current = map fst (filter (\<lambda>e. is_dormant cat (fst e) (snd e)) (cg_components current))"

definition new_dormant_record ::
  "config_catalog \<Rightarrow> component_configuration \<Rightarrow> qstring \<times> configured_component \<Rightarrow> qstring option" where
  "new_dormant_record cat current e =
     (if is_dormant cat (fst e) (snd e) \<and> fst e \<notin> set (dormant_ids cat current)
      then Some (Q ''New dormant component records are not accepted'') else None)"

definition new_dormant_instance ::
  "config_catalog \<Rightarrow> component_configuration \<Rightarrow> qstring \<times> configured_instance \<Rightarrow> qstring option" where
  "new_dormant_instance cat current e =
     (if ci_component_id (snd e) \<in> set (dormant_ids cat current) \<and> \<not> om_contains (cg_instances current) (fst e)
      then Some (Q ''New dormant component instances are not accepted'') else None)"

definition preserves_dormant_state ::
  "config_catalog \<Rightarrow> component_configuration \<Rightarrow> component_configuration \<Rightarrow> qstring option" where
  "preserves_dormant_state cat current candidate =
     (case first_error (dormant_record_changed cat current candidate) (cg_components current) of
        Some e \<Rightarrow> Some e
      | None \<Rightarrow>
          (case first_error (new_dormant_record cat current) (cg_components candidate) of
             Some e \<Rightarrow> Some e
           | None \<Rightarrow> first_error (new_dormant_instance cat current) (cg_instances candidate)))"

section \<open>Methods\<close>

definition get_snapshot :: "qt_env \<Rightarrow> config_service \<Rightarrow> (string \<times> qstring) option \<times> bytes \<times> 64 word \<times> qstring" where
  "get_snapshot E v =
     (if \<not> sv_available v then (Some (''Unavailable'', Q ''Component configuration is unavailable''), [], 0, [])
      else (None, serialize_component_configuration E (sv_state v), cg_revision (sv_state v), sv_catalog_digest v))"

text \<open>The error, and the service; the reply is its revision.\<close>

definition replace_snapshot ::
  "qt_env \<Rightarrow> (file_path \<Rightarrow> qstring) \<Rightarrow> component_store \<Rightarrow> 64 word \<Rightarrow> qstring \<Rightarrow> bytes \<Rightarrow> config_service \<Rightarrow>
    (string \<times> qstring) option \<times> config_service" where
  "replace_snapshot E T S expected_revision expected_digest bs v =
     (if \<not> sv_available v \<or> \<not> sv_writable v then
        (Some (''Unavailable'', Q ''Component configuration is not writable''), v)
      else if \<not> sv_catalog_available v then
        (Some (''CatalogUnavailable'', Q ''The authoritative component catalog is unavailable''), v)
      else if expected_revision \<noteq> cg_revision (sv_state v) then
        (Some (''StaleRevision'', Q ''The component configuration changed; read it again''), v)
      else if expected_digest \<noteq> cc_digest (sv_catalog v) then
        (Some (''StaleCatalogDigest'', Q ''The component catalog changed; read it again''), v)
      else
        let parsed = parse_component_configuration E bs (sv_catalog v); candidate = the (vr_value parsed)
        in if \<not> vr_ok parsed then
             (Some (''InvalidSnapshot'', Q ''The proposed component configuration is invalid''), v)
           else if cg_revision candidate \<noteq> expected_revision then
             (Some (''InvalidSnapshot'', Q ''The embedded revision does not match the expected revision''), v)
           else case preserves_dormant_state (sv_catalog v) (sv_state v) candidate of
               Some e \<Rightarrow> (Some (''InvalidSnapshot'', e), v)
             | None \<Rightarrow>
                 if candidate = sv_state v then (None, v)
                 else if cg_revision (sv_state v) = - 1 then
                   (Some (''RevisionExhausted'', Q ''The component configuration revision is exhausted''), v)
                 else
                   let next = candidate\<lparr>cg_revision := cg_revision (sv_state v) + 1\<rparr>
                   in case persist_configuration E T S (sv_state v) next (sv_disk v) of
                       (Some e, d) \<Rightarrow> (Some (''PersistenceFailed'', e), v\<lparr>sv_disk := d\<rparr>)
                     | (None, d) \<Rightarrow> (None, publish_properties [(Q ''Revision'', PRevision (cg_revision next))]
                         (v\<lparr>sv_disk := d, sv_state := next\<rparr>)))"

section \<open>Runs\<close>

text \<open>The requests the service handles, and the runs of the service.\<close>

datatype service_request =
    ApplyCatalog config_catalog
  | LoseCatalog
  | ReplaceSnapshot "64 word" qstring bytes
  | DiskFaults "bool list"

text \<open>\<open>DiskFaults\<close> is not a request: it says which of the next calls to the file system fail.\<close>

definition service_step ::
  "qt_env \<Rightarrow> (file_path \<Rightarrow> qstring) \<Rightarrow> component_store \<Rightarrow> service_request \<Rightarrow> config_service \<Rightarrow> config_service" where
  "service_step E T S r v =
     (case r of
        ApplyCatalog cat \<Rightarrow> apply_catalog E T S cat v
      | LoseCatalog \<Rightarrow> set_catalog_unavailable v
      | ReplaceSnapshot n digest bs \<Rightarrow> snd (replace_snapshot E T S n digest bs v)
      | DiskFaults fl \<Rightarrow> v\<lparr>sv_disk := (sv_disk v)\<lparr>fs_faults := fl\<rparr>\<rparr>)"

end
