(* ===== verification/Component_Store_Facts.thy ===== *)
theory Component_Store_Facts
  imports Component_Store Durable_Store
begin

text \<open>
  What reading and writing a snapshot of the component configuration does to the file system, and
  the contract of the pair of snapshots: the configuration that was saved last is the one that the
  next start reads, whichever calls fail in between.
\<close>

section \<open>Reading is a function of the inodes\<close>

definition stored :: "qt_env \<Rightarrow> (file_path \<Rightarrow> qstring) \<Rightarrow> config_catalog \<Rightarrow> file_path \<Rightarrow> fs \<Rightarrow> config_read" where
  "stored E T cat p s = fst (read_snapshot E T cat p (s\<lparr>fs_faults := []\<rparr>))"

lemma stored_alt:
  "stored E T cat p s =
     (case fs_nodes s p of
        None \<Rightarrow> rd_missing
      | Some n \<Rightarrow>
          if in_kind n = Symlink then rd_failure UnreadableFile (Q ''Cannot safely read '' @ path_string p @ Q '': '' @ T p)
          else if in_kind n \<noteq> Regular then
            rd_failure UnreadableFile (Q ''Component configuration is not a regular file: '' @ path_string p)
          else if maximum_configuration_bytes < int (length (in_data n)) then
            rd_failure DamagedFile (Q ''Component configuration exceeds the size limit: '' @ path_string p)
          else read_content E cat p (in_data n))"
  by (simp add: stored_def read_snapshot_def Let_def split: option.split)

lemma stored_cong: "fs_nodes s' p = fs_nodes s p \<Longrightarrow> stored E T cat p s' = stored E T cat p s"
  by (simp add: stored_alt)

lemma rd_failure_status [simp]: "rd_status (rd_failure st e) = st"
  by (simp add: rd_failure_def)

lemma read_snapshot_stored:
  assumes "read_snapshot E T cat p s = (r, s')"
  shows "fs_nodes s' = fs_nodes s" and "r = stored E T cat p s \<or> rd_status r = UnreadableFile"
proof -
  obtain f1 s1 where 1: "next_fault s = (f1, s1)" by force
  obtain f2 s2 where 2: "next_fault s1 = (f2, s2)" by force
  obtain f3 s3 where 3: "next_fault s2 = (f3, s3)" by force
  obtain f4 s4 where 4: "next_fault s3 = (f4, s4)" by force
  have n: "fs_nodes s1 = fs_nodes s" "fs_nodes s2 = fs_nodes s" "fs_nodes s3 = fs_nodes s" "fs_nodes s4 = fs_nodes s"
    using 1 2 3 4 by simp_all
  note r = assms [unfolded read_snapshot_def Let_def 1 prod.case n]
  show "fs_nodes s' = fs_nodes s" using r 2 3 4 n by (auto split: if_splits option.splits)
  show "r = stored E T cat p s \<or> rd_status r = UnreadableFile"
    using r 2 3 4 n by (auto simp: stored_alt split: if_splits option.splits)
qed

lemma read_snapshot_no_faults: "fs_faults s = [] \<Longrightarrow> read_snapshot E T cat p s = (stored E T cat p s, s)"
  by (simp add: read_snapshot_def stored_alt Let_def split: option.split)

section \<open>The contract of a writer\<close>

text \<open>A write to \<open>p\<close> leaves \<open>q\<close> alone when \<open>q\<close> is neither \<open>p\<close> nor a directory above it.\<close>

definition apart :: "file_path \<Rightarrow> file_path \<Rightarrow> bool" where
  "apart p q \<longleftrightarrow> p \<noteq> [] \<and> q \<noteq> [] \<and> p \<noteq> q \<and> q \<noteq> take (length q) p"

definition paths_apart :: "component_paths \<Rightarrow> bool" where
  "paths_apart P \<longleftrightarrow> apart (cp_active P) (cp_recovery P) \<and> apart (cp_recovery P) (cp_active P)"

lemma take_butlast_apart: "q = take (length q) (butlast p) \<Longrightarrow> q = take (length q) p"
  by (metis butlast_conv_take length_take min.absorb_iff1 min_def take_take)

locale atomic_store =
  fixes E :: qt_env and T :: "file_path \<Rightarrow> qstring" and S :: component_store
  assumes write_done: "store_write E T S p cfg s = (None, s') \<Longrightarrow> p \<noteq> [] \<Longrightarrow>
      \<exists>n. fs_nodes s' p = Some n \<and> in_kind n = Regular \<and> in_data n = serialize_component_configuration E cfg"
    and write_failed: "store_write E T S p cfg s = (Some e, s') \<Longrightarrow> p \<noteq> [] \<Longrightarrow> fs_nodes s' p = fs_nodes s p"
    and write_elsewhere: "store_write E T S p cfg s = (r, s') \<Longrightarrow> apart p q \<Longrightarrow> fs_nodes s' q = fs_nodes s q"
begin

abbreviation "active_path \<equiv> cp_active (sr_paths S)"
abbreviation "recovery_path \<equiv> cp_recovery (sr_paths S)"

lemma stored_elsewhere: "store_write E T S p cfg s = (r, s') \<Longrightarrow> apart p q \<Longrightarrow> stored E T cat q s' = stored E T cat q s"
  using write_elsewhere stored_cong by blast

lemma stored_failed: "store_write E T S p cfg s = (Some e, s') \<Longrightarrow> p \<noteq> [] \<Longrightarrow> stored E T cat p s' = stored E T cat p s"
  using write_failed stored_cong by blast

end

section \<open>The writer of the repository keeps the contract\<close>

lemma write_snapshot_nodes:
  assumes "write_snapshot E T p cfg s = (r, s')"
  obtains s1 where "mkpath s (butlast p) = (fst (mkpath s (butlast p)), s1)"
    "fs_nodes s' = (if r = None then (fs_nodes s1)(p \<mapsto> \<lparr>in_kind = Regular, in_owned = True, in_mode = 384,
       in_data = serialize_component_configuration E cfg\<rparr>) else fs_nodes s1)"
proof -
  obtain ok s1 where 0: "mkpath s (butlast p) = (ok, s1)" by force
  obtain f2 s2 where 2: "next_fault s1 = (f2, s2)" by force
  obtain f3 s3 where 3: "next_fault s2 = (f3, s3)" by force
  obtain f4 s4 where 4: "next_fault s3 = (f4, s4)" by force
  obtain f5 s5 where 5: "next_fault s4 = (f5, s5)" by force
  have n: "fs_nodes s2 = fs_nodes s1" "fs_nodes s3 = fs_nodes s1" "fs_nodes s4 = fs_nodes s1" "fs_nodes s5 = fs_nodes s1"
    using 2 3 4 5 by simp_all
  have "fs_nodes s' = (if r = None then (fs_nodes s1)(p \<mapsto> \<lparr>in_kind = Regular, in_owned = True, in_mode = 384,
       in_data = serialize_component_configuration E cfg\<rparr>) else fs_nodes s1)"
    using assms n unfolding write_snapshot_def Let_def 0 prod.case 2 3 4 5 by (auto split: if_splits)
  with 0 that show thesis by simp
qed

lemma write_snapshot_failed:
  assumes "write_snapshot E T p cfg s = (Some e, s')"
  obtains s1 where "mkpath s (butlast p) = (fst (mkpath s (butlast p)), s1)" "fs_nodes s' = fs_nodes s1"
proof -
  obtain s1 where "mkpath s (butlast p) = (fst (mkpath s (butlast p)), s1)"
    "fs_nodes s' = (if Some e = None then (fs_nodes s1)(p \<mapsto> \<lparr>in_kind = Regular, in_owned = True, in_mode = 384,
       in_data = serialize_component_configuration E cfg\<rparr>) else fs_nodes s1)" using write_snapshot_nodes [OF assms] .
  with that show thesis by simp
qed

lemma write_snapshot_elsewhere:
  assumes "write_snapshot E T p cfg s = (r, s')" "apart p q"
  shows "fs_nodes s' q = fs_nodes s q"
proof -
  obtain s1 where s1: "mkpath s (butlast p) = (fst (mkpath s (butlast p)), s1)"
    "fs_nodes s' = (if r = None then (fs_nodes s1)(p \<mapsto> \<lparr>in_kind = Regular, in_owned = True, in_mode = 384,
       in_data = serialize_component_configuration E cfg\<rparr>) else fs_nodes s1)" using write_snapshot_nodes [OF assms(1)] .
  have "q \<noteq> take (length q) (butlast p)" using assms(2) take_butlast_apart by (auto simp: apart_def)
  then have "fs_nodes s1 q = fs_nodes s q" using mkpath_outside [OF s1(1)] by blast
  moreover have "q \<noteq> p" using assms(2) by (auto simp: apart_def)
  ultimately show ?thesis using s1(2) by simp
qed

interpretation qt_store: atomic_store E T "\<lparr>sr_paths = P, sr_writer = None\<rparr>" for E T P
proof
  fix p cfg s s' e r q
  let ?w = "store_write E T \<lparr>sr_paths = P, sr_writer = None\<rparr> p cfg s"
  have w: "?w = write_snapshot E T p cfg s" by (simp add: store_write_def)
  show "\<exists>n. fs_nodes s' p = Some n \<and> in_kind n = Regular \<and> in_data n = serialize_component_configuration E cfg"
    if "?w = (None, s')" "p \<noteq> []"
    by (rule write_snapshot_nodes [OF that(1) [unfolded w]]) simp
  show "fs_nodes s' p = fs_nodes s p" if failed: "?w = (Some e, s')" and p: "p \<noteq> []"
  proof -
    obtain s1 where s1: "mkpath s (butlast p) = (fst (mkpath s (butlast p)), s1)" "fs_nodes s' = fs_nodes s1"
      using write_snapshot_failed [OF failed [unfolded w]] .
    have "p \<noteq> take (length p) (butlast p)" by (rule take_prefix_neq [OF p])
    with s1 mkpath_outside show ?thesis by metis
  qed
  show "fs_nodes s' q = fs_nodes s q" if "?w = (r, s')" "apart p q"
    using write_snapshot_elsewhere that unfolding w by blast
qed

section \<open>The configuration a pair of snapshots holds\<close>

text \<open>A configuration that is read back as it is written, and that no migration changes.\<close>

definition settled :: "qt_env \<Rightarrow> config_catalog \<Rightarrow> component_configuration \<Rightarrow> bool" where
  "settled E cat cfg \<longleftrightarrow> migration_candidate E cfg cat = None
     \<and> parse_component_configuration E (serialize_component_configuration E cfg) cat = vr_accept cfg"

definition readable_status :: "file_status \<Rightarrow> bool" where
  "readable_status st \<longleftrightarrow> st \<noteq> UnsupportedFile \<and> st \<noteq> UnreadableFile"

definition valid_read :: "component_configuration \<Rightarrow> config_read" where
  "valid_read cfg = \<lparr>rd_status = ValidFile, rd_state = cfg, rd_error = []\<rparr>"

lemma valid_read_fields [simp]: "rd_status (valid_read cfg) = ValidFile" "rd_state (valid_read cfg) = cfg"
  by (simp_all add: valid_read_def)

lemma parsed_size: "parse_component_configuration E bs cat = vr_accept cfg \<Longrightarrow> int (length bs) \<le> maximum_configuration_bytes"
  by (cases rule: parse_object_cases [of E maximum_configuration_bytes maximum_configuration_depth bs])
    (auto simp: parse_component_configuration_def Let_def)

lemma stored_written:
  assumes "fs_nodes s p = Some n" "in_kind n = Regular" "in_data n = serialize_component_configuration E cfg"
    and "parse_component_configuration E (serialize_component_configuration E cfg) cat = vr_accept cfg"
  shows "stored E T cat p s = valid_read cfg"
  using assms parsed_size [OF assms(4)] by (simp add: stored_alt read_content_def valid_read_def)

definition config_holds ::
  "qt_env \<Rightarrow> (file_path \<Rightarrow> qstring) \<Rightarrow> component_store \<Rightarrow> config_catalog \<Rightarrow>
    component_configuration \<times> fs \<Rightarrow> component_configuration \<Rightarrow> bool" where
  "config_holds E T S cat d cfg \<longleftrightarrow> fst d = cfg \<and> paths_apart (sr_paths S) \<and> settled E cat cfg
     \<and> stored E T cat (cp_active (sr_paths S)) (snd d) = valid_read cfg
     \<and> readable_status (rd_status (stored E T cat (cp_recovery (sr_paths S)) (snd d)))"

text \<open>The service remembers the current configuration and replaces it when it was persisted.\<close>

definition config_save ::
  "qt_env \<Rightarrow> (file_path \<Rightarrow> qstring) \<Rightarrow> component_store \<Rightarrow> component_configuration \<Rightarrow> component_configuration \<times> fs \<Rightarrow>
    bool \<times> component_configuration \<times> fs" where
  "config_save E T S next d =
     (case persist_configuration E T S (fst d) next (snd d) of
        (None, s) \<Rightarrow> (True, next, s)
      | (Some e, s) \<Rightarrow> (False, fst d, s))"

definition config_restart ::
  "qt_env \<Rightarrow> (file_path \<Rightarrow> qstring) \<Rightarrow> component_store \<Rightarrow> config_catalog \<Rightarrow> component_configuration \<times> fs \<Rightarrow>
    component_configuration option" where
  "config_restart E T S cat d =
     (let r = fst (load_configuration E T S cat None ((snd d)\<lparr>fs_faults := []\<rparr>))
      in if ld_available r then Some (ld_state r) else None)"

lemma reload_no_faults:
  "load_configuration E T S cat legacy (s\<lparr>fs_faults := []\<rparr>) =
     (let active = stored E T cat (cp_active (sr_paths S)) s; recovery = stored E T cat (cp_recovery (sr_paths S)) s;
          d = s\<lparr>fs_faults := []\<rparr>
      in if rd_status active = ValidFile then load_active E T S cat active recovery d
        else if rd_status active = UnsupportedFile then (load_refused LoadUnsupported (rd_error active), d)
        else if rd_status active = UnreadableFile then (load_refused LoadUnavailable (rd_error active), d)
        else if rd_status recovery = UnsupportedFile then (load_refused LoadUnsupported (rd_error recovery), d)
        else if rd_status recovery = UnreadableFile then (load_refused LoadUnavailable (rd_error recovery), d)
        else if rd_status recovery = ValidFile then load_recovery E T S cat recovery d
        else load_defaults E T S cat (rd_status active = MissingFile \<and> rd_status recovery = MissingFile) legacy d)"
proof -
  have "stored E T cat p (s\<lparr>fs_faults := []\<rparr>) = stored E T cat p s" for p by (rule stored_cong) simp
  then have "read_snapshot E T cat p (s\<lparr>fs_faults := []\<rparr>) = (stored E T cat p s, s\<lparr>fs_faults := []\<rparr>)" for p
    using read_snapshot_no_faults [of "s\<lparr>fs_faults := []\<rparr>" E T cat p] by simp
  then show ?thesis unfolding load_configuration_def by (simp add: Let_def)
qed

lemma migrate_none: "migration_candidate E cfg cat = None \<Longrightarrow>
    migrate_configuration E T S cfg cat s = (\<lparr>mg_changed = False, mg_writable = True, mg_state = cfg, mg_error = []\<rparr>, s)"
  by (simp add: migrate_configuration_def)

lemma load_active_settled:
  assumes "migration_candidate E (rd_state a) cat = None"
  shows "ld_available (fst (load_active E T S cat a r s)) \<and> ld_state (fst (load_active E T S cat a r s)) = rd_state a"
  by (auto simp: load_active_def migrate_none [OF assms] load_read_only_def load_ready_def split: prod.split option.split)

lemma config_restart_holds: "config_holds E T S cat d cfg \<Longrightarrow> config_restart E T S cat d = Some cfg"
  using load_active_settled [of E "valid_read cfg" cat]
  by (simp add: config_restart_def reload_no_faults config_holds_def settled_def Let_def)

sublocale atomic_store < saves: durable_store "config_holds E T S cat" "config_save E T S" "config_restart E T S cat" "\<lambda>t _. settled E cat t"
  for cat
proof
  fix d :: "component_configuration \<times> fs" and s t d'
  assume h: "config_holds E T S cat d s" and new: "settled E cat t"
  obtain c s0 where d: "d = (c, s0)" by force
  from h have P: "apart active_path recovery_path" "apart recovery_path active_path" and c: "c = s" and st: "settled E cat s"
    and act: "stored E T cat active_path s0 = valid_read s"
    and rec: "readable_status (rd_status (stored E T cat recovery_path s0))"
    by (simp_all add: config_holds_def paths_apart_def d)
  have ne: "active_path \<noteq> []" "recovery_path \<noteq> []" using P by (simp_all add: apart_def)
  have ok: "readable_status (rd_status (valid_read x))" for x by (simp add: readable_status_def)
  have written: "stored E T cat p s' = valid_read x" if "store_write E T S p x s'' = (None, s')" "p \<noteq> []" "settled E cat x" for p x s'' s'
    using write_done [OF that(1,2)] stored_written that(3) by (auto simp: settled_def)
  obtain e1 s1 where 1: "store_write E T S recovery_path s s0 = (e1, s1)" by force
  have act1: "stored E T cat active_path s1 = valid_read s" using stored_elsewhere [OF 1 P(2)] act by simp
  have rec1: "readable_status (rd_status (stored E T cat recovery_path s1))"
    using 1 ne st rec ok stored_failed written by (cases e1) simp_all
  obtain e2 s2 where 2: "store_write E T S active_path t s1 = (e2, s2)" by force
  have rec2: "readable_status (rd_status (stored E T cat recovery_path s2))" using stored_elsewhere [OF 2 P(1)] rec1 by simp
  obtain e3 s3 where 3: "store_write E T S recovery_path t s2 = (e3, s3)" by force
  have rec3: "readable_status (rd_status (stored E T cat recovery_path s3))"
    using 3 ne new rec2 ok stored_failed written by (cases e3) simp_all
  have p: "persist_configuration E T S (fst d) t (snd d)
      = (if e1 \<noteq> None then (e1, s1) else if e2 \<noteq> None then (e2, s2) else (None, s3))"
    by (auto simp: persist_configuration_def d c 1 2 3 split: option.split)
  show "config_holds E T S cat d' t" if "config_save E T S t d = (True, d')"
  proof -
    from that p have e: "e1 = None" "e2 = None" and d': "d' = (t, s3)"
      by (auto simp: config_save_def split: option.splits prod.splits if_splits)
    have "stored E T cat active_path s3 = valid_read t"
      using written [OF 2 [unfolded e] ne(1) new] stored_elsewhere [OF 3 P(2)] by simp
    then show ?thesis using P new rec3 by (simp add: config_holds_def d' paths_apart_def)
  qed
  show "config_holds E T S cat d' s" if "config_save E T S t d = (False, d')"
  proof -
    from that p consider "e1 \<noteq> None" "d' = (s, s1)" | "e1 = None" "e2 \<noteq> None" "d' = (s, s2)"
      by (auto simp: config_save_def d c split: option.splits prod.splits if_splits)
    then show ?thesis
    proof cases
      case 1
      then show ?thesis using P st act1 rec1 by (simp add: config_holds_def paths_apart_def)
    next
      case 2
      then obtain e where "e2 = Some e" by blast
      with \<open>store_write E T S active_path t s1 = (e2, s2)\<close> have "stored E T cat active_path s2 = valid_read s"
        using stored_failed ne(1) act1 by simp
      with 2 show ?thesis using P st rec2 by (simp add: config_holds_def paths_apart_def)
    qed
  qed
next
  show "config_restart E T S cat d = Some s" if "config_holds E T S cat d s" for d s
    using that by (rule config_restart_holds)
qed

end
