(* ===== verification/Component_Service_Facts.thy ===== *)
theory Component_Service_Facts
  imports Component_Service Component_Store_Facts
begin

text \<open>
  What the configuration of the service is in every state: well formed whenever it is available,
  changed only together with its revision, and with the dormant records preserved.
\<close>

section \<open>Loaded configurations\<close>

lemma configuration_ok_revision [simp]: "configuration_ok (cfg\<lparr>cg_revision := n\<rparr>) = configuration_ok cfg"
  by (simp add: configuration_ok_def)

lemma configuration_ok_instance:
  assumes ok: "configuration_ok cfg" and i: "map_of (cg_instances cfg) k = Some i"
  shows "configuration_ok (cfg\<lparr>cg_instances := om_insert k (i\<lparr>ci_settings := m\<rparr>) (cg_instances cfg)\<rparr>)"
proof -
  have inv: "om_inv (cg_instances cfg)" using ok by (simp add: configuration_ok_def)
  have keys: "fst ` set (om_insert k (i\<lparr>ci_settings := m\<rparr>) (cg_instances cfg)) = fst ` set (cg_instances cfg)"
    using map_of_SomeD [OF i] by (force simp: om_insert_keys)
  have "list_all (\<lambda>(k, i). om_contains (cg_components cfg) (ci_component_id i)) (cg_instances cfg)"
    using ok by (simp add: configuration_ok_def)
  moreover have "om_contains (cg_components cfg) (ci_component_id i)"
    using calculation map_of_SomeD [OF i] by (auto simp: list_all_iff)
  ultimately have "list_all (\<lambda>(k, i). om_contains (cg_components cfg) (ci_component_id i))
      (om_insert k (i\<lparr>ci_settings := m\<rparr>) (cg_instances cfg))" by (intro list_all_om_insert) simp_all
  then show ?thesis using ok inv i keys by (simp add: configuration_ok_def length_om_insert)
qed

definition read_ok :: "qt_env \<Rightarrow> config_catalog \<Rightarrow> config_read \<Rightarrow> bool" where
  "read_ok E cat r \<longleftrightarrow> (rd_status r = ValidFile \<longrightarrow> (\<exists>bs. parse_component_configuration E bs cat = vr_accept (rd_state r)))"

lemma read_content_ok: "read_ok E cat (read_content E cat p bs)"
  by (auto simp: read_ok_def read_content_def Let_def dest: vr_ok_accept split: if_splits)

lemma stored_read_ok: "read_ok E cat (stored E T cat p s)"
  using read_content_ok by (auto simp: stored_alt read_ok_def rd_missing_def split: option.split)

lemma read_snapshot_ok: "read_snapshot E T cat p s = (r, s') \<Longrightarrow> read_ok E cat r"
  using read_snapshot_stored(2) stored_read_ok by (fastforce simp: read_ok_def)

lemma migration_candidate_parsed:
  assumes "migration_candidate E cur cat = Some next"
  shows "parse_component_configuration E (serialize_component_configuration E next) cat = vr_accept next"
proof -
  have "vr_ok (parse_component_configuration E (serialize_component_configuration E next) cat)
    \<and> the (vr_value (parse_component_configuration E (serialize_component_configuration E next) cat)) = next"
    using assms unfolding migration_candidate_def Let_def by (auto split: if_splits option.splits)
  then show ?thesis using vr_ok_accept by metis
qed

lemma migrate_configuration_parsed:
  assumes "migrate_configuration E T S cur cat s = (m, s')" "\<exists>bs. parse_component_configuration E bs cat = vr_accept cur"
  shows "\<exists>bs. parse_component_configuration E bs cat = vr_accept (mg_state m)"
  using assms migration_candidate_parsed [of E cur cat]
  by (cases "migration_candidate E cur cat") (auto simp: migrate_configuration_def split: option.splits prod.splits)

lemma initial_configuration_ok:
  assumes "configuration_ok cfg" "protected_default_error cfg cat = None"
  shows "configuration_ok (initial_configuration cfg first legacy)"
proof -
  obtain i where "map_of (cg_instances cfg) workspace_switcher_default_instance_id = Some i"
    using assms(2) by (auto simp: protected_default_error_def first_run_composition_def split: option.splits if_splits)
  then show ?thesis
    using assms(1) configuration_ok_instance
    by (auto simp: initial_configuration_def Let_def split: option.split)
qed

lemma load_configuration_ok:
  assumes idem: "normal_idempotent E" and cat: "catalog_ok cat" and l: "load_configuration E T S cat legacy s = (r, s')"
    and av: "ld_available r"
  shows "configuration_ok (ld_state r)"
proof -
  note ok = parsed_configuration_ok [OF idem cat]
  obtain active s1 where a: "read_snapshot E T cat (cp_active (sr_paths S)) s = (active, s1)" by force
  obtain recovery s2 where rec: "read_snapshot E T cat (cp_recovery (sr_paths S)) s1 = (recovery, s2)" by force
  have pa: "rd_status active = ValidFile \<Longrightarrow> \<exists>bs. parse_component_configuration E bs cat = vr_accept (rd_state active)"
    and pr: "rd_status recovery = ValidFile \<Longrightarrow> \<exists>bs. parse_component_configuration E bs cat = vr_accept (rd_state recovery)"
    using read_snapshot_ok [OF a] read_snapshot_ok [OF rec] by (simp_all add: read_ok_def)
  note l = l [unfolded load_configuration_def a rec prod.case]
  consider (active) "rd_status active = ValidFile" "load_active E T S cat active recovery s2 = (r, s')"
    | (recovery) "rd_status recovery = ValidFile" "load_recovery E T S cat recovery s2 = (r, s')"
    | (defaults) first where "load_defaults E T S cat first legacy s2 = (r, s')"
    using l av by (auto simp: load_refused_def split: if_splits)
  then show ?thesis
  proof cases
    case active
    obtain m s3 where m: "migrate_configuration E T S (rd_state active) cat s2 = (m, s3)" by force
    have "ld_state r = rd_state active \<or> ld_state r = mg_state m"
      using active(2) by (auto simp: load_active_def m load_read_only_def load_ready_def load_migrated_def
          split: if_splits prod.splits option.splits)
    then show ?thesis using migrate_configuration_parsed [OF m pa [OF active(1)]] pa [OF active(1)] ok by auto
  next
    case recovery
    obtain m s3 where m: "migrate_configuration E T S (rd_state recovery) cat s2 = (m, s3)" by force
    have "ld_state r = rd_state recovery \<or> ld_state r = mg_state m"
      using recovery(2) by (auto simp: load_recovery_def m load_read_only_def load_ready_def load_migrated_def
          split: if_splits prod.splits option.splits)
    then show ?thesis using migrate_configuration_parsed [OF m pr [OF recovery(1)]] pr [OF recovery(1)] ok by auto
  next
    case defaults
    obtain d s3 where d: "read_snapshot E T cat (cp_defaults (sr_paths S)) s2 = (d, s3)" by force
    have "rd_status d = ValidFile" "protected_default_error (rd_state d) cat = None"
      "ld_state r = initial_configuration (rd_state d) first legacy"
      using defaults av by (auto simp: load_defaults_def d load_refused_def load_ready_def Let_def
          split: if_splits option.splits prod.splits)
    then show ?thesis using initial_configuration_ok read_snapshot_ok [OF d] ok by (auto simp: read_ok_def)
  qed
qed

section \<open>Steps of the service\<close>

lemma events_fields [simp]:
  "sv_state (publish_properties c v) = sv_state v" "sv_available (publish_properties c v) = sv_available v"
  "sv_loaded_once (publish_properties c v) = sv_loaded_once v" "sv_writable (publish_properties c v) = sv_writable v"
  "sv_catalog (publish_properties c v) = sv_catalog v" "sv_disk (publish_properties c v) = sv_disk v"
  "sv_state (emit_event e v) = sv_state v" "sv_available (emit_event e v) = sv_available v"
  "sv_loaded_once (emit_event e v) = sv_loaded_once v" "sv_writable (emit_event e v) = sv_writable v"
  "sv_catalog (emit_event e v) = sv_catalog v" "sv_disk (emit_event e v) = sv_disk v"
  "sv_catalog_available (publish_properties c v) = sv_catalog_available v"
  "sv_catalog_available (emit_event e v) = sv_catalog_available v"
  by (simp_all add: publish_properties_def emit_event_def)

lemma set_catalog_unavailable_fields [simp]:
  "sv_state (set_catalog_unavailable v) = sv_state v" "sv_available (set_catalog_unavailable v) = sv_available v"
  "sv_loaded_once (set_catalog_unavailable v) = sv_loaded_once v"
  by (simp_all add: set_catalog_unavailable_def)

lemma install_catalog_fields [simp]:
  "sv_state (install_catalog cat vc) = sv_state (fst vc)" "sv_available (install_catalog cat vc) = sv_available (fst vc)"
  "sv_loaded_once (install_catalog cat vc) = sv_loaded_once (fst vc)" "sv_catalog (install_catalog cat vc) = cat"
  "sv_writable (install_catalog cat vc) = sv_writable (fst vc)" "sv_disk (install_catalog cat vc) = sv_disk (fst vc)"
  "sv_catalog_available (install_catalog cat vc)"
  by (simp_all add: install_catalog_def Let_def)

lemma set_load_state_fields [simp]:
  "sv_state (fst (set_load_state st vc)) = sv_state (fst vc)" "sv_available (fst (set_load_state st vc)) = sv_available (fst vc)"
  "sv_loaded_once (fst (set_load_state st vc)) = sv_loaded_once (fst vc)"
  "sv_writable (fst (set_load_state st vc)) = sv_writable (fst vc)" "sv_disk (fst (set_load_state st vc)) = sv_disk (fst vc)"
  by (simp_all add: set_load_state_def)

lemma announce_revision_fst [simp]: "fst (announce_revision vc) = fst vc"
  by (simp add: announce_revision_def)

text \<open>The next revision of a configuration that replaces another.\<close>

definition follows_on :: "component_configuration \<Rightarrow> component_configuration \<Rightarrow> bool" where
  "follows_on cfg cfg' \<longleftrightarrow> cfg' = cfg \<or> unat (cg_revision cfg') = Suc (unat (cg_revision cfg))"

lemma unat_successor: "(n :: 64 word) \<noteq> - 1 \<Longrightarrow> unat (n + 1) = Suc (unat n)"
  by (metis add.commute add_eq_0_iff unat_1 unatSuc)

lemma migration_candidate_follows: "migration_candidate E cur cat = Some next \<Longrightarrow> follows_on cur next"
  by (auto simp: migration_candidate_def migration_applies_def follows_on_def Let_def unat_successor
      split: if_splits option.splits)

lemma migrate_configuration_follows: "migrate_configuration E T S cur cat s = (m, s') \<Longrightarrow> follows_on cur (mg_state m)"
  by (auto simp: migrate_configuration_def follows_on_def split: option.splits prod.splits
      dest: migration_candidate_follows [unfolded follows_on_def])

definition service_inv :: "config_service \<Rightarrow> bool" where
  "service_inv v \<longleftrightarrow> (sv_available v \<longrightarrow> sv_loaded_once v \<and> configuration_ok (sv_state v))"

lemma first_load_fields:
  assumes "load_configuration E T S cat (sv_legacy v) (sv_disk v) = (r, d)"
  shows "sv_available (fst (first_load E T S cat v)) = ld_available r"
    "sv_loaded_once (fst (first_load E T S cat v)) = ld_available r"
    "sv_state (fst (first_load E T S cat v)) = ld_state r"
    "sv_writable (fst (first_load E T S cat v)) = ld_writable r" "sv_disk (fst (first_load E T S cat v)) = d"
  by (auto simp: first_load_def assms Let_def)

lemma retry_load_fields:
  assumes "load_configuration E T S cat None (sv_disk v) = (r, d)"
  shows "sv_available (fst (retry_load E T S cat v)) = sv_available v"
    "sv_loaded_once (fst (retry_load E T S cat v)) = sv_loaded_once v"
    "sv_state (fst (retry_load E T S cat v)) = sv_state v
      \<or> ld_available r \<and> recognizes_migration E (sv_state v) (ld_state r) cat \<and> sv_state (fst (retry_load E T S cat v)) = ld_state r"
  by (auto simp: retry_load_def assms Let_def)

lemma migrate_loaded_fields:
  assumes "migrate_configuration E T S (sv_state v) cat (sv_disk v) = (m, d)"
  shows "sv_available (fst (migrate_loaded E T S cat v)) = sv_available v"
    "sv_loaded_once (fst (migrate_loaded E T S cat v)) = sv_loaded_once v"
    "sv_state (fst (migrate_loaded E T S cat v)) = sv_state v \<or> sv_state (fst (migrate_loaded E T S cat v)) = mg_state m"
  by (auto simp: migrate_loaded_def assms Let_def)

text \<open>What a catalog does to an available service: nothing, or a migration.\<close>

lemma load_for_catalog_available:
  assumes "sv_available v" "sv_loaded_once v"
  shows "sv_available (fst (load_for_catalog E T S cat v))" "sv_loaded_once (fst (load_for_catalog E T S cat v))"
    and "sv_state (fst (load_for_catalog E T S cat v)) = sv_state v
      \<or> migration_candidate E (sv_state v) cat = Some (sv_state (fst (load_for_catalog E T S cat v)))"
proof -
  obtain r d where r: "load_configuration E T S cat None (sv_disk v) = (r, d)" by force
  obtain m d' where m: "migrate_configuration E T S (sv_state v) cat (sv_disk v) = (m, d')" by force
  have "mg_state m = sv_state v \<or> migration_candidate E (sv_state v) cat = Some (mg_state m)"
    using m by (auto simp: migrate_configuration_def split: option.splits prod.splits)
  then show "sv_state (fst (load_for_catalog E T S cat v)) = sv_state v
      \<or> migration_candidate E (sv_state v) cat = Some (sv_state (fst (load_for_catalog E T S cat v)))"
    using retry_load_fields(3) [OF r] migrate_loaded_fields(3) [OF m] assms
    by (auto simp: load_for_catalog_def recognizes_migration_def)
  show "sv_available (fst (load_for_catalog E T S cat v))" "sv_loaded_once (fst (load_for_catalog E T S cat v))"
    using retry_load_fields(1,2) [OF r] migrate_loaded_fields(1,2) [OF m] assms
    by (simp_all add: load_for_catalog_def)
qed

lemma load_for_catalog_unavailable:
  assumes "\<not> sv_available v" "load_configuration E T S cat (sv_legacy v) (sv_disk v) = (r, d)"
    and "sv_available (fst (load_for_catalog E T S cat v))"
  shows "sv_loaded_once (fst (load_for_catalog E T S cat v))"
    and "ld_available r \<and> sv_state (fst (load_for_catalog E T S cat v)) = ld_state r"
  using first_load_fields [OF assms(2)] assms(1,3) by (simp_all add: load_for_catalog_def split: if_splits)

section \<open>The invariant\<close>

lemma apply_catalog_fields:
  "\<not> is_full_sha256_digest (cc_digest cat) \<Longrightarrow> sv_state (apply_catalog E T S cat v) = sv_state v
    \<and> sv_available (apply_catalog E T S cat v) = sv_available v \<and> sv_loaded_once (apply_catalog E T S cat v) = sv_loaded_once v"
  "is_full_sha256_digest (cc_digest cat) \<Longrightarrow> sv_state (apply_catalog E T S cat v) = sv_state (fst (load_for_catalog E T S cat v))
    \<and> sv_available (apply_catalog E T S cat v) = sv_available (fst (load_for_catalog E T S cat v))
    \<and> sv_loaded_once (apply_catalog E T S cat v) = sv_loaded_once (fst (load_for_catalog E T S cat v))"
  by (simp_all add: apply_catalog_def Let_def)

lemma replace_snapshot_cases:
  obtains (same) e d where "replace_snapshot E T S n digest bs v = (e, v\<lparr>sv_disk := d\<rparr>)"
  | (replaced) candidate d where "sv_available v" "sv_writable v" "sv_catalog_available v" "n = cg_revision (sv_state v)"
      "digest = cc_digest (sv_catalog v)" "parse_component_configuration E bs (sv_catalog v) = vr_accept candidate"
      "cg_revision candidate = n" "preserves_dormant_state (sv_catalog v) (sv_state v) candidate = None"
      "candidate \<noteq> sv_state v" "n \<noteq> - 1"
      "persist_configuration E T S (sv_state v) (candidate\<lparr>cg_revision := n + 1\<rparr>) (sv_disk v) = (None, d)"
      "replace_snapshot E T S n digest bs v = (None, publish_properties [(Q ''Revision'', PRevision (n + 1))]
        (v\<lparr>sv_disk := d, sv_state := candidate\<lparr>cg_revision := n + 1\<rparr>\<rparr>))"
proof -
  let ?parsed = "parse_component_configuration E bs (sv_catalog v)"
  define candidate where "candidate = the (vr_value ?parsed)"
  obtain e d where p: "persist_configuration E T S (sv_state v) (candidate\<lparr>cg_revision := cg_revision (sv_state v) + 1\<rparr>) (sv_disk v) = (e, d)"
    by force
  have unchanged: "v\<lparr>sv_disk := sv_disk v\<rparr> = v" by simp
  note def = replace_snapshot_def [of E T S n digest bs v, unfolded Let_def, folded candidate_def, unfolded p]
  show thesis
  proof (cases "sv_available v \<and> sv_writable v \<and> sv_catalog_available v \<and> n = cg_revision (sv_state v)
      \<and> digest = cc_digest (sv_catalog v) \<and> vr_ok ?parsed \<and> cg_revision candidate = n
      \<and> preserves_dormant_state (sv_catalog v) (sv_state v) candidate = None \<and> candidate \<noteq> sv_state v \<and> n \<noteq> - 1 \<and> e = None")
    case True
    then have ok: "?parsed = vr_accept candidate" using vr_ok_accept by (auto simp: candidate_def)
    have "replace_snapshot E T S n digest bs v = (None, publish_properties [(Q ''Revision'', PRevision (n + 1))]
        (v\<lparr>sv_disk := d, sv_state := candidate\<lparr>cg_revision := n + 1\<rparr>\<rparr>))"
    proof -
      have "cg_revision (sv_state v) \<noteq> - 1" using True by metis
      with True show ?thesis unfolding def by simp
    qed
    with True p ok show thesis by (intro replaced [of candidate d]) auto
  next
    case False
    have "snd (replace_snapshot E T S n digest bs v) \<in> {v, v\<lparr>sv_disk := d\<rparr>}"
    proof (cases e)
      case None
      consider "\<not> sv_available v \<or> \<not> sv_writable v" | "sv_available v" "sv_writable v" "\<not> sv_catalog_available v"
        | "sv_available v" "sv_writable v" "sv_catalog_available v" "n \<noteq> cg_revision (sv_state v) \<or> digest \<noteq> cc_digest (sv_catalog v)"
        | "n = cg_revision (sv_state v)" "digest = cc_digest (sv_catalog v)" "\<not> vr_ok ?parsed \<or> cg_revision candidate \<noteq> n"
        | x where "vr_ok ?parsed" "preserves_dormant_state (sv_catalog v) (sv_state v) candidate = Some x"
        | "preserves_dormant_state (sv_catalog v) (sv_state v) candidate = None" "candidate = sv_state v \<or> cg_revision (sv_state v) = - 1"
        using False None by (cases "preserves_dormant_state (sv_catalog v) (sv_state v) candidate") metis+
      then show ?thesis unfolding def by cases auto
    next
      case (Some x)
      have branch: "snd (if P then (a, v) else R) \<in> A" if "v \<in> A" "snd R \<in> A" for P a R A
        using that by simp
      show ?thesis unfolding def Some
        by (intro branch; cases "preserves_dormant_state (sv_catalog v) (sv_state v) candidate") simp_all
    qed
    then have "\<exists>d'. snd (replace_snapshot E T S n digest bs v) = v\<lparr>sv_disk := d'\<rparr>" using unchanged by (metis insertE singletonD)
    then have "\<exists>e' d'. replace_snapshot E T S n digest bs v = (e', v\<lparr>sv_disk := d'\<rparr>)" by (metis prod.collapse)
    then show thesis using same by blast
  qed
qed

lemma service_step_inv:
  assumes idem: "normal_idempotent E" and cat: "\<And>cat. q = ApplyCatalog cat \<Longrightarrow> catalog_ok cat"
    and catalog: "catalog_ok (sv_catalog v)" and inv: "service_inv v"
  shows "service_inv (service_step E T S q v)"
proof (cases q)
  case (ApplyCatalog cat)
  obtain r d where r: "load_configuration E T S cat (sv_legacy v) (sv_disk v) = (r, d)" by force
  let ?w = "fst (load_for_catalog E T S cat v)"
  have "service_inv ?w"
  proof (cases "sv_available v")
    case True
    with inv have "sv_loaded_once v" "configuration_ok (sv_state v)" by (simp_all add: service_inv_def)
    with load_for_catalog_available [OF True this(1), of E T S cat] migration_candidate_parsed
      parsed_configuration_ok [OF idem] assms(2) [OF ApplyCatalog]
    show ?thesis by (metis service_inv_def)
  next
    case False
    with load_for_catalog_unavailable [OF False r] load_configuration_ok [OF idem assms(2) [OF ApplyCatalog] r]
    show ?thesis by (auto simp: service_inv_def)
  qed
  with inv show ?thesis
    using apply_catalog_fields [of cat E T S v] by (cases "is_full_sha256_digest (cc_digest cat)") (simp_all add: service_step_def ApplyCatalog service_inv_def)
next
  case (ReplaceSnapshot n digest bs)
  show ?thesis
  proof (cases rule: replace_snapshot_cases [of E T S n digest bs v])
    case (same e d)
    with inv show ?thesis by (simp add: service_step_def ReplaceSnapshot service_inv_def)
  next
    case (replaced candidate d)
    then have "configuration_ok candidate" using parsed_configuration_ok [OF idem catalog] by blast
    with replaced inv show ?thesis by (simp add: service_step_def ReplaceSnapshot service_inv_def)
  qed
qed (use inv in \<open>simp_all add: service_step_def service_inv_def\<close>)

lemma service_step_catalog:
  "sv_catalog (service_step E T S q v) = sv_catalog v \<or> (\<exists>cat. q = ApplyCatalog cat \<and> sv_catalog (service_step E T S q v) = cat)"
proof (cases q)
  case (ApplyCatalog cat)
  have "sv_catalog (fst (load_for_catalog E T S cat v)) = sv_catalog v"
    by (simp add: load_for_catalog_def first_load_def retry_load_def migrate_loaded_def set_load_state_def Let_def split: prod.split)
  then show ?thesis
    by (simp add: service_step_def ApplyCatalog apply_catalog_def install_catalog_def set_catalog_unavailable_def Let_def)
next
  case (ReplaceSnapshot n digest bs)
  then show ?thesis
    by (cases rule: replace_snapshot_cases [of E T S n digest bs v]) (simp_all add: service_step_def)
qed (simp_all add: service_step_def set_catalog_unavailable_def)

definition catalogs_ok :: "service_request list \<Rightarrow> bool" where
  "catalogs_ok qs \<longleftrightarrow> list_all (\<lambda>q. case q of ApplyCatalog cat \<Rightarrow> catalog_ok cat | _ \<Rightarrow> True) qs"

lemma service_run_inv:
  assumes "normal_idempotent E"
  shows "catalogs_ok qs \<Longrightarrow> catalog_ok (sv_catalog v) \<Longrightarrow> service_inv v \<Longrightarrow> service_inv (fold (service_step E T S) qs v)"
proof (induction qs arbitrary: v)
  case (Cons q qs)
  have q: "\<And>cat. q = ApplyCatalog cat \<Longrightarrow> catalog_ok cat" using Cons.prems(1) by (auto simp: catalogs_ok_def)
  have "catalog_ok (sv_catalog (service_step E T S q v))"
    using service_step_catalog [of E T S q v] q Cons.prems(2) by metis
  with Cons.IH [of "service_step E T S q v"] Cons.prems service_step_inv [OF assms q Cons.prems(2,3)] show ?case
    by (simp add: catalogs_ok_def)
qed simp

lemma new_service_inv: "service_inv (new_service legacy d)" "catalog_ok (sv_catalog (new_service legacy d))"
  by (simp_all add: service_inv_def new_service_def catalog_ok_def)

section \<open>Revisions\<close>

lemma service_step_loaded: "sv_available v \<longrightarrow> sv_loaded_once v \<Longrightarrow>
    sv_available (service_step E T S q v) \<longrightarrow> sv_loaded_once (service_step E T S q v)"
proof (cases q)
  case (ApplyCatalog cat)
  obtain r d where r: "load_configuration E T S cat (sv_legacy v) (sv_disk v) = (r, d)" by force
  assume "sv_available v \<longrightarrow> sv_loaded_once v"
  then show ?thesis
    using apply_catalog_fields [of cat E T S v] load_for_catalog_available [of v E T S cat] load_for_catalog_unavailable(1) [OF _ r]
    by (simp add: service_step_def ApplyCatalog) metis
next
  case (ReplaceSnapshot n digest bs)
  then show "sv_available v \<longrightarrow> sv_loaded_once v \<Longrightarrow> ?thesis"
    by (cases rule: replace_snapshot_cases [of E T S n digest bs v]) (simp_all add: service_step_def)
qed (simp_all add: service_step_def)

lemma service_step_follows:
  assumes "sv_available v" "sv_loaded_once v"
  shows "sv_available (service_step E T S q v)" "follows_on (sv_state v) (sv_state (service_step E T S q v))"
proof -
  have "sv_available (service_step E T S q v) \<and> follows_on (sv_state v) (sv_state (service_step E T S q v))"
  proof (cases q)
    case (ApplyCatalog cat)
    show ?thesis
      using apply_catalog_fields [of cat E T S v] load_for_catalog_available [OF assms, of E T S cat] migration_candidate_follows assms
      by (simp add: service_step_def ApplyCatalog follows_on_def) metis
  next
    case (ReplaceSnapshot n digest bs)
    show ?thesis
    proof (cases rule: replace_snapshot_cases [of E T S n digest bs v])
      case (replaced candidate d)
      then show ?thesis using assms by (simp add: service_step_def ReplaceSnapshot follows_on_def unat_successor)
    qed (use assms in \<open>simp add: service_step_def ReplaceSnapshot follows_on_def\<close>)
  qed (use assms in \<open>simp_all add: service_step_def follows_on_def\<close>)
  then show "sv_available (service_step E T S q v)" "follows_on (sv_state v) (sv_state (service_step E T S q v))" by simp_all
qed

lemma service_run_follows:
  assumes "sv_available v" "sv_loaded_once v"
  shows "sv_available (fold (service_step E T S) qs v)"
    and "unat (cg_revision (sv_state v)) \<le> unat (cg_revision (sv_state (fold (service_step E T S) qs v)))"
    and "cg_revision (sv_state (fold (service_step E T S) qs v)) = cg_revision (sv_state v) \<Longrightarrow>
      sv_state (fold (service_step E T S) qs v) = sv_state v"
proof -
  have "sv_available (fold (service_step E T S) qs v)
    \<and> (sv_state (fold (service_step E T S) qs v) = sv_state v
      \<or> unat (cg_revision (sv_state v)) < unat (cg_revision (sv_state (fold (service_step E T S) qs v))))"
    using assms
  proof (induction qs arbitrary: v)
    case (Cons q qs)
    let ?w = "service_step E T S q v"
    have w: "sv_available ?w" "follows_on (sv_state v) (sv_state ?w)" "sv_loaded_once ?w"
      using service_step_follows [OF Cons.prems] service_step_loaded [of v E T S q] Cons.prems by blast+
    from Cons.IH [OF w(1,3)] w(2) show ?case by (auto simp: follows_on_def)
  qed simp
  then show "sv_available (fold (service_step E T S) qs v)"
    and "unat (cg_revision (sv_state v)) \<le> unat (cg_revision (sv_state (fold (service_step E T S) qs v)))"
    and "cg_revision (sv_state (fold (service_step E T S) qs v)) = cg_revision (sv_state v) \<Longrightarrow>
      sv_state (fold (service_step E T S) qs v) = sv_state v" by auto
qed

lemma service_run_loaded: "sv_available v \<longrightarrow> sv_loaded_once v \<Longrightarrow>
    sv_available (fold (service_step E T S) qs v) \<longrightarrow> sv_loaded_once (fold (service_step E T S) qs v)"
proof (induction qs arbitrary: v)
  case (Cons q qs)
  then show ?case using service_step_loaded [of v E T S q] by simp
qed simp

end
