(* ===== verification/Component_Migration.thy ===== *)
theory Component_Migration
  imports Component_Store_Facts
begin

text \<open>
  The migration of the workspace switcher: what it changes, and that a migration that was
  interrupted is completed by the next start.
\<close>

section \<open>What a migration changes\<close>

lemma migrate_instances_lookup:
  "migrate_instances m = Some n \<Longrightarrow> map_of m k = Some i \<Longrightarrow>
   \<exists>j. map_of n k = Some j \<and> (if ci_component_id i = workspace_switcher_id
     then (\<exists>s. migrate_label_mode (ci_settings i) = Some s \<and> j = i\<lparr>ci_settings := s\<rparr>) else j = i)"
proof (induction m arbitrary: n)
  case (Cons e m)
  obtain k' i' where e: "e = (k', i')" by force
  show ?case
  proof (cases "k' = k")
    case True
    with Cons.prems e show ?thesis by (auto split: if_splits option.splits)
  next
    case False
    obtain n' j where "migrate_instances m = Some n'" "n = (k', j) # n'"
      using Cons.prems(1) e by (auto split: if_splits option.splits)
    with Cons.IH Cons.prems(2) e False show ?thesis by simp
  qed
qed simp

lemma migrate_instances_keys: "migrate_instances m = Some n \<Longrightarrow> om_keys n = om_keys m"
  by (induction m arbitrary: n) (auto split: if_splits option.splits)

lemma digests_differ: "label_mode_package_digest \<noteq> identifier_flags_package_digest"
  by (simp add: label_mode_package_digest_def identifier_flags_package_digest_def)

lemma migration_candidate_parts:
  assumes "migration_candidate E cur cat = Some next"
  obtains desired live instances where
    "map_of (cg_components cur) workspace_switcher_id = Some desired" "map_of (cc_entries cat) workspace_switcher_id = Some live"
    "cm_package_digest desired = label_mode_package_digest" "ck_package_digest live = identifier_flags_package_digest"
    "cg_revision cur \<noteq> - 1" "migrate_instances (cg_instances cur) = Some instances"
    "next = cur\<lparr>cg_instances := instances,
       cg_components := om_insert workspace_switcher_id (desired\<lparr>cm_package_digest := ck_package_digest live\<rparr>) (cg_components cur),
       cg_revision := cg_revision cur + 1\<rparr>"
    "parse_component_configuration E (serialize_component_configuration E next) cat = vr_accept next"
proof -
  have a: "migration_applies cur cat" using assms by (simp add: migration_candidate_def split: if_splits)
  obtain desired live where dl: "map_of (cg_components cur) workspace_switcher_id = Some desired"
    "map_of (cc_entries cat) workspace_switcher_id = Some live"
    using a by (auto simp: migration_applies_def split: option.splits)
  obtain instances where i: "migrate_instances (cg_instances cur) = Some instances"
    using assms by (auto simp: migration_candidate_def split: if_splits option.splits)
  define n where "n = cur\<lparr>cg_instances := instances,
    cg_components := om_insert workspace_switcher_id (desired\<lparr>cm_package_digest := ck_package_digest live\<rparr>) (cg_components cur),
    cg_revision := cg_revision cur + 1\<rparr>"
  let ?v = "parse_component_configuration E (serialize_component_configuration E n) cat"
  have c: "migration_candidate E cur cat = (if \<not> vr_ok ?v \<or> the (vr_value ?v) \<noteq> n then None else Some n)"
    using a dl i by (simp add: migration_candidate_def n_def Let_def)
  then have "next = n" "vr_ok ?v" "the (vr_value ?v) = n" using assms by (auto split: if_splits)
  moreover have "?v = vr_accept n" using vr_ok_accept [OF \<open>vr_ok ?v\<close>] \<open>the (vr_value ?v) = n\<close> by simp
  ultimately show thesis using that [OF dl _ _ _ i] a dl n_def by (simp add: migration_applies_def)
qed

lemma migrated_settled:
  assumes "migration_candidate E cur cat = Some next" "om_inv (cg_components cur)"
  shows "settled E cat next"
proof -
  obtain desired live instances where n: "map_of (cc_entries cat) workspace_switcher_id = Some live"
    "ck_package_digest live = identifier_flags_package_digest"
    "next = cur\<lparr>cg_instances := instances,
       cg_components := om_insert workspace_switcher_id (desired\<lparr>cm_package_digest := ck_package_digest live\<rparr>) (cg_components cur),
       cg_revision := cg_revision cur + 1\<rparr>"
    and p: "parse_component_configuration E (serialize_component_configuration E next) cat = vr_accept next"
    using migration_candidate_parts [OF assms(1)] by metis
  have "\<not> migration_applies next cat" using n assms(2) digests_differ by (simp add: migration_applies_def)
  then have "migration_candidate E next cat = None" by (simp add: migration_candidate_def)
  with p show ?thesis by (simp add: settled_def)
qed

section \<open>Paths that can be written\<close>

definition free_path :: "fs \<Rightarrow> file_path \<Rightarrow> bool" where
  "free_path s p \<longleftrightarrow> (\<forall>k \<in> {1..<Suc (length (butlast p))}. case fs_nodes s (take k (butlast p)) of
       None \<Rightarrow> True | Some n \<Rightarrow> in_kind n = Directory \<or> in_kind n = Symlink)
     \<and> (case fs_nodes s p of None \<Rightarrow> True | Some n \<Rightarrow> in_kind n = Regular)"

lemma mkpath_free:
  assumes "free_path s p" "fs_faults s = []"
  shows "\<exists>s'. mkpath s (butlast p) = (True, s') \<and> fs_faults s' = []"
proof -
  have "\<not> list_ex (\<lambda>k. case fs_nodes s (take k (butlast p)) of
             Some n \<Rightarrow> in_kind n \<noteq> Directory \<and> in_kind n \<noteq> Symlink | None \<Rightarrow> False) [1..<Suc (length (butlast p))]"
    using assms(1) unfolding free_path_def list_ex_iff set_upt by (auto split: option.splits)
  then show ?thesis unfolding mkpath_def next_fault_none [OF assms(2)] Let_def prod.case if_False using assms(2) by auto
qed

lemma write_snapshot_free:
  assumes "free_path s p" "fs_faults s = []" "p \<noteq> []"
  shows "\<exists>s'. write_snapshot E T p cfg s = (None, s') \<and> fs_faults s' = []"
proof -
  obtain s1 where s1: "mkpath s (butlast p) = (True, s1)" "fs_faults s1 = []" using mkpath_free [OF assms(1,2)] by blast
  have "fs_nodes s1 p = fs_nodes s p" by (rule mkpath_outside [OF s1(1) take_prefix_neq [OF assms(3)]])
  with assms(1) have "\<not> (case fs_nodes s1 p of None \<Rightarrow> False | Some n \<Rightarrow> in_kind n \<noteq> Regular)"
    by (simp add: free_path_def split: option.splits)
  with s1 show ?thesis by (simp add: write_snapshot_def rename_over_def)
qed

text \<open>A write keeps every path free that it is apart from, and its own.\<close>

lemma write_snapshot_node:
  assumes "write_snapshot E T p cfg s = (r, s')"
  shows "fs_nodes s' q = fs_nodes s q \<or> (q = p \<and> (\<exists>n. fs_nodes s' q = Some n \<and> in_kind n = Regular))
    \<or> (fs_nodes s q = None \<and> q = take (length q) (butlast p) \<and> (\<exists>n. fs_nodes s' q = Some n \<and> in_kind n = Directory))"
proof -
  obtain s1 where s1: "mkpath s (butlast p) = (fst (mkpath s (butlast p)), s1)"
    "fs_nodes s' = (if r = None then (fs_nodes s1)(p \<mapsto> \<lparr>in_kind = Regular, in_owned = True, in_mode = 384,
       in_data = serialize_component_configuration E cfg\<rparr>) else fs_nodes s1)" using write_snapshot_nodes [OF assms] .
  have "fs_nodes s1 q = fs_nodes s q \<or> fs_nodes s q = None \<and> q = take (length q) (butlast p)
      \<and> (\<exists>n. fs_nodes s1 q = Some n \<and> in_kind n = Directory)"
    using mkpath_keeps [OF s1(1), of q] mkpath_outside [OF s1(1), of q] mkpath_creates_directories [OF s1(1), of q] by fastforce
  with s1(2) show ?thesis by (cases "q = p \<and> r = None") auto
qed

lemma free_path_elsewhere:
  assumes w: "write_snapshot E T p cfg s = (r, s')" and f: "free_path s q" and a: "apart p q" "apart q p"
  shows "free_path s' q"
proof -
  have "case fs_nodes s' (take k (butlast q)) of None \<Rightarrow> True | Some n \<Rightarrow> in_kind n = Directory \<or> in_kind n = Symlink"
    if k: "k \<in> {1..<Suc (length (butlast q))}" for k
  proof -
    have "take k (butlast q) \<noteq> p"
      using a(2) k by (metis apart_def take_butlast_apart length_take min.absorb2 atLeastLessThan_iff less_Suc_eq_le)
    moreover have "case fs_nodes s (take k (butlast q)) of None \<Rightarrow> True | Some n \<Rightarrow> in_kind n = Directory \<or> in_kind n = Symlink"
      using f k by (simp add: free_path_def)
    ultimately show ?thesis using write_snapshot_node [OF w, of "take k (butlast q)"] by (auto split: option.splits)
  qed
  moreover have "fs_nodes s' q = fs_nodes s q" by (rule write_snapshot_elsewhere [OF w a(1)])
  ultimately show ?thesis using f by (simp add: free_path_def)
qed

lemma free_path_same:
  assumes w: "write_snapshot E T p cfg s = (r, s')" and f: "free_path s p" and p: "p \<noteq> []"
  shows "free_path s' p"
proof -
  have ne: "take k (butlast p) \<noteq> p" for k
  proof -
    have "length (take k (butlast p)) < length p" using p by (cases p) auto
    then show ?thesis by (metis less_irrefl)
  qed
  have "case fs_nodes s' (take k (butlast p)) of None \<Rightarrow> True | Some n \<Rightarrow> in_kind n = Directory \<or> in_kind n = Symlink"
    if k: "k \<in> {1..<Suc (length (butlast p))}" for k
  proof -
    have "case fs_nodes s (take k (butlast p)) of None \<Rightarrow> True | Some n \<Rightarrow> in_kind n = Directory \<or> in_kind n = Symlink"
      using f k by (simp add: free_path_def)
    then show ?thesis using write_snapshot_node [OF w, of "take k (butlast p)"] ne [of k] by (auto split: option.splits)
  qed
  moreover have "case fs_nodes s' p of None \<Rightarrow> True | Some n \<Rightarrow> in_kind n = Regular"
    using write_snapshot_node [OF w, of p] f take_prefix_neq [OF p] by (auto simp: free_path_def split: option.splits)
  ultimately show ?thesis by (simp add: free_path_def)
qed

section \<open>A migration that was interrupted\<close>

text \<open>The pair of files while a migration from \<open>cur\<close> to \<open>next\<close> is under way.\<close>

definition migrating ::
  "qt_env \<Rightarrow> (file_path \<Rightarrow> qstring) \<Rightarrow> component_paths \<Rightarrow> config_catalog \<Rightarrow> component_configuration \<Rightarrow>
    component_configuration \<Rightarrow> fs \<Rightarrow> bool" where
  "migrating E T P cat cur next s \<longleftrightarrow> free_path s (cp_active P) \<and> free_path s (cp_recovery P)
     \<and> readable_status (rd_status (stored E T cat (cp_recovery P) s))
     \<and> (stored E T cat (cp_active P) s = valid_read cur \<or> stored E T cat (cp_active P) s = valid_read next)"

lemma migrating_cong: "fs_nodes s' = fs_nodes s \<Longrightarrow> migrating E T P cat cur next s' = migrating E T P cat cur next s"
  using stored_cong [of s' _ s E T cat] by (simp add: migrating_def free_path_def)

text \<open>\<open>store_write\<close> without a writer of its own.\<close>

abbreviation plain_store :: "component_paths \<Rightarrow> component_store" where
  "plain_store P \<equiv> \<lparr>sr_paths = P, sr_writer = None\<rparr>"

lemma plain_write: "store_write E T (plain_store P) = write_snapshot E T"
  by (simp add: store_write_def)

lemma migrating_write:
  assumes w: "write_snapshot E T p cfg s = (r, s')" and P: "paths_apart P" and m: "migrating E T P cat cur next s"
    and cfg: "parse_component_configuration E (serialize_component_configuration E cfg) cat = vr_accept cfg"
    and p: "p = cp_recovery P \<or> p = cp_active P \<and> cfg = next"
  shows "migrating E T P cat cur next s'" and "r = None \<Longrightarrow> stored E T cat p s' = valid_read cfg"
proof -
  have ap: "apart (cp_active P) (cp_recovery P)" "apart (cp_recovery P) (cp_active P)" using P by (simp_all add: paths_apart_def)
  then have ne: "cp_active P \<noteq> []" "cp_recovery P \<noteq> []" by (simp_all add: apart_def)
  then have pne: "p \<noteq> []" using p by auto
  note w' = w [folded plain_write [of E T P]]
  have written: "stored E T cat p s' = valid_read cfg" if "r = None"
    using qt_store.write_done [OF w' [unfolded that] pne] stored_written cfg by blast
  show "r = None \<Longrightarrow> stored E T cat p s' = valid_read cfg" by (rule written)
  have free: "free_path s (cp_active P)" "free_path s (cp_recovery P)" using m by (simp_all add: migrating_def)
  have "free_path s' (cp_active P)" "free_path s' (cp_recovery P)"
    using p free_path_elsewhere [OF w] free_path_same [OF w] free ap ne by metis+
  moreover have own: "stored E T cat p s' = valid_read cfg \<or> stored E T cat p s' = stored E T cat p s"
    using written qt_store.stored_failed [OF _ pne, of E T P cfg s] w' by (cases r) auto
  have other: "stored E T cat q s' = stored E T cat q s" if "apart p q" for q
    using qt_store.stored_elsewhere [OF w' that] .
  have ok: "readable_status (rd_status (valid_read x))" for x by (simp add: readable_status_def)
  have "readable_status (rd_status (stored E T cat (cp_recovery P) s'))
    \<and> (stored E T cat (cp_active P) s' = valid_read cur \<or> stored E T cat (cp_active P) s' = valid_read next)"
    using p
  proof
    assume pr: "p = cp_recovery P"
    have "readable_status (rd_status (stored E T cat (cp_recovery P) s'))"
      using own ok m by (auto simp: pr migrating_def)
    moreover have "stored E T cat (cp_active P) s' = stored E T cat (cp_active P) s" using other ap by (simp add: pr)
    ultimately show ?thesis using m by (simp add: migrating_def)
  next
    assume "p = cp_active P \<and> cfg = next"
    then show ?thesis using own other [of "cp_recovery P"] ap m by (auto simp: migrating_def)
  qed
  ultimately show "migrating E T P cat cur next s'" by (simp add: migrating_def)
qed

text \<open>Whatever fails while a migration is loaded, the pair of files stays in its course.\<close>

lemma migrate_configuration_migrating:
  assumes P: "paths_apart P" and m: "migrating E T P cat cur next s"
    and n: "parse_component_configuration E (serialize_component_configuration E next) cat = vr_accept next"
    and c: "migration_candidate E x cat \<in> {None, Some next}"
    and r: "migrate_configuration E T (plain_store P) x cat s = (g, s')"
  shows "migrating E T P cat cur next s'"
proof (cases "migration_candidate E x cat")
  case None
  with r m show ?thesis by (simp add: migrate_none)
next
  case (Some y)
  with c have y: "y = next" by simp
  obtain e1 s1 where 1: "write_snapshot E T (cp_recovery P) next s = (e1, s1)" by force
  obtain e2 s2 where 2: "write_snapshot E T (cp_active P) next s1 = (e2, s2)" by force
  have m1: "migrating E T P cat cur next s1" by (rule migrating_write(1) [OF 1 P m n]) simp
  have m2: "migrating E T P cat cur next s2" by (rule migrating_write(1) [OF 2 P m1 n]) simp
  have "s' = s1 \<or> s' = s2" using r
    by (auto simp: migrate_configuration_def Some y plain_write 1 2 split: option.splits)
  with m1 m2 show ?thesis by auto
qed

lemma load_migrating:
  assumes P: "paths_apart P" and m: "migrating E T P cat cur next s"
    and c: "migration_candidate E cur cat = Some next" "om_inv (cg_components cur)"
    and r: "load_configuration E T (plain_store P) cat legacy s = (l, s')"
  shows "migrating E T P cat cur next s'"
proof -
  obtain active s1 where a: "read_snapshot E T cat (cp_active P) s = (active, s1)" by force
  obtain recovery s2 where rec: "read_snapshot E T cat (cp_recovery P) s1 = (recovery, s2)" by force
  have nodes: "fs_nodes s1 = fs_nodes s" "fs_nodes s2 = fs_nodes s"
    using read_snapshot_stored(1) [OF a] read_snapshot_stored(1) [OF rec] by simp_all
  have m2: "migrating E T P cat cur next s2" using m migrating_cong [OF nodes(2)] by simp
  have act: "active = valid_read cur \<or> active = valid_read next \<or> rd_status active = UnreadableFile"
    using read_snapshot_stored(2) [OF a] m by (auto simp: migrating_def)
  note st = migrated_settled [OF c]
  then have n: "parse_component_configuration E (serialize_component_configuration E next) cat = vr_accept next"
    by (simp add: settled_def)
  have "s' = s2 \<or> (\<exists>g. migrate_configuration E T (plain_store P) (rd_state active) cat s2 = (g, s'))
     \<or> (\<exists>e. migration_candidate E (rd_state active) cat = None
          \<and> active = valid_read next \<and> write_snapshot E T (cp_recovery P) (rd_state active) s2 = (e, s'))"
  proof (cases "rd_status active = ValidFile")
    case False
    with act have "rd_status active = UnreadableFile" by auto
    with r show ?thesis by (simp add: load_configuration_def a rec)
  next
    case True
    with r have l: "load_active E T (plain_store P) cat active recovery s2 = (l, s')"
      by (simp add: load_configuration_def a rec)
    obtain g s3 where g: "migrate_configuration E T (plain_store P) (rd_state active) cat s2 = (g, s3)" by force
    show ?thesis
    proof (cases "migration_candidate E (rd_state active) cat")
      case None
      with act c(1) True have "active = valid_read next" by auto
      with l None show ?thesis
        by (auto simp: load_active_def migrate_none plain_write split: if_splits prod.splits option.splits)
    next
      case (Some y)
      then have "mg_changed g \<or> \<not> mg_writable g"
        using g by (auto simp: migrate_configuration_def split: option.splits prod.splits)
      with l g show ?thesis by (auto simp: load_active_def split: if_splits)
    qed
  qed
  moreover have "migration_candidate E (rd_state active) cat \<in> {None, Some next} \<or> s' = s2"
  proof (cases "rd_status active = ValidFile")
    case True
    with act c(1) st show ?thesis by (auto simp: settled_def)
  next
    case False
    with act have "rd_status active = UnreadableFile" by auto
    with r show ?thesis by (simp add: load_configuration_def a rec)
  qed
  ultimately show ?thesis
    using m2 migrate_configuration_migrating [OF P m2 n] migrating_write(1) [OF _ P m2, of "cp_recovery P"] n
    by (metis valid_read_fields(2))
qed

text \<open>A start without failures completes it.\<close>

lemma load_completes:
  assumes P: "paths_apart P" and m: "migrating E T P cat cur next s"
    and c: "migration_candidate E cur cat = Some next" "om_inv (cg_components cur)"
  shows "\<exists>s'. load_configuration E T (plain_store P) cat legacy (s\<lparr>fs_faults := []\<rparr>) = (load_ready next LoadNormal, s')"
proof -
  let ?d = "s\<lparr>fs_faults := []\<rparr>"
  have md: "migrating E T P cat cur next ?d" using m migrating_cong [of ?d s] by simp
  have ne: "cp_active P \<noteq> []" "cp_recovery P \<noteq> []" using P by (simp_all add: paths_apart_def apart_def)
  note st = migrated_settled [OF c]
  then have n: "parse_component_configuration E (serialize_component_configuration E next) cat = vr_accept next"
    and nn: "migration_candidate E next cat = None" by (simp_all add: settled_def)
  have free: "free_path ?d (cp_active P)" "free_path ?d (cp_recovery P)" using md by (simp_all add: migrating_def)
  obtain s1 where 1: "write_snapshot E T (cp_recovery P) next ?d = (None, s1)" "fs_faults s1 = []"
    using write_snapshot_free [OF free(2) _ ne(2)] by fastforce
  have m1: "migrating E T P cat cur next s1" by (rule migrating_write(1) [OF 1(1) P md n]) simp
  then obtain s2 where 2: "write_snapshot E T (cp_active P) next s1 = (None, s2)"
    using write_snapshot_free [OF _ 1(2) ne(1)] by (fastforce simp: migrating_def)
  have ok: "rd_status (stored E T cat (cp_recovery P) s) \<noteq> UnsupportedFile"
    "rd_status (stored E T cat (cp_recovery P) s) \<noteq> UnreadableFile"
    using m by (simp_all add: migrating_def readable_status_def)
  consider "stored E T cat (cp_active P) s = valid_read cur" | "stored E T cat (cp_active P) s = valid_read next"
    using m by (auto simp: migrating_def)
  then show ?thesis
  proof cases
    case 1
    then show ?thesis using ok \<open>write_snapshot E T (cp_recovery P) next ?d = (None, s1)\<close> 2
      by (simp add: reload_no_faults Let_def load_active_def migrate_configuration_def c(1) plain_write load_migrated_def load_ready_def)
  next
    case 2
    then show ?thesis using ok \<open>write_snapshot E T (cp_recovery P) next ?d = (None, s1)\<close>
      by (simp add: reload_no_faults Let_def load_active_def migrate_none [OF nn] plain_write)
  qed
qed

end
