(* ===== verification/Service_Contract.thy ===== *)
theory Service_Contract
  imports Component_Service_Facts Component_Migration
begin

text \<open>
  What an accepted replacement of the configuration preserves, what it writes, and what the disk
  holds after it.
\<close>

section \<open>Accepted replacements\<close>

lemma replace_snapshot_accepted:
  assumes "replace_snapshot E T S n digest bs v = (None, w)"
  obtains candidate where "sv_available v" "sv_writable v" "sv_catalog_available v" "n = cg_revision (sv_state v)"
    "digest = cc_digest (sv_catalog v)" "parse_component_configuration E bs (sv_catalog v) = vr_accept candidate"
    "cg_revision candidate = n" "preserves_dormant_state (sv_catalog v) (sv_state v) candidate = None"
    "sv_available w" "sv_catalog w = sv_catalog v"
    "candidate = sv_state v \<and> w = v \<or> candidate \<noteq> sv_state v \<and> n \<noteq> - 1 \<and> sv_state w = candidate\<lparr>cg_revision := n + 1\<rparr>"
proof -
  let ?parsed = "parse_component_configuration E bs (sv_catalog v)"
  define candidate where "candidate = the (vr_value ?parsed)"
  note r = assms [unfolded replace_snapshot_def Let_def, folded candidate_def]
  have a: "sv_available v" "sv_writable v" using r by (simp_all split: if_splits)
  have b: "sv_catalog_available v" using r a by (simp split: if_splits)
  have c: "n = cg_revision (sv_state v)" using r a b by (simp split: if_splits)
  have d: "digest = cc_digest (sv_catalog v)" using r a b c by (simp split: if_splits)
  have e: "vr_ok ?parsed" using r a b c d by (simp split: if_splits)
  have f: "cg_revision candidate = n" using r a b c d e by (simp split: if_splits)
  have g: "preserves_dormant_state (sv_catalog v) (sv_state v) candidate = None"
    using r a b c d e f by (simp split: option.splits)
  have p: "?parsed = vr_accept candidate" using vr_ok_accept [OF e] by (simp add: candidate_def)
  have h: "candidate = sv_state v \<and> w = v \<or> candidate \<noteq> sv_state v \<and> n \<noteq> - 1 \<and> sv_state w = candidate\<lparr>cg_revision := n + 1\<rparr>"
    and i: "sv_available w" "sv_catalog w = sv_catalog v"
    using r a b c d e f g by (auto split: if_splits option.splits prod.splits)
  show thesis by (rule that [OF a b c d p f g i h])
qed

section \<open>Dormant state\<close>

lemma first_error_None: "first_error f xs = None \<longleftrightarrow> (\<forall>x \<in> set xs. f x = None)"
  by (induction xs) (auto split: option.split)

lemma preserves_dormant_stateD:
  assumes "preserves_dormant_state cat current candidate = None"
  shows "(k, c) \<in> set (cg_components current) \<Longrightarrow> is_dormant cat k c \<Longrightarrow>
      \<exists>p. map_of (cg_components candidate) k = Some p \<and> (p = c \<or> adopts_updated_package cat k c p)"
    and "(k, c) \<in> set (cg_components current) \<Longrightarrow> is_dormant cat k c \<Longrightarrow> (x, i) \<in> set (cg_instances current) \<Longrightarrow>
      ci_component_id i = k \<Longrightarrow> map_of (cg_instances candidate) x = Some i
        \<and> (\<forall>(b, l) \<in> set (cg_bars current). places l x \<longrightarrow> map_of (cg_bars candidate) b = Some l)"
    and "(k, p) \<in> set (cg_components candidate) \<Longrightarrow> is_dormant cat k p \<Longrightarrow>
      \<exists>c. (k, c) \<in> set (cg_components current) \<and> is_dormant cat k c"
proof -
  have r: "\<forall>e \<in> set (cg_components current). dormant_record_changed cat current candidate e = None"
    and n: "\<forall>e \<in> set (cg_components candidate). new_dormant_record cat current e = None"
    using assms by (simp_all add: preserves_dormant_state_def first_error_None split: option.splits)
  show "\<exists>p. map_of (cg_components candidate) k = Some p \<and> (p = c \<or> adopts_updated_package cat k c p)"
    if "(k, c) \<in> set (cg_components current)" "is_dormant cat k c"
    using r that by (fastforce simp: dormant_record_changed_def split: option.splits if_splits)
  show "map_of (cg_instances candidate) x = Some i
      \<and> (\<forall>(b, l) \<in> set (cg_bars current). places l x \<longrightarrow> map_of (cg_bars candidate) b = Some l)"
    if "(k, c) \<in> set (cg_components current)" "is_dormant cat k c" "(x, i) \<in> set (cg_instances current)" "ci_component_id i = k"
  proof -
    have "dormant_record_changed cat current candidate (k, c) = None" using r that(1) by blast
    then have "first_error (dormant_instance_changed current candidate k) (cg_instances current) = None"
      using that(2) by (simp add: dormant_record_changed_def split: if_splits)
    then have "dormant_instance_changed current candidate k (x, i) = None" using that(3) by (simp add: first_error_None)
    then have "map_of (cg_instances candidate) x = Some i"
      "first_error (layout_changed (cg_bars candidate) x) (cg_bars current) = None"
      using that(4) by (simp_all add: dormant_instance_changed_def split: if_splits)
    then show ?thesis by (fastforce simp: first_error_None layout_changed_def split: if_splits)
  qed
  show "\<exists>c. (k, c) \<in> set (cg_components current) \<and> is_dormant cat k c"
    if "(k, p) \<in> set (cg_components candidate)" "is_dormant cat k p"
    using n that by (fastforce simp: new_dormant_record_def dormant_ids_def split: if_splits)
qed

section \<open>What a replacement leaves on the disk\<close>

lemma replace_snapshot_saves:
  assumes "replace_snapshot E T S n digest bs v = (e, w)"
  shows "sv_state w = sv_state v \<and> sv_disk w = sv_disk v
    \<or> (\<exists>candidate. parse_component_configuration E bs (sv_catalog v) = vr_accept candidate \<and> n = cg_revision (sv_state v)
        \<and> (sv_state w, sv_disk w) = snd (config_save E T S (candidate\<lparr>cg_revision := n + 1\<rparr>) (sv_state v, sv_disk v)))"
proof -
  let ?parsed = "parse_component_configuration E bs (sv_catalog v)"
  define candidate where "candidate = the (vr_value ?parsed)"
  note r = assms [unfolded replace_snapshot_def Let_def, folded candidate_def]
  show ?thesis
  proof (cases "\<not> sv_available v \<or> \<not> sv_writable v \<or> \<not> sv_catalog_available v \<or> n \<noteq> cg_revision (sv_state v)
      \<or> digest \<noteq> cc_digest (sv_catalog v) \<or> \<not> vr_ok ?parsed \<or> cg_revision candidate \<noteq> n
      \<or> preserves_dormant_state (sv_catalog v) (sv_state v) candidate \<noteq> None \<or> candidate = sv_state v \<or> n = - 1")
    case True
    have "w = v"
    proof -
      consider "\<not> sv_available v \<or> \<not> sv_writable v" | "sv_available v" "sv_writable v" "\<not> sv_catalog_available v"
        | "sv_available v" "sv_writable v" "sv_catalog_available v" "n \<noteq> cg_revision (sv_state v) \<or> digest \<noteq> cc_digest (sv_catalog v)"
        | "sv_available v" "sv_writable v" "sv_catalog_available v" "n = cg_revision (sv_state v)" "digest = cc_digest (sv_catalog v)"
          "\<not> vr_ok ?parsed \<or> cg_revision candidate \<noteq> n"
        | x where "sv_available v" "sv_writable v" "sv_catalog_available v" "n = cg_revision (sv_state v)" "digest = cc_digest (sv_catalog v)"
          "vr_ok ?parsed" "cg_revision candidate = n" "preserves_dormant_state (sv_catalog v) (sv_state v) candidate = Some x"
        | "sv_available v" "sv_writable v" "sv_catalog_available v" "n = cg_revision (sv_state v)" "digest = cc_digest (sv_catalog v)"
          "vr_ok ?parsed" "cg_revision candidate = n" "preserves_dormant_state (sv_catalog v) (sv_state v) candidate = None"
          "candidate = sv_state v \<or> n = - 1"
        using True by (cases "preserves_dormant_state (sv_catalog v) (sv_state v) candidate") metis+
      then show ?thesis
      proof cases
        case 3
        with r show ?thesis by (cases "n = cg_revision (sv_state v)") simp_all
      next
        case 4
        with r show ?thesis by (cases "vr_ok ?parsed") simp_all
      next
        case 6
        with r show ?thesis by (cases "candidate = sv_state v") simp_all
      qed (use r in simp_all)
    qed
    then show ?thesis by simp
  next
    case False
    then have n: "n = cg_revision (sv_state v)" and ok: "?parsed = vr_accept candidate"
      using vr_ok_accept by (auto simp: candidate_def)
    obtain ep dp where p: "persist_configuration E T S (sv_state v) (candidate\<lparr>cg_revision := n + 1\<rparr>) (sv_disk v) = (ep, dp)"
      by force
    have "(case ep of Some x \<Rightarrow> (Some (''PersistenceFailed'', x), v\<lparr>sv_disk := dp\<rparr>)
        | None \<Rightarrow> (None, publish_properties [(Q ''Revision'', PRevision (n + 1))]
            (v\<lparr>sv_disk := dp, sv_state := candidate\<lparr>cg_revision := n + 1\<rparr>\<rparr>))) = (e, w)"
      using r False p n by (simp cong: option.case_cong)
    then have "(sv_state w, sv_disk w) = snd (config_save E T S (candidate\<lparr>cg_revision := n + 1\<rparr>) (sv_state v, sv_disk v))"
      by (auto simp: config_save_def p split: option.splits)
    with ok n show ?thesis by blast
  qed
qed

text \<open>Requests that replace the configuration by one that can be read back.\<close>

definition requests_settle :: "qt_env \<Rightarrow> config_catalog \<Rightarrow> service_request list \<Rightarrow> bool" where
  "requests_settle E cat qs \<longleftrightarrow> list_all (\<lambda>q. case q of
       ApplyCatalog _ \<Rightarrow> False
     | ReplaceSnapshot n digest bs \<Rightarrow>
         (case vr_value (parse_component_configuration E bs cat) of
            None \<Rightarrow> True | Some c \<Rightarrow> settled E cat (c\<lparr>cg_revision := n + 1\<rparr>))
     | _ \<Rightarrow> True) qs"

lemma config_holds_self: "config_holds E T S cat (cfg, s) x \<Longrightarrow> config_holds E T S cat (cfg, s) cfg"
  by (simp add: config_holds_def)

lemma service_step_holds:
  assumes h: "config_holds E T (plain_store P) cat (sv_state v, sv_disk v) (sv_state v)" and cat: "sv_catalog v = cat"
    and q: "requests_settle E cat [q]"
  shows "config_holds E T (plain_store P) cat
      (sv_state (service_step E T (plain_store P) q v), sv_disk (service_step E T (plain_store P) q v))
      (sv_state (service_step E T (plain_store P) q v))
    \<and> sv_catalog (service_step E T (plain_store P) q v) = cat"
proof (cases q)
  case (ApplyCatalog c)
  with q show ?thesis by (simp add: requests_settle_def)
next
  case LoseCatalog
  with h cat show ?thesis by (simp add: service_step_def set_catalog_unavailable_def)
next
  case (DiskFaults fl)
  have "stored E T cat p ((sv_disk v)\<lparr>fs_faults := fl\<rparr>) = stored E T cat p (sv_disk v)" for p by (rule stored_cong) simp
  with h cat show ?thesis by (simp add: DiskFaults service_step_def config_holds_def)
next
  case (ReplaceSnapshot n digest bs)
  obtain e w where r: "replace_snapshot E T (plain_store P) n digest bs v = (e, w)" by force
  have w: "service_step E T (plain_store P) q v = w" by (simp add: service_step_def ReplaceSnapshot r)
  have "sv_catalog w = cat" using service_step_catalog [of E T "plain_store P" q v] cat unfolding w by (simp add: ReplaceSnapshot)
  moreover have "config_holds E T (plain_store P) cat (sv_state w, sv_disk w) (sv_state w)"
    using replace_snapshot_saves [OF r]
  proof
    assume "sv_state w = sv_state v \<and> sv_disk w = sv_disk v"
    with h show ?thesis by simp
  next
    assume "\<exists>c. parse_component_configuration E bs (sv_catalog v) = vr_accept c \<and> n = cg_revision (sv_state v)
        \<and> (sv_state w, sv_disk w) = snd (config_save E T (plain_store P) (c\<lparr>cg_revision := n + 1\<rparr>) (sv_state v, sv_disk v))"
    then obtain c where c: "parse_component_configuration E bs cat = vr_accept c"
      and s: "(sv_state w, sv_disk w) = snd (config_save E T (plain_store P) (c\<lparr>cg_revision := n + 1\<rparr>) (sv_state v, sv_disk v))"
      using cat by blast
    let ?next = "c\<lparr>cg_revision := n + 1\<rparr>"
    have st: "settled E cat ?next" using q c by (simp add: requests_settle_def ReplaceSnapshot)
    define ok where "ok = fst (config_save E T (plain_store P) ?next (sv_state v, sv_disk v))"
    have ok: "config_save E T (plain_store P) ?next (sv_state v, sv_disk v) = (ok, sv_state w, sv_disk w)"
      unfolding s ok_def by (rule prod.collapse [symmetric])
    show ?thesis
    proof (cases ok)
      case True
      have "config_holds E T (plain_store P) cat (sv_state w, sv_disk w) ?next"
        by (rule qt_store.saves.save_durable [OF h st ok [unfolded eqTrueI [OF True]]])
      then show ?thesis by (rule config_holds_self)
    next
      case False
      then have "ok = False" by simp
      then have "config_holds E T (plain_store P) cat (sv_state w, sv_disk w) (sv_state v)"
        using qt_store.saves.save_failed [OF h st] ok by blast
      then show ?thesis by (rule config_holds_self)
    qed
  qed
  ultimately show ?thesis by (simp add: w)
qed

lemma service_run_holds:
  assumes "config_holds E T (plain_store P) cat (sv_state v, sv_disk v) (sv_state v)" "sv_catalog v = cat" "requests_settle E cat qs"
  shows "config_holds E T (plain_store P) cat
      (sv_state (fold (service_step E T (plain_store P)) qs v), sv_disk (fold (service_step E T (plain_store P)) qs v))
      (sv_state (fold (service_step E T (plain_store P)) qs v))"
  using assms
proof (induction qs arbitrary: v)
  case (Cons q qs)
  have "requests_settle E cat [q]" "requests_settle E cat qs" using Cons.prems(3) by (simp_all add: requests_settle_def)
  with service_step_holds [OF Cons.prems(1,2)] Cons.IH show ?case by simp
qed simp

text \<open>A replacement on a disk without failures writes both files.\<close>

lemma write_snapshot_written:
  assumes "write_snapshot E T p cfg s = (None, s')"
  shows "\<exists>n. fs_nodes s' p = Some n \<and> in_kind n = Regular \<and> in_data n = serialize_component_configuration E cfg"
  by (rule write_snapshot_nodes [OF assms]) simp

lemma persist_free:
  assumes P: "paths_apart P" and f: "free_path s (cp_active P)" "free_path s (cp_recovery P)" "fs_faults s = []"
  shows "\<exists>s'. persist_configuration E T (plain_store P) cur next s = (None, s')
    \<and> (\<exists>n. fs_nodes s' (cp_active P) = Some n \<and> in_kind n = Regular \<and> in_data n = serialize_component_configuration E next)
    \<and> (\<exists>n. fs_nodes s' (cp_recovery P) = Some n \<and> in_kind n = Regular \<and> in_data n = serialize_component_configuration E next)
    \<and> (\<forall>q. apart (cp_active P) q \<longrightarrow> apart (cp_recovery P) q \<longrightarrow> fs_nodes s' q = fs_nodes s q)"
proof -
  have ap: "apart (cp_active P) (cp_recovery P)" "apart (cp_recovery P) (cp_active P)" using P by (simp_all add: paths_apart_def)
  then have ne: "cp_active P \<noteq> []" "cp_recovery P \<noteq> []" by (simp_all add: apart_def)
  obtain s1 where 1: "write_snapshot E T (cp_recovery P) cur s = (None, s1)" "fs_faults s1 = []"
    using write_snapshot_free [OF f(2,3) ne(2)] by blast
  have f1: "free_path s1 (cp_active P)" "free_path s1 (cp_recovery P)"
    using free_path_elsewhere [OF 1(1) f(1) ap(2,1)] free_path_same [OF 1(1) f(2) ne(2)] by simp_all
  obtain s2 where 2: "write_snapshot E T (cp_active P) next s1 = (None, s2)" "fs_faults s2 = []"
    using write_snapshot_free [OF f1(1) 1(2) ne(1)] by blast
  have f2: "free_path s2 (cp_recovery P)" by (rule free_path_elsewhere [OF 2(1) f1(2) ap])
  obtain s3 where 3: "write_snapshot E T (cp_recovery P) next s2 = (None, s3)"
    using write_snapshot_free [OF f2 2(2) ne(2)] by blast
  have "persist_configuration E T (plain_store P) cur next s = (None, s3)"
    by (simp add: persist_configuration_def plain_write 1 2 3)
  moreover have "\<exists>n. fs_nodes s3 (cp_active P) = Some n \<and> in_kind n = Regular \<and> in_data n = serialize_component_configuration E next"
    using write_snapshot_written [OF 2(1)] write_snapshot_elsewhere [OF 3 ap(2)] by simp
  moreover note write_snapshot_written [OF 3]
  moreover have "fs_nodes s3 q = fs_nodes s q" if "apart (cp_active P) q" "apart (cp_recovery P) q" for q
    using write_snapshot_elsewhere [OF 1(1) that(2)] write_snapshot_elsewhere [OF 2(1) that(1)] write_snapshot_elsewhere [OF 3 that(2)] by simp
  ultimately show ?thesis by blast
qed

end
