(* ===== verification/Sample_Service.thy ===== *)
theory Sample_Service
  imports Service_Contract Sample_Configuration
begin

text \<open>
  A service whose two snapshots hold a sample configuration, after it was given the sample
  catalog, and the same service after its widget was removed from the catalog.
\<close>

section \<open>The disk\<close>

definition service_paths :: component_paths where
  "service_paths = standard_component_paths [Q ''c''] [Q ''s''] [Q ''d'']"

definition sample_text :: "file_path \<Rightarrow> qstring" where
  "sample_text p = []"

abbreviation service_store :: component_store where
  "service_store \<equiv> plain_store service_paths"

lemma service_paths_apart: "paths_apart service_paths"
  by (simp add: paths_apart_def apart_def service_paths_def standard_component_paths_def Q_def)

lemma service_paths_distinct: "cp_active service_paths \<noteq> cp_recovery service_paths" "cp_defaults service_paths \<noteq> cp_active service_paths"
  "cp_defaults service_paths \<noteq> cp_recovery service_paths"
  by (simp_all add: service_paths_def standard_component_paths_def)

text \<open>\<open>a\<close> is the configuration in the active file; both files hold it when \<open>mirrored\<close>.\<close>

definition service_disk :: "bool \<Rightarrow> component_configuration \<Rightarrow> fs" where
  "service_disk mirrored a = \<lparr>fs_nodes = (\<lambda>p. if p = cp_active service_paths \<or> mirrored \<and> p = cp_recovery service_paths
      then Some \<lparr>in_kind = Regular, in_owned = True, in_mode = 384, in_data = serialize_component_configuration sample_env a\<rparr>
      else None), fs_faults = []\<rparr>"

lemma service_disk_faults [simp]: "fs_faults (service_disk b a) = []"
  by (simp add: service_disk_def)

lemma service_disk_stored:
  assumes "parse_component_configuration sample_env (serialize_component_configuration sample_env a) cat = vr_accept b"
  shows "stored sample_env T cat (cp_active service_paths) (service_disk mirrored a) = valid_read b"
    and "stored sample_env T cat (cp_recovery service_paths) (service_disk mirrored a) = (if mirrored then valid_read b else rd_missing)"
  using parsed_size [OF assms] service_paths_distinct(1)
  by (simp_all add: stored_alt service_disk_def read_content_def assms valid_read_def)

section \<open>The service\<close>

lemma gap_no_migration: "migration_candidate E (gap_configuration_at n m) cat = None"
  by (simp add: migration_candidate_def migration_applies_def gap_configuration_at_def sample_id_def
      workspace_switcher_id_def Q_def)

lemma gap_settled:
  assumes "x = 1 \<or> x = 4 \<or> x = 10000000000000000" "n = 1 \<or> n = 2" "m = [(Q ''gap'', JNum 1)] \<or> m = [(Q ''gap'', JNum 4)]"
  shows "settled sample_env (gap_catalog x) (gap_configuration_at n m)"
  using gap_parsed [OF assms(1,2), of m m] assms(3) by (auto simp: settled_def gap_no_migration)

definition sample_service :: "rat \<Rightarrow> component_configuration \<Rightarrow> config_service" where
  "sample_service x a = apply_catalog sample_env sample_text service_store (gap_catalog x) (new_service None (service_disk True a))"

abbreviation gap4 :: component_configuration where
  "gap4 \<equiv> gap_configuration [(Q ''gap'', JNum 4)]"

lemma gap4_settled: "x = 1 \<or> x = 4 \<or> x = 10000000000000000 \<Longrightarrow> settled sample_env (gap_catalog x) gap4"
  by (rule gap_settled) simp_all

lemma service_load:
  assumes "x = 1 \<or> x = 4 \<or> x = 10000000000000000"
  shows "load_configuration sample_env T service_store (gap_catalog x) legacy (service_disk True gap4)
    = (load_ready gap4 LoadNormal, service_disk True gap4)"
proof -
  have p: "parse_component_configuration sample_env (serialize_component_configuration sample_env gap4) (gap_catalog x) = vr_accept gap4"
    using gap4_settled [OF assms] by (simp add: settled_def)
  have d: "(service_disk True gap4)\<lparr>fs_faults := []\<rparr> = service_disk True gap4" by (simp add: service_disk_def)
  show ?thesis
    using reload_no_faults [of sample_env T service_store "gap_catalog x" legacy "service_disk True gap4"]
    by (simp add: d service_disk_stored [OF p] load_active_def migrate_none [OF gap_no_migration] Let_def)
qed

lemma sample_digest_full: "is_full_sha256_digest sample_digest"
  by (simp add: is_full_sha256_digest_def sample_digest_def match_classes_replicate is_lower_hex_def list_all_iff at_end_def is_ascii_digit_def)

lemma sample_service_fields:
  assumes "x = 1 \<or> x = 4 \<or> x = 10000000000000000"
  shows "sv_available (sample_service x gap4)" "sv_writable (sample_service x gap4)" "sv_state (sample_service x gap4) = gap4"
    "sv_disk (sample_service x gap4) = service_disk True gap4" "sv_catalog (sample_service x gap4) = gap_catalog x"
    "sv_catalog_available (sample_service x gap4)" "sv_loaded_once (sample_service x gap4)"
proof -
  let ?v = "new_service None (service_disk True gap4)"
  have new: "sv_disk ?v = service_disk True gap4" "sv_legacy ?v = None" "\<not> sv_loaded_once ?v" "\<not> sv_available ?v"
    by (simp_all add: new_service_def)
  have digest: "cc_digest (gap_catalog x) = sample_digest" by (simp add: gap_catalog_def)
  define vc where "vc = load_for_catalog sample_env sample_text service_store (gap_catalog x) ?v"
  have vc: "sv_available (fst vc)" "sv_writable (fst vc)" "sv_state (fst vc) = gap4" "sv_disk (fst vc) = service_disk True gap4"
    "sv_loaded_once (fst vc)"
  proof -
    have l: "load_configuration sample_env sample_text service_store (gap_catalog x) (sv_legacy ?v) (sv_disk ?v)
        = (load_ready gap4 LoadNormal, service_disk True gap4)" using service_load [OF assms] by (simp only: new)
    have "vc = first_load sample_env sample_text service_store (gap_catalog x) ?v"
      unfolding vc_def load_for_catalog_def using new(3) by simp
    with first_load_fields [OF l] show "sv_available (fst vc)" "sv_writable (fst vc)" "sv_state (fst vc) = gap4"
      "sv_disk (fst vc) = service_disk True gap4" "sv_loaded_once (fst vc)" by (simp_all add: load_ready_def)
  qed
  have "revalidates sample_env (gap_catalog x) gap4"
    using gap4_settled [OF assms] by (simp add: revalidates_def settled_def Let_def)
  then have s: "sample_service x gap4 = install_catalog (gap_catalog x) vc"
    using vc sample_digest_full by (simp add: sample_service_def apply_catalog_def digest Let_def flip: vc_def)
  show "sv_available (sample_service x gap4)" "sv_writable (sample_service x gap4)" "sv_state (sample_service x gap4) = gap4"
    "sv_disk (sample_service x gap4) = service_disk True gap4" "sv_catalog (sample_service x gap4) = gap_catalog x"
    "sv_catalog_available (sample_service x gap4)" "sv_loaded_once (sample_service x gap4)"
    by (simp_all add: s vc)
qed

section \<open>A replacement\<close>

lemma service_disk_free: "free_path (service_disk b a) (cp_active service_paths)" "free_path (service_disk b a) (cp_recovery service_paths)"
  using service_paths_distinct
  by (auto simp: free_path_def service_disk_def service_paths_def standard_component_paths_def Q_def take_Cons' split: option.split)

lemma gap_preserved: "preserves_dormant_state (gap_catalog x) (gap_configuration_at n m) (gap_configuration_at n' m') = None"
  by (simp add: preserves_dormant_state_def gap_configuration_at_def dormant_record_changed_def new_dormant_record_def
      new_dormant_instance_def is_dormant_def gap_catalog_def gap_component_def gap_entry_def dormant_ids_def)

lemma gap_replaced:
  assumes x: "x = 1 \<or> x = 10000000000000000"
  obtains w where "replace_snapshot sample_env sample_text service_store 1 sample_digest gap_bytes (sample_service x gap4) = (None, w)"
    "sv_state w = gap_configuration_at 2 [(Q ''gap'', JNum x)]" "sv_available w" "sv_catalog w = gap_catalog x"
    "\<exists>n. fs_nodes (sv_disk w) (cp_active service_paths) = Some n \<and> in_kind n = Regular
      \<and> in_data n = serialize_component_configuration sample_env (gap_configuration_at 2 [(Q ''gap'', JNum x)])"
    "\<exists>n. fs_nodes (sv_disk w) (cp_recovery service_paths) = Some n \<and> in_kind n = Regular
      \<and> in_data n = serialize_component_configuration sample_env (gap_configuration_at 2 [(Q ''gap'', JNum x)])"
    "fs_nodes (sv_disk w) (cp_defaults service_paths) = None"
proof -
  have x': "x = 1 \<or> x = 4 \<or> x = 10000000000000000" using x by blast
  note v = sample_service_fields [OF x']
  let ?next = "gap_configuration_at 2 [(Q ''gap'', JNum x)]"
  have p: "parse_component_configuration sample_env gap_bytes (gap_catalog x) = vr_accept (gap_configuration [(Q ''gap'', JNum x)])"
    by (rule gap_accepted [OF x'])
  have nxt: "(gap_configuration [(Q ''gap'', JNum x)])\<lparr>cg_revision := 2\<rparr> = ?next" by (simp add: gap_configuration_at_def)
  have ne: "gap_configuration [(Q ''gap'', JNum x)] \<noteq> gap4" using x by (auto simp: gap_configuration_at_def gap_component_def)
  have rev: "cg_revision (gap_configuration m) = 1" for m by (simp add: gap_configuration_at_def)
  have digest: "cc_digest (gap_catalog x) = sample_digest" by (simp add: gap_catalog_def)
  obtain d where d: "persist_configuration sample_env sample_text service_store gap4 ?next (service_disk True gap4) = (None, d)"
    "\<exists>n. fs_nodes d (cp_active service_paths) = Some n \<and> in_kind n = Regular \<and> in_data n = serialize_component_configuration sample_env ?next"
    "\<exists>n. fs_nodes d (cp_recovery service_paths) = Some n \<and> in_kind n = Regular \<and> in_data n = serialize_component_configuration sample_env ?next"
    "\<forall>q. apart (cp_active service_paths) q \<longrightarrow> apart (cp_recovery service_paths) q \<longrightarrow> fs_nodes d q = fs_nodes (service_disk True gap4) q"
    using persist_free [OF service_paths_apart service_disk_free(1,2) service_disk_faults, of sample_env sample_text gap4 ?next True gap4] by blast
  have "apart (cp_active service_paths) (cp_defaults service_paths)" "apart (cp_recovery service_paths) (cp_defaults service_paths)"
    by (simp_all add: apart_def service_paths_def standard_component_paths_def Q_def)
  then have dn: "fs_nodes d (cp_defaults service_paths) = None"
    using d(4) service_paths_distinct by (simp add: service_disk_def)
  let ?w = "publish_properties [(Q ''Revision'', PRevision 2)] ((sample_service x gap4)\<lparr>sv_disk := d, sv_state := ?next\<rparr>)"
  have "replace_snapshot sample_env sample_text service_store 1 sample_digest gap_bytes (sample_service x gap4) = (None, ?w)"
    unfolding replace_snapshot_def Let_def v p digest rev
    by (simp add: v rev nxt ne gap_preserved d(1) ) (simp add: gap_configuration_at_def)
  then show thesis by (rule that) (use d dn v in simp_all)
qed

text \<open>The same service after the package of the widget was removed.\<close>

definition dormant_service :: config_service where
  "dormant_service = (sample_service 4 gap4)\<lparr>sv_catalog := bare_catalog\<rparr>"

lemma dormant_service_kept:
  "replace_snapshot sample_env T S 1 sample_digest (serialize_component_configuration sample_env gap4) dormant_service
    = (None, dormant_service)"
proof -
  have v: "sv_available dormant_service" "sv_writable dormant_service" "sv_catalog_available dormant_service"
    "sv_state dormant_service = gap4" "sv_catalog dormant_service = bare_catalog"
    by (simp_all add: dormant_service_def sample_service_fields)
  have p: "parse_component_configuration sample_env (serialize_component_configuration sample_env gap4) bare_catalog = vr_accept gap4"
    unfolding parse_component_configuration_accept gap_written [OF disjI1 [OF refl] gap_samples(3)]
    using bare_parse_root [of sample_env "[(Q ''gap'', JNum 4)]" 1] gap_dormant by blast
  have "preserves_dormant_state bare_catalog gap4 gap4 = None"
    by (simp add: preserves_dormant_state_def gap_configuration_at_def dormant_record_changed_def new_dormant_record_def
        new_dormant_instance_def is_dormant_def dormant_ids_def dormant_instance_changed_def layout_changed_def om_contains_def
        first_error_None bare_catalog_def)
  moreover have "cg_revision gap4 = 1" "cc_digest bare_catalog = sample_digest" by (simp_all add: gap_configuration_at_def bare_catalog_def)
  ultimately show ?thesis unfolding replace_snapshot_def Let_def v p by (simp add: v)
qed

end
