(* ===== verification/Sample_Migration.thy ===== *)
theory Sample_Migration
  imports Sample_Service
begin

text \<open>
  A configuration of the workspace switcher with the digest of the package that had the label mode, under
  a catalog with the package that replaces it.
\<close>

definition switcher_component :: "qstring \<Rightarrow> configured_component" where
  "switcher_component d = \<lparr>cm_package_digest = d, cm_enabled = True, cm_grants = [], cm_settings = []\<rparr>"

definition switcher_configuration :: "64 word \<Rightarrow> qstring \<Rightarrow> component_configuration" where
  "switcher_configuration n d = \<lparr>cg_revision = n, cg_components = [(workspace_switcher_id, switcher_component d)],
     cg_instances = [], cg_bars = []\<rparr>"

definition switcher_entry :: config_entry where
  "switcher_entry = \<lparr>ck_package_digest = identifier_flags_package_digest, ck_type = BarWidget, ck_origin = SystemOrigin,
     ck_schema = \<lparr>ss_version = 1, ss_settings = []\<rparr>, ck_requested = [], ck_api_version = current_component_api_version,
     ck_runtime_kind = BuiltinV1, ck_dependency_ids = [], ck_activation_supported = True, ck_declarative_runtime = []\<rparr>"

definition switcher_catalog :: config_catalog where
  "switcher_catalog = \<lparr>cc_digest = sample_digest, cc_entries = [(workspace_switcher_id, switcher_entry)]\<rparr>"

section \<open>Both configurations are accepted\<close>

lemma switcher_digest_ok:
  assumes "d = label_mode_package_digest \<or> d = identifier_flags_package_digest"
  shows "is_full_sha256_digest d" "utf16_ok d" "length d = 64"
proof -
  have "length label_mode_package_digest = 64" "length identifier_flags_package_digest = 64"
    by (simp_all add: label_mode_package_digest_def identifier_flags_package_digest_def Q_def)
  then show "length d = 64" using assms by blast
  have "list_all is_lower_hex label_mode_package_digest" "list_all is_lower_hex identifier_flags_package_digest"
    by (simp_all add: label_mode_package_digest_def identifier_flags_package_digest_def Q_def is_lower_hex_def is_ascii_digit_def)
  then have "list_all is_lower_hex d" using assms by blast
  with \<open>length d = 64\<close> show "is_full_sha256_digest d"
    by (simp add: is_full_sha256_digest_def match_classes_replicate at_end_def)
  have "utf16_ok label_mode_package_digest" unfolding label_mode_package_digest_def by (rule Q_utf16) (simp add: Q_def)
  moreover have "utf16_ok identifier_flags_package_digest"
    unfolding identifier_flags_package_digest_def by (rule Q_utf16) (simp add: Q_def)
  ultimately show "utf16_ok d" using assms by blast
qed

lemma switcher_parse_root:
  assumes d: "d = label_mode_package_digest \<or> d = identifier_flags_package_digest"
  shows "parse_configuration_root E switcher_catalog (configuration_object (switcher_configuration n d))
    = vr_accept (switcher_configuration n d)"
proof -
  let ?c = "switcher_configuration n d"
  have inv: "om_inv (cg_components ?c)" "om_inv (cg_instances ?c)" "om_inv (cg_bars ?c)"
    by (simp_all add: switcher_configuration_def)
  note look = configuration_object_lookup [OF inv]
  have sel: "cg_components ?c = [(workspace_switcher_id, switcher_component d)]" "cg_instances ?c = []" "cg_bars ?c = []"
    "cg_revision ?c = n" by (simp_all add: switcher_configuration_def)
  have read: "read_component E p (component_object (switcher_component d)) = (switcher_component d, [])" for p
    unfolding read_component_iff using switcher_digest_ok(1) [OF d]
    by (simp add: switcher_component_def strings_array_def parse_strings_def dormant_settings_errors_def)
  have user: "\<not> is_supported_user_declarative E switcher_entry"
    by (simp add: is_supported_user_declarative_def switcher_entry_def)
  have "normalize_settings E (ck_schema switcher_entry) ComponentScope [] True = vr_accept []"
    by (simp add: normalize_settings_def foreign_keys_def switcher_entry_def schema_find_def)
  then have act: "activate_component E switcher_entry p (switcher_component d) = (switcher_component d, [])" for p
    using user by (simp add: activate_component_def grant_errors_def resolved_text_errors_def switcher_component_def
        switcher_entry_def Let_def)
  have "parse_component E switcher_catalog workspace_switcher_id (JObj (component_object (switcher_component d)))
      = (Some (switcher_component d), [])"
    unfolding parse_component_object [OF workspace_id_ok read]
    by (simp add: act active_component_def switcher_catalog_def)
  then have cs: "parse_components E switcher_catalog (map_of (configuration_object ?c) (Q ''components'')) = (cg_components ?c, [])"
    unfolding look sel by (simp add: parse_components_def maximum_components_def)
  have ins: "parse_instance_records E switcher_catalog (cg_components ?c) (map_of (configuration_object ?c) (Q ''instances''))
      = (cg_instances ?c, [])"
    unfolding look sel by (simp add: parse_instance_records_def maximum_instances_def)
  have bars: "parse_bar_layouts E (map_of (configuration_object ?c) (Q ''layouts'')) = (cg_bars ?c, [])"
    unfolding look sel by (simp add: parse_bar_layouts_def json_object_def config_unknown_fields_def maximum_bar_layouts_def)
  have "layouts_errors E switcher_catalog ?c (cg_bars ?c) [] = ([], []) \<and> unplaced_errors (cg_instances ?c) [] = []"
    unfolding sel by (simp add: unplaced_errors_def)
  then show ?thesis
    unfolding parse_configuration_root_iff using cs ins bars
    by (simp only: look(1,2,6) version_errors_iff parse_config_revision_iff sel simp_thms) blast
qed

lemma switcher_written:
  assumes n: "n = 1 \<or> n = 2" and d: "d = label_mode_package_digest \<or> d = identifier_flags_package_digest"
  shows "parse_component_configuration sample_env (serialize_component_configuration sample_env (switcher_configuration n d))
    switcher_catalog = vr_accept (switcher_configuration n d)"
proof -
  have ob: "configuration_object (switcher_configuration n d) = json_object
     [(''formatVersion'', json_int 1), (''revision'', JStr (qnumber (unat n))),
      (''components'', JObj [(workspace_switcher_id, JObj (component_object (switcher_component d)))]),
      (''instances'', JObj []),
      (''layouts'', JObj (json_object [(''bars'', JObj []), (''desktops'', JObj [])]))]"
    by (simp add: configuration_object_def switcher_configuration_def)
  have texts: "utf16_ok (Q k)" if "k \<in> {''formatVersion'', ''revision'', ''components'', ''instances'', ''layouts'', ''bars'',
      ''desktops'', ''packageDigest'', ''enabled'', ''grantedCapabilities'', ''settings'', ''1'', ''2''}" for k
    using that by (intro Q_utf16) (auto simp: Q_def)
  have ws: "utf16_ok workspace_switcher_id" "length workspace_switcher_id = 52"
    unfolding workspace_switcher_id_def by (rule Q_utf16; simp add: Q_def) (simp add: Q_def)
  have rev: "utf16_ok (qnumber (unat n))" "length (write_chars (qnumber (unat n))) = 1"
    using n texts [of "''1''"] texts [of "''2''"] by (elim disjE; simp only: revision_texts insert_iff simp_thms; simp add: Q_def)+
  note objects = ob json_object_def json_int_def component_object_def strings_array_def switcher_component_def
  have "writable 32 (JObj (configuration_object (switcher_configuration n d)))"
    using texts rev ws switcher_digest_ok(2) [OF d] number_texts(1) by (simp add: objects)
  moreover have "length (write_json (JObj (configuration_object (switcher_configuration n d)))) < nat maximum_configuration_bytes"
  proof -
    have "write_number 1 = Q ''1''" by (simp add: write_number_def qnumber.simps digit_char_def Q_def)
    then show ?thesis
      using length_write_chars [of d] length_write_chars [of workspace_switcher_id] switcher_digest_ok(3) [OF d] ws rev
      by (simp add: objects maximum_configuration_bytes_def write_string_def Q_def)
  qed
  ultimately have "parse_object sample_env maximum_configuration_bytes maximum_configuration_depth
      (serialize_component_configuration sample_env (switcher_configuration n d)) = vr_accept (configuration_object (switcher_configuration n d))"
    unfolding serialize_component_configuration_def maximum_configuration_depth_def by (rule parse_written_sample) simp
  then show ?thesis unfolding parse_component_configuration_accept using switcher_parse_root [OF d] by blast
qed

section \<open>The migration\<close>

lemma switcher_migration:
  "migration_candidate sample_env (switcher_configuration 1 label_mode_package_digest) switcher_catalog
    = Some (switcher_configuration 2 identifier_flags_package_digest)"
proof -
  let ?cur = "switcher_configuration 1 label_mode_package_digest" and ?next = "switcher_configuration 2 identifier_flags_package_digest"
  have s: "map_of (cg_components ?cur) workspace_switcher_id = Some (switcher_component label_mode_package_digest)"
    "map_of (cc_entries switcher_catalog) workspace_switcher_id = Some switcher_entry" "cg_instances ?cur = []" "cg_revision ?cur = 1"
    by (simp_all add: switcher_configuration_def switcher_catalog_def)
  have a: "migration_applies ?cur switcher_catalog"
    by (simp add: migration_applies_def s) (simp add: switcher_component_def switcher_entry_def)
  have n: "?cur\<lparr>cg_instances := [], cg_components := om_insert workspace_switcher_id
        ((switcher_component label_mode_package_digest)\<lparr>cm_package_digest := ck_package_digest switcher_entry\<rparr>) (cg_components ?cur),
      cg_revision := 2\<rparr> = ?next"
    by (simp add: switcher_configuration_def switcher_component_def switcher_entry_def)
  show ?thesis using a switcher_written [of 2 identifier_flags_package_digest] by (simp add: migration_candidate_def s n Let_def)
qed

end
