(* ===== verification/Service_Guarantees.thy ===== *)
theory Service_Guarantees
  imports Sample_Migration
begin

text \<open>
  What a client may rely on of the component configuration service, whatever requests, catalogs and
  failures of the disk it has seen.
\<close>

section \<open>The configuration that is served\<close>

text \<open>
  C20: In every state the service can reach, whichever calls to the file system failed, the configuration
  it serves is well formed: at most 512 components, 1024 instances and 32 layouts, every instance of a
  configured component, and every instance placed exactly once.
\<close>

theorem service_configuration_ok:
  assumes "normal_idempotent E" and "catalogs_ok qs"
    and "sv_available (fold (service_step E T S) qs (new_service legacy d))"
  shows "configuration_ok (sv_state (fold (service_step E T S) qs (new_service legacy d)))"
  using service_run_inv [OF assms(1,2) new_service_inv(2,1)] assms(3) by (simp add: service_inv_def)

lemma sample_service_run:
  "sample_service x gap4 = fold (service_step sample_env sample_text service_store) [ApplyCatalog (gap_catalog x)]
     (new_service None (service_disk True gap4))"
  by (simp add: sample_service_def service_step_def)

theorem service_configuration_ok_witness: "configuration_ok (sv_state (sample_service 4 gap4))"
proof -
  note run = sample_service_run [of 4]
  have "sv_available (fold (service_step sample_env sample_text service_store) [ApplyCatalog (gap_catalog 4)]
      (new_service None (service_disk True gap4)))" using sample_service_fields(1) [of 4] unfolding run by blast
  from service_configuration_ok [OF sample_normal_idempotent _ this] show ?thesis
    unfolding run by (simp add: catalogs_ok_def gap_catalog_ok)
qed

text \<open>
  C21: A revision identifies a configuration: once the service is available it stays available, its
  revision never decreases, and two states of a run that report the same revision serve the same
  document.
\<close>

theorem revision_identifies_configuration:
  assumes "v = fold (service_step E T S) qs (new_service legacy d)" and "sv_available v"
    and "w = fold (service_step E T S) later v"
  shows "sv_available w \<and> service_revision v \<le> service_revision w
    \<and> (service_revision w = service_revision v \<longrightarrow> fst (snd (get_snapshot E w)) = fst (snd (get_snapshot E v)))"
proof -
  have "sv_loaded_once v"
    using service_run_loaded [of "new_service legacy d" E T S qs] assms(1,2) by (simp add: new_service_def)
  from service_run_follows [OF assms(2) this, of E T S later] assms(2,3) show ?thesis
    by (auto simp: service_revision_def get_snapshot_def word_le_nat_alt)
qed

theorem revision_identifies_configuration_witness:
  "service_revision (fold (service_step sample_env sample_text service_store)
      [DiskFaults [True], ReplaceSnapshot 1 sample_digest gap_bytes, LoseCatalog] (sample_service 10000000000000000 gap4)) \<ge> 1"
proof -
  have "service_revision (sample_service 10000000000000000 gap4) = 1"
    by (simp add: service_revision_def sample_service_fields) (simp add: gap_configuration_at_def)
  with revision_identifies_configuration [OF sample_service_run sample_service_fields(1) refl, of 10000000000000000
      "[DiskFaults [True], ReplaceSnapshot 1 sample_digest gap_bytes, LoseCatalog]"]
  show ?thesis by simp
qed

text \<open>
  C18: No update is lost: when a client reads a revision and its replacement for that revision is accepted
  later, whatever happened in between, the configuration that is replaced is the one the client read.
  The new configuration is the client's document as the parser accepts it, under the next
  revision, or the document was the current configuration and nothing changed.
\<close>

theorem no_lost_update:
  assumes "v = fold (service_step E T S) qs (new_service legacy d)" and "sv_available v"
    and "w = fold (service_step E T S) later v"
    and "replace_snapshot E T S (service_revision v) digest bs w = (None, w')"
  shows "sv_state w = sv_state v
    \<and> (\<exists>c. parse_component_configuration E bs (sv_catalog w) = vr_accept c \<and> cg_revision c = service_revision v
      \<and> (c = sv_state v \<and> w' = w
        \<or> sv_state w' = c\<lparr>cg_revision := service_revision v + 1\<rparr> \<and> service_revision v < service_revision w'))"
proof -
  have "sv_loaded_once v"
    using service_run_loaded [of "new_service legacy d" E T S qs] assms(1,2) by (simp add: new_service_def)
  note run = service_run_follows [OF assms(2) this, of E T S later, folded assms(3)]
  obtain c where c: "service_revision v = cg_revision (sv_state w)" "parse_component_configuration E bs (sv_catalog w) = vr_accept c"
    "cg_revision c = service_revision v" "sv_available w'"
    and r: "c = sv_state w \<and> w' = w \<or> c \<noteq> sv_state w \<and> service_revision v \<noteq> - 1 \<and> sv_state w' = c\<lparr>cg_revision := service_revision v + 1\<rparr>"
    using replace_snapshot_accepted [OF assms(4)] by metis
  have same: "sv_state w = sv_state v" using run(3) c(1) assms(2) by (simp add: service_revision_def)
  have "service_revision v < service_revision w'" if "service_revision v \<noteq> - 1" "sv_state w' = c\<lparr>cg_revision := service_revision v + 1\<rparr>"
    using that c(4) unat_successor [of "service_revision v"] by (simp add: service_revision_def word_less_nat_alt split: if_splits)
  with r c same show ?thesis by auto
qed

theorem no_lost_update_witness:
  "\<exists>w. replace_snapshot sample_env sample_text service_store 1 sample_digest gap_bytes (sample_service 1 gap4) = (None, w)
    \<and> service_revision (sample_service 1 gap4) < service_revision w"
proof -
  obtain w where w: "replace_snapshot sample_env sample_text service_store 1 sample_digest gap_bytes (sample_service 1 gap4) = (None, w)"
    "sv_state w = gap_configuration_at 2 [(Q ''gap'', JNum 1)]" using gap_replaced [of 1] by blast
  have r: "service_revision (sample_service 1 gap4) = 1"
    by (simp add: service_revision_def sample_service_fields) (simp add: gap_configuration_at_def)
  have "w \<noteq> sample_service 1 gap4"
    using w(2) sample_service_fields(3) [of 1] by (auto simp: gap_configuration_at_def)
  with no_lost_update [OF sample_service_run sample_service_fields(1), of 1 "sample_service 1 gap4" "[]" sample_digest gap_bytes w] w(1) r
  show ?thesis by auto
qed

section \<open>Restarts\<close>

text \<open>
  C17: The configuration survives a restart: as long as the replacements can be read back, whatever of
  them was accepted or refused and whichever calls to the file system failed, a restart on the
  same disk, without failures, loads exactly the configuration the service last held.
\<close>

theorem restart_returns_the_configuration:
  assumes "config_holds E T (plain_store P) cat (sv_state v, sv_disk v) (sv_state v)" and "sv_catalog v = cat"
    and "requests_settle E cat qs" and "w = fold (service_step E T (plain_store P)) qs v"
  shows "config_restart E T (plain_store P) cat (sv_state w, sv_disk w) = Some (sv_state w)"
  unfolding assms(4) by (rule qt_store.saves.restart_holds [OF service_run_holds [OF assms(1-3)]])

lemma sample_service_holds:
  assumes "x = 1 \<or> x = 4 \<or> x = 10000000000000000"
  shows "config_holds sample_env sample_text service_store (gap_catalog x)
    (sv_state (sample_service x gap4), sv_disk (sample_service x gap4)) (sv_state (sample_service x gap4))"
proof -
  have p: "parse_component_configuration sample_env (serialize_component_configuration sample_env gap4) (gap_catalog x) = vr_accept gap4"
    using gap4_settled [OF assms] by (simp add: settled_def)
  show ?thesis
    by (simp add: config_holds_def sample_service_fields [OF assms] service_paths_apart gap4_settled [OF assms]
        service_disk_stored [OF p] readable_status_def)
qed

theorem restart_returns_the_configuration_witness:
  "\<exists>w. replace_snapshot sample_env sample_text service_store 1 sample_digest gap_bytes (sample_service 1 gap4) = (None, w)
    \<and> config_restart sample_env sample_text service_store (gap_catalog 1) (sv_state w, sv_disk w)
      = Some (gap_configuration_at 2 [(Q ''gap'', JNum 1)])"
proof -
  obtain w where w: "replace_snapshot sample_env sample_text service_store 1 sample_digest gap_bytes (sample_service 1 gap4) = (None, w)"
    "sv_state w = gap_configuration_at 2 [(Q ''gap'', JNum 1)]" using gap_replaced [of 1] by blast
  have c: "gap_configuration_at 1 m\<lparr>cg_revision := 2\<rparr> = gap_configuration_at 2 m" for m
    by (simp add: gap_configuration_at_def)
  have "settled sample_env (gap_catalog 1) (gap_configuration_at 2 [(Q ''gap'', JNum 1)])"
    by (rule gap_settled) simp_all
  then have "requests_settle sample_env (gap_catalog 1) [ReplaceSnapshot 1 sample_digest gap_bytes]"
    by (simp add: requests_settle_def gap_accepted c)
  moreover have "w = fold (service_step sample_env sample_text service_store) [ReplaceSnapshot 1 sample_digest gap_bytes] (sample_service 1 gap4)"
    by (simp add: service_step_def w(1))
  ultimately have "config_restart sample_env sample_text service_store (gap_catalog 1) (sv_state w, sv_disk w) = Some (sv_state w)"
    using restart_returns_the_configuration [OF sample_service_holds [of 1, OF disjI1 [OF refl]]
        sample_service_fields(5) [of 1, OF disjI1 [OF refl]]] by blast
  with w show ?thesis by auto
qed

text \<open>
  C24: An accepted configuration may not survive one: with a schema whose default is above 2 ^ 53, a
  replacement that leaves the setting out is accepted and written to both files, but neither can
  be read again, and the next start has no configuration.
\<close>

theorem accepted_configuration_is_lost:
  "schema_ok sample_env (gap_schema 10000000000000000)
    \<and> (\<exists>w. replace_snapshot sample_env sample_text service_store 1 sample_digest gap_bytes
          (sample_service 10000000000000000 gap4) = (None, w)
      \<and> sv_state w = gap_configuration_at 2 [(Q ''gap'', JNum 10000000000000000)]
      \<and> config_restart sample_env sample_text service_store (gap_catalog 10000000000000000) (sv_state w, sv_disk w) = None)"
proof -
  let ?cat = "gap_catalog 10000000000000000" and ?cfg = "gap_configuration_at 2 [(Q ''gap'', JNum 10000000000000000)]"
  obtain w where w: "replace_snapshot sample_env sample_text service_store 1 sample_digest gap_bytes (sample_service 10000000000000000 gap4) = (None, w)"
    "sv_state w = ?cfg"
    and a: "\<exists>n. fs_nodes (sv_disk w) (cp_active service_paths) = Some n \<and> in_kind n = Regular
      \<and> in_data n = serialize_component_configuration sample_env ?cfg"
    and r: "\<exists>n. fs_nodes (sv_disk w) (cp_recovery service_paths) = Some n \<and> in_kind n = Regular
      \<and> in_data n = serialize_component_configuration sample_env ?cfg"
    and d: "fs_nodes (sv_disk w) (cp_defaults service_paths) = None"
    using gap_replaced [of 10000000000000000] by blast
  have bad: "rd_status (stored sample_env sample_text ?cat p (sv_disk w)) \<in> {DamagedFile, UnsupportedFile}"
    if "\<exists>n. fs_nodes (sv_disk w) p = Some n \<and> in_kind n = Regular \<and> in_data n = serialize_component_configuration sample_env ?cfg" for p
    using that gap_refused [of 2] by (auto simp: stored_alt read_content_def Let_def split: if_splits)
  have missing: "stored sample_env sample_text ?cat (cp_defaults service_paths) ((sv_disk w)\<lparr>fs_faults := []\<rparr>) = rd_missing"
    by (simp add: stored_alt d)
  have "config_restart sample_env sample_text service_store ?cat (sv_state w, sv_disk w) = None"
    using bad [OF a] bad [OF r]
    by (auto simp: config_restart_def reload_no_faults Let_def load_refused_def load_defaults_def read_snapshot_no_faults missing rd_missing_def)
  with w gap_schema_ok show ?thesis by blast
qed

section \<open>Dormant components\<close>

text \<open>
  C19: What an accepted replacement does to a component whose package is not the installed one: its
  record stays as it is, unless it adopts the package of the user that is installed, disabled and
  without grants; its instances stay as they are, and so does every layout that places one of
  them. No other record becomes dormant.
\<close>

theorem dormant_state_is_preserved:
  assumes accepted: "replace_snapshot E T S n digest bs v = (None, w)" and c: "map_of (cg_components (sv_state v)) k = Some c"
    and dormant: "is_dormant (sv_catalog v) k c"
  shows "(\<exists>p. map_of (cg_components (sv_state w)) k = Some p \<and> (p = c \<or> adopts_updated_package (sv_catalog v) k c p))
    \<and> (\<forall>x i. map_of (cg_instances (sv_state v)) x = Some i \<and> ci_component_id i = k \<longrightarrow>
        map_of (cg_instances (sv_state w)) x = Some i
        \<and> (\<forall>b l. map_of (cg_bars (sv_state v)) b = Some l \<and> places l x \<longrightarrow> map_of (cg_bars (sv_state w)) b = Some l))
    \<and> (\<forall>k' p. map_of (cg_components (sv_state w)) k' = Some p \<and> is_dormant (sv_catalog v) k' p \<longrightarrow>
        (\<exists>c'. (k', c') \<in> set (cg_components (sv_state v)) \<and> is_dormant (sv_catalog v) k' c'))"
proof -
  obtain candidate where p: "preserves_dormant_state (sv_catalog v) (sv_state v) candidate = None"
    and "candidate = sv_state v \<and> w = v \<or> candidate \<noteq> sv_state v \<and> n \<noteq> - 1 \<and> sv_state w = candidate\<lparr>cg_revision := n + 1\<rparr>"
    using replace_snapshot_accepted [OF accepted] by metis
  then have w: "cg_components (sv_state w) = cg_components candidate" "cg_instances (sv_state w) = cg_instances candidate"
    "cg_bars (sv_state w) = cg_bars candidate" by auto
  note k = preserves_dormant_stateD [OF p]
  show ?thesis unfolding w
    using k(1) [OF map_of_SomeD [OF c] dormant] k(2) [OF map_of_SomeD [OF c] dormant map_of_SomeD] k(3) [OF map_of_SomeD]
    by (fastforce dest: map_of_SomeD)
qed

theorem dormant_state_is_preserved_witness:
  "is_dormant bare_catalog sample_id (gap_component [(Q ''gap'', JNum 4)])
    \<and> map_of (cg_instances (sv_state dormant_service)) sample_instance_id = Some gap_instance"
proof -
  have s: "sv_state dormant_service = gap4" "sv_catalog dormant_service = bare_catalog"
    by (simp_all add: dormant_service_def sample_service_fields)
  have m: "map_of (cg_components gap4) sample_id = Some (gap_component [(Q ''gap'', JNum 4)])"
    "map_of (cg_instances gap4) sample_instance_id = Some gap_instance" "ci_component_id gap_instance = sample_id"
    by (simp_all add: gap_configuration_at_def gap_instance_def)
  have d: "is_dormant bare_catalog sample_id c" for c by (simp add: is_dormant_def bare_catalog_def)
  from dormant_state_is_preserved [OF dormant_service_kept, unfolded s, OF m(1) d] m d show ?thesis by (simp add: s)
qed

text \<open>
  C25: The check that no new instances of dormant components are accepted looks at identifiers only: an
  instance of an active component may be given to a dormant one, wherever it is placed.
\<close>

theorem dormant_check_admits_reassignment:
  assumes "om_inv (cg_components cur)" and "om_inv (cg_instances cur)" and "om_inv (cg_bars cur)"
    and "map_of (cg_components cur) k = Some c" and "is_dormant cat k c"
    and "map_of (cg_instances cur) x = Some i" and "map_of (cg_components cur) (ci_component_id i) = Some a"
    and "\<not> is_dormant cat (ci_component_id i) a"
  shows "preserves_dormant_state cat cur (cur\<lparr>cg_instances := om_insert x (i\<lparr>ci_component_id := k\<rparr>) (cg_instances cur)\<rparr>) = None"
proof -
  let ?next = "cur\<lparr>cg_instances := om_insert x (i\<lparr>ci_component_id := k\<rparr>) (cg_instances cur)\<rparr>"
  have kept: "dormant_instance_changed cur ?next k' (y, j) = None"
    if "(k', c') \<in> set (cg_components cur)" "is_dormant cat k' c'" "(y, j) \<in> set (cg_instances cur)" for k' c' y j
  proof (cases "ci_component_id j = k'")
    case True
    have "map_of (cg_components cur) k' = Some c'" "map_of (cg_instances cur) y = Some j"
      using om_inv_lookup [OF assms(1), of k' c'] om_inv_lookup [OF assms(2), of y j] that(1,3) by simp_all
    then have "y \<noteq> x" using True that(2) assms(6-8) by auto
    then have "map_of (cg_instances ?next) y = Some j" using \<open>map_of (cg_instances cur) y = Some j\<close> assms(2) by simp
    moreover have "layout_changed (cg_bars cur) y e = None" if "e \<in> set (cg_bars cur)" for e
      using om_inv_lookup [OF assms(3), of "fst e" "snd e"] that by (simp add: layout_changed_def)
    ultimately show ?thesis using True by (simp add: dormant_instance_changed_def first_error_None)
  qed (simp add: dormant_instance_changed_def)
  have "dormant_record_changed cat cur ?next e = None" if "e \<in> set (cg_components cur)" for e
    using kept [of "fst e" "snd e"] that om_inv_lookup [OF assms(1), of "fst e" "snd e"]
    by (auto simp: dormant_record_changed_def first_error_None)
  moreover have "new_dormant_record cat cur e = None" if "e \<in> set (cg_components cur)" for e
    using that by (auto simp: new_dormant_record_def dormant_ids_def)
  moreover have "new_dormant_instance cat cur e = None" if "e \<in> set (cg_instances ?next)" for e
  proof -
    have "fst e \<in> insert x (fst ` set (cg_instances cur))" using imageI [OF that, of fst] by (simp add: om_insert_keys)
    moreover have "x \<in> fst ` set (cg_instances cur)" using imageI [OF map_of_SomeD [OF assms(6)], of fst] by simp
    ultimately have "fst e \<in> fst ` set (cg_instances cur)" by (simp only: insert_absorb)
    then have "map_of (cg_instances cur) (fst e) \<noteq> None" by (simp only: map_of_eq_None_iff not_not)
    then show ?thesis by (simp add: new_dormant_instance_def om_contains_def)
  qed
  ultimately have "first_error (dormant_record_changed cat cur ?next) (cg_components cur) = None"
    "first_error (new_dormant_record cat cur) (cg_components cur) = None"
    "first_error (new_dormant_instance cat cur) (cg_instances ?next) = None"
    by (simp_all only: first_error_None, blast+)
  moreover have "cg_components ?next = cg_components cur" by simp
  ultimately show ?thesis unfolding preserves_dormant_state_def by (simp only: option.case)
qed

theorem dormant_check_admits_reassignment_witness:
  "\<exists>cur next. map_of (cg_components cur) workspace_switcher_id = Some (gap_component [])
    \<and> is_dormant (gap_catalog 4) workspace_switcher_id (gap_component [])
    \<and> map_of (cg_instances cur) sample_instance_id = Some gap_instance
    \<and> map_of (cg_instances next) sample_instance_id = Some (gap_instance\<lparr>ci_component_id := workspace_switcher_id\<rparr>)
    \<and> preserves_dormant_state (gap_catalog 4) cur next = None"
proof -
  define cur where "cur = gap4\<lparr>cg_components := [(sample_id, gap_component []), (workspace_switcher_id, gap_component [])]\<rparr>"
  have s: "cg_components cur = [(sample_id, gap_component []), (workspace_switcher_id, gap_component [])]"
    "cg_instances cur = [(sample_instance_id, gap_instance)]" "cg_bars cur = [(Q ''main'', gap_bar)]"
    by (simp_all add: cur_def gap_configuration_at_def)
  have ids: "sample_id < workspace_switcher_id" "sample_id \<noteq> workspace_switcher_id"
    by (simp_all add: sample_id_def workspace_switcher_id_def Q_def)
  have inv: "om_inv (cg_components cur)" "om_inv (cg_instances cur)" "om_inv (cg_bars cur)" by (simp_all add: s ids)
  have k: "map_of (cg_components cur) workspace_switcher_id = Some (gap_component [])"
    "map_of (cg_instances cur) sample_instance_id = Some gap_instance"
    "map_of (cg_components cur) (ci_component_id gap_instance) = Some (gap_component [])"
    using ids by (simp_all add: s gap_instance_def)
  have d: "is_dormant (gap_catalog 4) workspace_switcher_id (gap_component [])"
    "\<not> is_dormant (gap_catalog 4) (ci_component_id gap_instance) (gap_component [])"
    using ids by (simp_all add: is_dormant_def gap_catalog_def gap_entry_def gap_component_def gap_instance_def)
  from dormant_check_admits_reassignment [OF inv k(1) d(1) k(2,3) d(2)] k d(1) inv(2) show ?thesis
    by (intro exI [of _ cur] exI [of _ "cur\<lparr>cg_instances :=
          om_insert sample_instance_id (gap_instance\<lparr>ci_component_id := workspace_switcher_id\<rparr>) (cg_instances cur)\<rparr>"]) simp
qed

section \<open>The migration of the workspace switcher\<close>

text \<open>
  C23: What a migration changes: the revision is the next one, the record of the switcher has the digest of
  the installed package, and the settings of its instances are translated from a label mode to the
  two flags. No other record, no other instance and no layout changes, and no instance is added or removed.
\<close>

theorem migration_changes_only_the_switcher:
  assumes "migration_candidate E cur cat = Some next" and "om_inv (cg_components cur)"
  shows "unat (cg_revision next) = Suc (unat (cg_revision cur)) \<and> cg_bars next = cg_bars cur
    \<and> (\<exists>live. map_of (cc_entries cat) workspace_switcher_id = Some live
        \<and> map_of (cg_components next) workspace_switcher_id
          = map_option (\<lambda>c. c\<lparr>cm_package_digest := ck_package_digest live\<rparr>) (map_of (cg_components cur) workspace_switcher_id))
    \<and> (\<forall>k. k \<noteq> workspace_switcher_id \<longrightarrow> map_of (cg_components next) k = map_of (cg_components cur) k)
    \<and> om_keys (cg_instances next) = om_keys (cg_instances cur)
    \<and> (\<forall>k i. map_of (cg_instances cur) k = Some i \<longrightarrow> (\<exists>j. map_of (cg_instances next) k = Some j
        \<and> (if ci_component_id i = workspace_switcher_id
           then (\<exists>s. migrate_label_mode (ci_settings i) = Some s \<and> j = i\<lparr>ci_settings := s\<rparr>) else j = i)))"
proof -
  obtain desired live instances where "map_of (cg_components cur) workspace_switcher_id = Some desired"
    "map_of (cc_entries cat) workspace_switcher_id = Some live" "cg_revision cur \<noteq> - 1"
    and i: "migrate_instances (cg_instances cur) = Some instances"
    and n: "next = cur\<lparr>cg_instances := instances,
       cg_components := om_insert workspace_switcher_id (desired\<lparr>cm_package_digest := ck_package_digest live\<rparr>) (cg_components cur),
       cg_revision := cg_revision cur + 1\<rparr>"
    using migration_candidate_parts [OF assms(1)] by metis
  then show ?thesis using migrate_instances_lookup [OF i] migrate_instances_keys [OF i] assms(2) by (simp add: unat_successor)
qed

text \<open>
  C22: A migration that was interrupted completes: whichever calls of a start failed while it was migrating a
  valid active file, the next start without failures loads the migrated configuration, for writing
  and without reporting a recovery.
\<close>

theorem interrupted_migration_completes:
  assumes "paths_apart P" and "free_path s (cp_active P)" and "free_path s (cp_recovery P)"
    and "stored E T cat (cp_active P) s = valid_read cur" and "readable_status (rd_status (stored E T cat (cp_recovery P) s))"
    and "migration_candidate E cur cat = Some next" and "om_inv (cg_components cur)"
    and "load_configuration E T (plain_store P) cat legacy s = (l, s')"
  shows "fst (load_configuration E T (plain_store P) cat legacy' (s'\<lparr>fs_faults := []\<rparr>)) = load_ready next LoadNormal"
proof -
  have "migrating E T P cat cur next s" using assms(2-5) by (simp add: migrating_def)
  from load_completes [OF assms(1) load_migrating [OF assms(1) this assms(6-8)] assms(6,7), of legacy'] show ?thesis
    by auto
qed

section \<open>The sample migration\<close>

theorem migration_changes_only_the_switcher_witness:
  "map_of (cg_components (switcher_configuration 2 identifier_flags_package_digest)) workspace_switcher_id
    = Some ((switcher_component label_mode_package_digest)\<lparr>cm_package_digest := identifier_flags_package_digest\<rparr>)"
proof -
  have "om_inv (cg_components (switcher_configuration 1 label_mode_package_digest))"
    "map_of (cg_components (switcher_configuration 1 label_mode_package_digest)) workspace_switcher_id
      = Some (switcher_component label_mode_package_digest)"
    "map_of (cc_entries switcher_catalog) workspace_switcher_id = Some switcher_entry"
    "ck_package_digest switcher_entry = identifier_flags_package_digest"
    by (simp_all add: switcher_configuration_def switcher_catalog_def switcher_entry_def)
  with migration_changes_only_the_switcher [OF switcher_migration] show ?thesis by auto
qed

theorem interrupted_migration_completes_witness:
  "\<exists>l s'. load_configuration sample_env sample_text service_store switcher_catalog None
      ((service_disk False (switcher_configuration 1 label_mode_package_digest))\<lparr>fs_faults := replicate 10 False @ [True]\<rparr>) = (l, s')
    \<and> fst (load_configuration sample_env sample_text service_store switcher_catalog None (s'\<lparr>fs_faults := []\<rparr>))
      = load_ready (switcher_configuration 2 identifier_flags_package_digest) LoadNormal"
proof -
  let ?cur = "switcher_configuration 1 label_mode_package_digest"
  let ?s = "(service_disk False ?cur)\<lparr>fs_faults := replicate 10 False @ [True]\<rparr>"
  have "free_path ?s (cp_active service_paths)" "free_path ?s (cp_recovery service_paths)"
    using service_disk_free [of False ?cur] by (simp_all add: free_path_def)
  moreover have "stored sample_env sample_text switcher_catalog p ?s
      = stored sample_env sample_text switcher_catalog p (service_disk False ?cur)" for p by (rule stored_cong) simp
  moreover note service_disk_stored [OF switcher_written [OF disjI1 [OF refl] disjI1 [OF refl]], of sample_text False]
  moreover have "readable_status (rd_status rd_missing)" by (simp add: readable_status_def rd_missing_def)
  moreover have "om_inv (cg_components ?cur)" by (simp add: switcher_configuration_def)
  moreover obtain l s' where "load_configuration sample_env sample_text service_store switcher_catalog None ?s = (l, s')" by force
  ultimately show ?thesis
    using interrupted_migration_completes [OF service_paths_apart _ _ _ _ switcher_migration] by (metis (full_types))
qed

end
