(* ===== verification/Spec2Isabelle.thy ===== *)
theory Spec2Isabelle
  imports Reader_Guarantees Store_Guarantees Plan_Guarantees Retry_Finding Format_Guarantees Settings_Guarantees
    Configuration_Guarantees Service_Guarantees
begin

text \<open>
  HyprGlassShell: the runtime that decides which shell components are rendered.

  \<^bold>\<open>The program.\<close> The configuration daemon (src/src/configd) owns the user's component configuration: which
  packages are enabled, with which settings, and where their instances are placed. It keeps it in an
  active and a recovery snapshot, checks it against the catalogue of installed packages, and lets clients
  replace it. The coordinator daemon (src/src/coordinator/components) reads catalogue and configuration, builds
  a surface plan (which instances appear in which bar) and publishes it to the daemon that renders.
  Third-party packages run on probation and are quarantined when they fail; what is quarantined survives a
  crash in the runtime health store. All documents (src/src/component) are JSON read by one strict reader.

  \<^bold>\<open>Theories and sources.\<close>
  \<^item> Qt_Prelude, Json, Posix_Fs, Double: strings as lists of 16-bit code units, ordered maps for \<open>QMap\<close> and
    \<open>QHash\<close> (interface \<open>key_map\<close>), \<open>ValidationResult\<close>, \<open>QJsonValue\<close>, inodes, \<open>double\<close> as IEEE rounding of rationals.
  \<^item> Strict_Json, Json_Number: component/strict_json.cpp, with the test that a number survives a \<open>double\<close>.
    Json_Grammar is the grammar of RFC 8259 as inductive relations, with which the reader is shown to agree.
    Compact_Writer is the writer of the sample environment, which the reader inverts.
  \<^item> Contract: the grammars of component_contract.cpp and component_configuration.cpp and the settings of the
    built-in workspace switcher. Declarative: declarative_document.cpp.
  \<^item> Settings_Schema (settings_schema.cpp), with Settings_Values and Settings_Facts on what normalisation returns.
  \<^item> Configuration (component_configuration.cpp), with Configuration_Facts, Configuration_Layouts and
    Configuration_Documents on accepted records, layouts and documents.
  \<^item> Component_Store (configd/component_store.cpp): \<open>load_configuration\<close> is \<open>ComponentStore::load\<close>, cut at its three
    sources (active, recovery, defaults); \<open>migrate_configuration\<close> and \<open>persist_configuration\<close> are the other methods.
    Component_Store_Facts states the contract of a writer (\<open>atomic_store\<close>) and derives the one of the pair of
    files (\<open>durable_store\<close>); Component_Migration is about the migration.
  \<^item> Component_Service (configd/component_config_service.cpp): the members are the record \<open>config_service\<close>, each
    method a function on it; \<open>service_step\<close> is one request. Component_Service_Facts has its invariant, Service_Contract
    what an accepted replacement preserves and writes.
  \<^item> Surface_Plan (surface_plan.cpp), Plan_Format (what its parser returns), Plan_Builder
    (component_plan_builder.cpp), Health_Store (component_runtime_health_store.cpp) with Durable_Store.
  \<^item> Plan_Controller (component_plan_controller.cpp): one definition per member function. Plan_Codec has the
    interface to the artifact, Plan_Lifecycle the invariant, Plan_Machine the transition system, Plan_Effects and
    Plan_Durability what messages do and what the files hold after every step.
  \<^item> Sample_Env, Sample_Codec, Sample_Run, Sample_Configuration, Sample_Service, Sample_Migration: concrete
    instances, on which the properties are applied.
  \<^item> The properties: Reader_, Format_, Settings_, Configuration_, Service_, Store_ and Plan_Guarantees, Retry_Finding.

  \<^bold>\<open>What the groups of lemmas show.\<close> Parsers: the exact set of accepted documents as a predicate, and the round
  trip with the serialiser. Stores: reads are a function of the inodes, and after any sequence of saves with any
  failures a restart reads the last state that was reported durable; both stores are interpretations of one
  locale. Service: the configuration is well formed, revisions identify configurations, no update is lost,
  dormant records are preserved, an interrupted migration completes. Controller: the published plan is safe
  in every reachable state, and every package on probation ends stable, quarantined or disabled.

  \<^bold>\<open>Parameters.\<close> The record \<open>qt_env\<close> holds what is Qt's or Unicode's: the compact JSON writer, the UTF-8 decoder,
  the conversion of texts to \<open>double\<close>, normalisation form C, trimming, two tests of character categories, and
  SHA-256. A hypothesis on it (\<open>normal_idempotent\<close>, \<open>json_codec\<close>) is named, and holds in Sample_Env. The texts of
  platform errors are the function \<open>T\<close>, the failures of system calls the schedule \<open>fs_faults\<close> of the disk; the
  theorems quantify over both. The component catalogue and the roots of \<open>QStandardPaths\<close> are arguments.

  \<^bold>\<open>Bounds.\<close> The strict reader recurses on fuel, one more than the length of the text; \<open>reader_total\<close> shows that it
  never runs out. The recursion over dormant settings is bounded by its depth test at 8, as in the code.
  Revisions are 64-bit words, so that exhaustion is a case; sizes are compared with the code's limits.

  \<^bold>\<open>Findings.\<close> \<open>accepted_configuration_is_lost\<close>, \<open>dormant_check_admits_reassignment\<close>,
  \<open>colour_grammar\<close>, \<open>digest_grammar\<close> and \<open>retry_revives_a_retained_plan\<close> state behaviour that differs from what the
  comments and messages of the code promise.

  \<^bold>\<open>Not modelled.\<close> The manifest parser of component_contract.cpp and the package inspection (their result, a
  catalogue entry, is an argument here); the D-Bus clients and adaptors around the two services, whose
  behaviour is that of QtDBus; the compositor daemon and its Hyprland catalogue, which share no state with
  the component runtime; main programs and QML. On the file system, \<open>QSaveFile\<close> is a write that replaces a missing
  or regular file or fails before it; files do not change while they are read.
\<close>

end
